theory Spec2Isabelle
  imports Main "HOL-Library.Multiset"
begin

section \<open>Strings of the source language\<close>

text \<open>
  The parsers are TypeScript. A string of the source is a sequence of UTF-16 code units;
  here it is a \<open>string\<close> (a \<open>char list\<close>) whose characters are the code units below 256,
  so \<open>length\<close> counts what the source's \<open>.length\<close> counts. Code units above 255 are outside
  the model. The library functions of the source language that the parsers call are written
  out below on this range.
\<close>

text \<open>White space as \<open>String.prototype.trim\<close> and the class \<open>\s\<close> see it (below 256).\<close>

definition isWhiteSpace :: "char \<Rightarrow> bool" where
  "isWhiteSpace c =
     (c \<in> set [CHR 0x09, CHR 0x0A, CHR 0x0B, CHR 0x0C, CHR 0x0D, CHR '' '', CHR 0xA0])"

definition trim :: "string \<Rightarrow> string" where
  "trim s = rev (dropWhile isWhiteSpace (rev (dropWhile isWhiteSpace s)))"

definition startsWith :: "string \<Rightarrow> string \<Rightarrow> bool" where
  "startsWith s p = (take (length p) s = p)"

definition endsWith :: "string \<Rightarrow> string \<Rightarrow> bool" where
  "endsWith s p = (length p \<le> length s \<and> drop (length s - length p) s = p)"

text \<open>\<open>s.includes(p)\<close>: \<open>p\<close> occurs in \<open>s\<close> as a contiguous substring.\<close>

primrec str_includes :: "string \<Rightarrow> string \<Rightarrow> bool" where
  "str_includes [] p = (p = [])"
| "str_includes (c # cs) p = (startsWith (c # cs) p \<or> str_includes cs p)"

text \<open>\<open>s.split(sep)\<close> for a separator of one character; the result is never empty.\<close>

primrec str_split :: "char \<Rightarrow> string \<Rightarrow> string list" where
  "str_split sep [] = [[]]"
| "str_split sep (c # cs) =
     (if c = sep then [] # str_split sep cs
      else (case str_split sep cs of [] \<Rightarrow> [[c]] | p # ps \<Rightarrow> (c # p) # ps))"

text \<open>\<open>xs[0]\<close> on an array of strings that is used as a string afterwards.\<close>

definition first_part :: "string list \<Rightarrow> string" where
  "first_part ps = (case ps of [] \<Rightarrow> [] | p # _ \<Rightarrow> p)"

text \<open>\<open>.filter(Boolean)\<close> on an array of strings keeps the non-empty ones.\<close>

definition filter_Boolean :: "string list \<Rightarrow> string list" where
  "filter_Boolean ps = filter (\<lambda>p. p \<noteq> []) ps"

text \<open>
  Case mapping of \<open>toLowerCase\<close> and \<open>toUpperCase\<close> on the code units below 256. Lower-casing
  stays in this range. Upper-casing does not for U+00B5 and U+00FF, which the model leaves
  unchanged; U+00DF becomes \<open>SS\<close> as in the source language.
\<close>

definition upperLetters :: string where
  "upperLetters = ''ABCDEFGHIJKLMNOPQRSTUVWXYZ'' @
     [CHR 0xC0, CHR 0xC1, CHR 0xC2, CHR 0xC3, CHR 0xC4, CHR 0xC5, CHR 0xC6, CHR 0xC7,
      CHR 0xC8, CHR 0xC9, CHR 0xCA, CHR 0xCB, CHR 0xCC, CHR 0xCD, CHR 0xCE, CHR 0xCF,
      CHR 0xD0, CHR 0xD1, CHR 0xD2, CHR 0xD3, CHR 0xD4, CHR 0xD5, CHR 0xD6,
      CHR 0xD8, CHR 0xD9, CHR 0xDA, CHR 0xDB, CHR 0xDC, CHR 0xDD, CHR 0xDE]"

definition lowerLetters :: string where
  "lowerLetters = ''abcdefghijklmnopqrstuvwxyz'' @
     [CHR 0xE0, CHR 0xE1, CHR 0xE2, CHR 0xE3, CHR 0xE4, CHR 0xE5, CHR 0xE6, CHR 0xE7,
      CHR 0xE8, CHR 0xE9, CHR 0xEA, CHR 0xEB, CHR 0xEC, CHR 0xED, CHR 0xEE, CHR 0xEF,
      CHR 0xF0, CHR 0xF1, CHR 0xF2, CHR 0xF3, CHR 0xF4, CHR 0xF5, CHR 0xF6,
      CHR 0xF8, CHR 0xF9, CHR 0xFA, CHR 0xFB, CHR 0xFC, CHR 0xFD, CHR 0xFE]"

definition lowerChar :: "char \<Rightarrow> char" where
  "lowerChar c = (case map_of (zip upperLetters lowerLetters) c of Some l \<Rightarrow> l | None \<Rightarrow> c)"

definition toLowerCase :: "string \<Rightarrow> string" where
  "toLowerCase s = map lowerChar s"

definition upperChar :: "char \<Rightarrow> string" where
  "upperChar c =
     (if c = CHR 0xDF then ''SS''
      else (case map_of (zip lowerLetters upperLetters) c of Some u \<Rightarrow> [u] | None \<Rightarrow> [c]))"

definition toUpperCase :: "string \<Rightarrow> string" where
  "toUpperCase s = concat (map upperChar s)"

section \<open>Identifiers from URLs\<close>

subsection \<open>Site A: \<open>MangaReaderParser.idCleaner\<close>\<close>

definition idCleaner :: "string \<Rightarrow> string" where
  "idCleaner url =
     (if url = [] then []
      else
        (let cleanUrl = first_part (str_split CHR ''?'' url);
             parts = filter_Boolean (str_split CHR ''/'' cleanUrl)
         in if length parts > 0 then last parts else cleanUrl))"

subsection \<open>Site B: \<open>ZizHelpers.cleanMangaId\<close> and \<open>ZizParser.idCleaner\<close>\<close>

text \<open>\<open>s.replace(/\/$/, "")\<close>: one slash at the end of the input is removed.\<close>

definition stripTrailingSlash :: "string \<Rightarrow> string" where
  "stripTrailingSlash s = (if s \<noteq> [] \<and> last s = CHR ''/'' then butlast s else s)"

text \<open>
  The pattern \<open>(?:\/manga\/|\/reader\/manga\/)([^/]+)\<close> tried at the start of \<open>s\<close>: the
  first alternative, then the second; the group is the longest run without a slash and
  must not be empty.
\<close>

definition slugGroup :: "string \<Rightarrow> string option" where
  "slugGroup r = (let g = takeWhile (\<lambda>c. c \<noteq> CHR ''/'') r in if g = [] then None else Some g)"

definition mangaSlugAt :: "string \<Rightarrow> string option" where
  "mangaSlugAt s =
     (case (if startsWith s ''/manga/'' then slugGroup (drop 7 s) else None) of
        Some g \<Rightarrow> Some g
      | None \<Rightarrow> if startsWith s ''/reader/manga/'' then slugGroup (drop 14 s) else None)"

text \<open>\<open>s.match(...)\<close> without the global flag: the leftmost position where the pattern matches.\<close>

primrec mangaSlugMatch :: "string \<Rightarrow> string option" where
  "mangaSlugMatch [] = None"
| "mangaSlugMatch (c # cs) =
     (case mangaSlugAt (c # cs) of Some g \<Rightarrow> Some g | None \<Rightarrow> mangaSlugMatch cs)"

definition cleanMangaId :: "string \<Rightarrow> string" where
  "cleanMangaId url =
     (if url = [] then []
      else
        (let cleanUrl = stripTrailingSlash (first_part (str_split CHR ''?'' url))
         in case mangaSlugMatch cleanUrl of
              Some g \<Rightarrow> g
            | None \<Rightarrow>
                (case filter_Boolean (str_split CHR ''/'' cleanUrl) of
                   [] \<Rightarrow> []
                 | p # ps \<Rightarrow> last (p # ps))))"

definition ZizParser_idCleaner :: "string \<Rightarrow> string" where
  "ZizParser_idCleaner url =
     (if url = [] then []
      else
        (let cleanUrl = stripTrailingSlash (first_part (str_split CHR ''?'' url))
         in case mangaSlugMatch cleanUrl of
              Some g \<Rightarrow> g
            | None \<Rightarrow>
                (case filter_Boolean (str_split CHR ''/'' cleanUrl) of
                   [] \<Rightarrow> []
                 | p # ps \<Rightarrow> last (p # ps))))"

text \<open>
  A URL names something when, before its query part, it has a character other than a
  slash: a scheme, a host or a path segment.
\<close>

definition wellFormedUrl :: "string \<Rightarrow> bool" where
  "wellFormedUrl url =
     list_ex (\<lambda>c. c \<noteq> CHR ''/'') (takeWhile (\<lambda>c. c \<noteq> CHR ''?'') url)"

section \<open>Page images\<close>

subsection \<open>Site A: \<open>MangaReaderParser.isValidImageUrl\<close>\<close>

text \<open>
  The argument is a string here; the test \<open>typeof url === "string"\<close> is made where a
  value of another type can reach the function (the elements of a parsed array).
\<close>

definition isValidImageUrl :: "string \<Rightarrow> bool" where
  "isValidImageUrl url =
     (url \<noteq> [] \<and> length (trim url) > 0 \<and> \<not> str_includes url ''readerarea.svg'' \<and>
      \<not> str_includes url ''data:image/svg'')"

section \<open>Documents and host services\<close>

text \<open>
  The markup loader (cheerio) and the host's \<open>Application.decodeHTMLEntities\<close> are not
  code of this repository. A document is modelled by what the selectors of a parser find
  in it, in document order: for each selected element the raw text and the attributes
  that the parser reads. An attribute that is absent is \<open>None\<close>; the source's
  \<open>attr(...) || ""\<close> is \<open>or_empty\<close>. The host's entity decoder is a parameter \<open>dec\<close>, and the
  source language's \<open>encodeURI\<close> a parameter \<open>enc\<close>.
\<close>

definition or_empty :: "string option \<Rightarrow> string" where
  "or_empty a = (case a of None \<Rightarrow> [] | Some s \<Rightarrow> s)"

record SearchResultItem =
  item_mangaId :: string
  item_imageUrl :: string
  item_title :: string
  item_subtitle :: "string option"

section \<open>Search results\<close>

subsection \<open>Site A: \<open>MangaReaderParser.parseSearchResults\<close>\<close>

text \<open>One element matched by the search selector (\<open>.bsx\<close>).\<close>

record SearchNode =
  a_href :: "string option"
  tt_text :: string
  limit_img_src :: "string option"
  epxs_text :: string

definition searchItem :: "(string \<Rightarrow> string) \<Rightarrow> (string \<Rightarrow> string) \<Rightarrow> SearchNode \<Rightarrow> SearchResultItem option" where
  "searchItem dec enc obj =
     (let href = or_empty (a_href obj);
          title = trim (tt_text obj);
          image = enc (or_empty (limit_img_src obj));
          subtitle = trim (epxs_text obj)
      in if href = [] \<or> title = [] then None
         else
           (let mangaId = idCleaner href
            in if mangaId = [] \<or> mangaId = ''undefined'' \<or> mangaId = ''null'' then None
               else Some \<lparr>item_mangaId = mangaId, item_imageUrl = image, item_title = dec title,
                          item_subtitle = Some (dec subtitle)\<rparr>))"

definition MangaReaderParser_parseSearchResults ::
    "(string \<Rightarrow> string) \<Rightarrow> (string \<Rightarrow> string) \<Rightarrow> SearchNode list \<Rightarrow> SearchResultItem list" where
  "MangaReaderParser_parseSearchResults dec enc nodes = List.map_filter (searchItem dec enc) nodes"

subsection \<open>Site B: \<open>ZizParser.parseSearchResults\<close>\<close>

definition buildFullUrl :: "string \<Rightarrow> string \<Rightarrow> string" where
  "buildFullUrl relativeUrl domain =
     (if relativeUrl = [] then []
      else if startsWith relativeUrl ''http'' then relativeUrl else domain @ relativeUrl)"

text \<open>One link matched by \<open>SELECTORS.SEARCH.RESULTS\<close>.\<close>

record ZizSearchNode =
  link_href :: "string option"
  link_title_text :: string
  link_img_src :: "string option"

definition zizSearchItem :: "(string \<Rightarrow> string) \<Rightarrow> ZizSearchNode \<Rightarrow> SearchResultItem option" where
  "zizSearchItem dec obj =
     (let href = or_empty (link_href obj);
          title = trim (link_title_text obj);
          image = or_empty (link_img_src obj)
      in if title = [] \<or> href = [] then None
         else
           (let mangaId = cleanMangaId href;
                fullImageUrl = buildFullUrl image ''https://zzizz.xyz''
            in Some \<lparr>item_mangaId = mangaId, item_imageUrl = fullImageUrl,
                     item_title = dec title, item_subtitle = None\<rparr>))"

text \<open>
  \<open>noResults\<close> is the number of elements matched by \<open>SELECTORS.SEARCH.NO_RESULTS\<close>.
\<close>

definition ZizParser_parseSearchResults ::
    "(string \<Rightarrow> string) \<Rightarrow> nat \<Rightarrow> ZizSearchNode list \<Rightarrow> SearchResultItem list" where
  "ZizParser_parseSearchResults dec noResults nodes =
     (if noResults > 0 then [] else List.map_filter (zizSearchItem dec) nodes)"

section \<open>Share URLs\<close>

definition GalaxyAction_DOMAIN :: string where
  "GalaxyAction_DOMAIN = ''https://galaxyaction.net''"

definition Ziz_DOMAIN :: string where
  "Ziz_DOMAIN = ''https://zzizz.xyz''"

text \<open>The \<open>shareUrl\<close> of \<open>MangaReaderParser.parseMangaDetails\<close>.\<close>

definition shareUrlFor :: "string \<Rightarrow> string \<Rightarrow> string" where
  "shareUrlFor domain mangaId = domain @ ''/manga/'' @ mangaId"

text \<open>The \<open>shareUrl\<close> of \<open>ZizParser.parseMangaDetails\<close>.\<close>

definition ZizParser_shareUrlFor :: "string \<Rightarrow> string \<Rightarrow> string" where
  "ZizParser_shareUrlFor domain mangaId = domain @ ''/manga/'' @ mangaId @ ''/''"

section \<open>Manga details\<close>

datatype ContentRating = EVERYONE | MATURE | ADULT

record Tag =
  tag_id :: string
  tag_title :: string

record TagSection =
  section_id :: string
  section_title :: string
  section_tags :: "Tag list"

text \<open>
  The result of \<open>parseMangaDetails\<close>: \<open>mangaId\<close> and the fields of \<open>mangaInfo\<close>. The optional
  \<open>rating\<close> is a floating-point quotient that no property below reads; it is left out.
\<close>

record SourceManga =
  manga_mangaId :: string
  manga_shareUrl :: string
  manga_primaryTitle :: string
  manga_secondaryTitles :: "string list"
  manga_thumbnailUrl :: string
  manga_author :: string
  manga_artist :: string
  manga_tagGroups :: "TagSection list"
  manga_synopsis :: string
  manga_contentRating :: ContentRating
  manga_status :: string

text \<open>A genre element: its text and its \<open>href\<close> attribute (site B reads the text only).\<close>

record GenreNode =
  genre_text :: string
  genre_href :: "string option"

subsection \<open>Site A: \<open>MangaReaderParser.parseMangaDetails\<close>\<close>

text \<open>What the selectors of the details page find.\<close>

record MangaPage =
  entry_title_text :: string
  author_link_text :: string
  artist_link_text :: string
  description_text :: string
  thumb_img_src :: "string option"
  status_i_text :: string
  mgen_links :: "GenreNode list"

text \<open>The status, from the trimmed text of the status element.\<close>

definition statusOf :: "string \<Rightarrow> string" where
  "statusOf statusImptdt =
     (if statusImptdt = [] then ''Ongoing''
      else
        (let normalized = toLowerCase statusImptdt
         in if normalized \<in> set [''completed'', ''finished''] then ''Completed''
            else if normalized \<in> set [''hiatus'', ''on hold''] then ''Hiatus''
            else if normalized \<in> set [''cancelled'', ''dropped''] then ''Cancelled''
            else toUpperCase (take 1 statusImptdt) @ drop 1 statusImptdt))"

text \<open>
  One step of the loop over the genre links: the keyword pushed to \<open>genreKeywords\<close> and the
  tag pushed to \<open>genres\<close>, or nothing when the title or the id is empty.
\<close>

definition genreOf :: "GenreNode \<Rightarrow> (string \<times> Tag) option" where
  "genreOf obj =
     (let title = trim (genre_text obj);
          id = idCleaner (or_empty (genre_href obj))
      in if title = [] \<or> id = [] then None
         else Some (toLowerCase title, \<lparr>tag_id = id, tag_title = title\<rparr>))"

definition genreKeywordsOf :: "GenreNode list \<Rightarrow> string list" where
  "genreKeywordsOf nodes = map fst (List.map_filter genreOf nodes)"

definition contentRatingOf :: "string list \<Rightarrow> ContentRating" where
  "contentRatingOf genreKeywords =
     (if list_ex (\<lambda>g. g \<in> set [''adult'', ''18+'', ''nsfw'']) genreKeywords then ADULT
      else if list_ex (\<lambda>g. g \<in> set [''mature'', ''ecchi'']) genreKeywords then MATURE
      else EVERYONE)"

definition MangaReaderParser_parseMangaDetails ::
    "(string \<Rightarrow> string) \<Rightarrow> MangaPage \<Rightarrow> string \<Rightarrow> string \<Rightarrow> SourceManga" where
  "MangaReaderParser_parseMangaDetails dec page mangaId domain =
     (let title = dec (trim (entry_title_text page));
          author = dec (trim (author_link_text page));
          artist = dec (trim (artist_link_text page));
          synopsis = dec (trim (description_text page));
          shareUrl = shareUrlFor domain mangaId;
          image = or_empty (thumb_img_src page);
          status = statusOf (trim (status_i_text page));
          genreKeywords = genreKeywordsOf (mgen_links page);
          genres = map snd (List.map_filter genreOf (mgen_links page));
          filteredGenres = filter (\<lambda>g. \<not> (tag_id g = ''debug'' \<and> tag_title g = ''DEBUG'')) genres;
          contentRating = contentRatingOf genreKeywords
      in \<lparr>manga_mangaId = mangaId, manga_shareUrl = shareUrl, manga_primaryTitle = title,
          manga_secondaryTitles = [], manga_thumbnailUrl = image, manga_author = author,
          manga_artist = artist,
          manga_tagGroups =
            [\<lparr>section_id = ''genres'', section_title = ''Genres'', section_tags = filteredGenres\<rparr>],
          manga_synopsis = synopsis, manga_contentRating = contentRating,
          manga_status = status\<rparr>)"

subsection \<open>Site B: \<open>ZizHelpers\<close> and \<open>ZizParser.parseMangaDetails\<close>\<close>

text \<open>The tables \<open>STATUS_MAPPING\<close> and \<open>CONTENT_RATING_GENRES\<close> of the constants file.\<close>

definition STATUS_MAPPING_ONGOING :: "string list" where
  "STATUS_MAPPING_ONGOING = [''in release'', ''ongoing'', ''publishing'']"

definition STATUS_MAPPING_COMPLETED :: "string list" where
  "STATUS_MAPPING_COMPLETED = [''completed'', ''finished'']"

definition STATUS_MAPPING_HIATUS :: "string list" where
  "STATUS_MAPPING_HIATUS = [''hiatus'', ''on hold'']"

definition STATUS_MAPPING_CANCELLED :: "string list" where
  "STATUS_MAPPING_CANCELLED = [''cancelled'', ''dropped'']"

definition CONTENT_RATING_GENRES_ADULT :: "string list" where
  "CONTENT_RATING_GENRES_ADULT = [''harem'', ''har'' @ [CHR 0xE9] @ ''m'']"

definition normalizeStatus :: "string \<Rightarrow> string" where
  "normalizeStatus statusText =
     (if statusText = [] then ''Ongoing''
      else
        (let normalized = toLowerCase statusText
         in if list_ex (\<lambda>status. status = normalized) STATUS_MAPPING_ONGOING then ''Ongoing''
            else statusText))"

definition determineContentRating :: "string list \<Rightarrow> ContentRating" where
  "determineContentRating genres =
     (let genreKeywords = map toLowerCase genres
      in if list_ex (\<lambda>g. list_ex (\<lambda>adultGenre. adultGenre = g) CONTENT_RATING_GENRES_ADULT)
              genreKeywords
         then ADULT else EVERYONE)"

definition ensureTrailingSlash :: "string \<Rightarrow> string" where
  "ensureTrailingSlash url = (if endsWith url ''/'' then url else url @ ''/'')"

text \<open>\<open>s.replace(/\s+/g, r)\<close>: every maximal run of white space becomes \<open>r\<close>.\<close>

function replaceWhiteSpaceRuns :: "string \<Rightarrow> string \<Rightarrow> string" where
  "replaceWhiteSpaceRuns r [] = []"
| "replaceWhiteSpaceRuns r (c # cs) =
     (if isWhiteSpace c then r @ replaceWhiteSpaceRuns r (dropWhile isWhiteSpace cs)
      else c # replaceWhiteSpaceRuns r cs)"
  by pat_completeness auto
termination
  by (relation "measure (\<lambda>(r, s). length s)") (auto simp: length_dropWhile_le le_imp_less_Suc)

record ZizMangaPage =
  h1_text :: string
  ziz_author_link_text :: string
  ziz_artist_link_text :: string
  prose_text :: string
  cover_img_src :: "string option"
  status_p_text :: string
  genre_spans :: "GenreNode list"

definition zizGenreOf :: "GenreNode \<Rightarrow> (string \<times> Tag) option" where
  "zizGenreOf obj =
     (let title = trim (genre_text obj)
      in if title = [] then None
         else Some (toLowerCase title,
                    \<lparr>tag_id = replaceWhiteSpaceRuns ''-'' (toLowerCase title), tag_title = title\<rparr>))"

definition ZizParser_parseMangaDetails ::
    "(string \<Rightarrow> string) \<Rightarrow> ZizMangaPage \<Rightarrow> string \<Rightarrow> string \<Rightarrow> SourceManga" where
  "ZizParser_parseMangaDetails dec page mangaId domain =
     (let title = dec (trim (h1_text page));
          author = dec (trim (ziz_author_link_text page));
          artist = dec (trim (ziz_artist_link_text page));
          synopsis = dec (if trim (prose_text page) = [] then ''No description available''
                          else trim (prose_text page));
          shareUrl = ZizParser_shareUrlFor domain mangaId;
          image = or_empty (cover_img_src page);
          fullImageUrl = buildFullUrl image domain;
          statusText = trim (status_p_text page);
          status = normalizeStatus statusText;
          genreKeywords = map fst (List.map_filter zizGenreOf (genre_spans page));
          genres = map snd (List.map_filter zizGenreOf (genre_spans page));
          contentRating = determineContentRating genreKeywords
      in \<lparr>manga_mangaId = mangaId, manga_shareUrl = shareUrl, manga_primaryTitle = title,
          manga_secondaryTitles = [], manga_thumbnailUrl = fullImageUrl, manga_author = author,
          manga_artist = artist,
          manga_tagGroups =
            [\<lparr>section_id = ''genres'', section_title = ''Genres'', section_tags = genres\<rparr>],
          manga_synopsis = synopsis, manga_contentRating = contentRating,
          manga_status = status\<rparr>)"

section \<open>Discover sections\<close>

subsection \<open>Site A: the \<open>weekly_manga\<close> branch of \<open>getDiscoverSectionItems\<close>\<close>

record DiscoverSectionItem =
  disc_type :: string
  disc_mangaId :: string
  disc_imageUrl :: string
  disc_title :: string
  disc_subtitle :: "string option"

text \<open>
  One \<open>li\<close> of the weekly list of the fetched page: the \<open>href\<close> of the series link, the
  \<open>src\<close> of its image, the text of the title link and the text of the spans.
\<close>

record WeeklyNode =
  series_href :: "string option"
  series_img_src :: "string option"
  leftseries_title_text :: string
  leftseries_span_text :: string

text \<open>The body of the callback after the limit test: the item pushed, if any.\<close>

definition weeklyItem :: "WeeklyNode \<Rightarrow> DiscoverSectionItem option" where
  "weeklyItem li =
     (let href = or_empty (series_href li);
          img = or_empty (series_img_src li);
          title = trim (leftseries_title_text li)
      in if href = [] \<or> title = [] then None
         else
           (let mangaId = idCleaner href
            in if mangaId = [] \<or> mangaId = ''undefined'' \<or> mangaId = ''null'' then None
               else
                 (let sub = trim (replaceWhiteSpaceRuns '' '' (leftseries_span_text li))
                  in Some \<lparr>disc_type = ''simpleCarouselItem'', disc_mangaId = mangaId,
                           disc_imageUrl = img, disc_title = title,
                           disc_subtitle = (if sub = [] then None else Some sub)\<rparr>)))"

text \<open>
  The loop \<open>.each((i, li) => ...)\<close>: \<open>return false\<close> at index 12 ends the iteration, a plain
  \<open>return\<close> goes on with the next element.
\<close>

fun weeklyEach :: "nat \<Rightarrow> WeeklyNode list \<Rightarrow> DiscoverSectionItem list \<Rightarrow> DiscoverSectionItem list" where
  "weeklyEach i [] items = items"
| "weeklyEach i (li # rest) items =
     (if i \<ge> 12 then items
      else (case weeklyItem li of
              None \<Rightarrow> weeklyEach (Suc i) rest items
            | Some item \<Rightarrow> weeklyEach (Suc i) rest (items @ [item])))"

definition getDiscoverSectionItems_weekly_manga :: "WeeklyNode list \<Rightarrow> DiscoverSectionItem list" where
  "getDiscoverSectionItems_weekly_manga lis = weeklyEach 0 lis []"

section \<open>Chapter lists\<close>

text \<open>
  A \<open>Date\<close> is its time value, an integer. The two things the parsers take from the
  environment are parameters: \<open>clock\<close>, where \<open>clock i\<close> is what \<open>new Date()\<close> returns while the
  element at document index \<open>i\<close> is processed, and \<open>dateParse\<close>, the time value of
  \<open>new Date(text)\<close>, which is \<open>None\<close> for an invalid date.
\<close>

record 'n Chapter =
  chap_sourceManga :: SourceManga
  chap_chapterId :: string
  chap_langCode :: string
  chap_chapNum :: 'n
  chap_title :: string
  chap_publishDate :: int
  chap_sortingIndex :: int

text \<open>
  \<open>href.match(/^https?:\/\/[^/]+(\/.*)$/)\<close>: the group is the path after the host. The dot
  does not match a line terminator.
\<close>

definition isLineTerminator :: "char \<Rightarrow> bool" where
  "isLineTerminator c = (c = CHR 0x0A \<or> c = CHR 0x0D)"

definition afterScheme :: "string \<Rightarrow> string option" where
  "afterScheme href =
     (if startsWith href ''https://'' then Some (drop 8 href)
      else if startsWith href ''http://'' then Some (drop 7 href)
      else None)"

definition pathAfterHost :: "string \<Rightarrow> string option" where
  "pathAfterHost href =
     (case afterScheme href of
        None \<Rightarrow> None
      | Some r \<Rightarrow>
          (let host = takeWhile (\<lambda>c. c \<noteq> CHR ''/'') r;
               path = dropWhile (\<lambda>c. c \<noteq> CHR ''/'') r
           in if host = [] \<or> path = [] \<or> list_ex isLineTerminator path then None
              else Some path))"

text \<open>The chapter id of both parsers: an absolute URL is cut down to its path.\<close>

definition relativeChapterId :: "string \<Rightarrow> string" where
  "relativeChapterId href =
     (if startsWith href ''http''
      then (case pathAfterHost href of Some p \<Rightarrow> p | None \<Rightarrow> href)
      else href)"

subsection \<open>Site A: \<open>MangaReaderParser.parseChapterList\<close>\<close>

text \<open>One \<open>li[data-num]\<close>: the \<open>href\<close> of its link, the texts of its number and date elements.\<close>

record ChapterNode =
  chapter_a_href :: "string option"
  chapternum_text :: string
  chapterdate_text :: string

definition parseDate :: "int \<Rightarrow> (string \<Rightarrow> int option) \<Rightarrow> string \<Rightarrow> int" where
  "parseDate now dateParse dateString =
     (if dateString = [] then now
      else
        (let date = trim dateString
         in if str_includes date ''ago'' \<or> str_includes date ''just now'' then now
            else (case dateParse date of None \<Rightarrow> now | Some t \<Rightarrow> t)))"

text \<open>
  The callback of the loop at index \<open>i\<close>. The chapter number is read from the id by a
  regular expression and \<open>parseFloat\<close>; it is a floating-point number and a function of the
  id alone, the parameter \<open>chapNumOf\<close>.
\<close>

definition chapterOf ::
    "(string \<Rightarrow> string) \<Rightarrow> (string \<Rightarrow> int option) \<Rightarrow> (string \<Rightarrow> 'n) \<Rightarrow> SourceManga \<Rightarrow> string \<Rightarrow>
     int \<Rightarrow> nat \<Rightarrow> nat \<Rightarrow> ChapterNode \<Rightarrow> 'n Chapter option" where
  "chapterOf dec dateParse chapNumOf sourceManga language now nodeTotal i obj =
     (let sortingIndex = int nodeTotal - int i;
          href = or_empty (chapter_a_href obj)
      in if href = [] \<or> startsWith href ''#'' \<or> str_includes href ''{{'' \<or> str_includes href ''}}''
         then None
         else
           (let chapterId = relativeChapterId href;
                chapName = trim (chapternum_text obj);
                chapterDate = trim (chapterdate_text obj);
                chapNum = chapNumOf chapterId;
                mangaTime = parseDate now dateParse chapterDate
            in if chapterId = [] \<or> chapterId = ''#'' then None
               else Some \<lparr>chap_sourceManga = sourceManga, chap_chapterId = chapterId,
                          chap_langCode = language, chap_chapNum = chapNum,
                          chap_title = (if chapName \<noteq> [] then dec chapName else []),
                          chap_publishDate = mangaTime, chap_sortingIndex = sortingIndex\<rparr>))"

fun chapterEach ::
    "(string \<Rightarrow> string) \<Rightarrow> (string \<Rightarrow> int option) \<Rightarrow> (string \<Rightarrow> 'n) \<Rightarrow> SourceManga \<Rightarrow> string \<Rightarrow>
     (nat \<Rightarrow> int) \<Rightarrow> nat \<Rightarrow> nat \<Rightarrow> ChapterNode list \<Rightarrow> 'n Chapter list" where
  "chapterEach dec dateParse chapNumOf sourceManga language clock nodeTotal i [] = []"
| "chapterEach dec dateParse chapNumOf sourceManga language clock nodeTotal i (obj # rest) =
     (case chapterOf dec dateParse chapNumOf sourceManga language (clock i) nodeTotal i obj of
        None \<Rightarrow> chapterEach dec dateParse chapNumOf sourceManga language clock nodeTotal (Suc i) rest
      | Some chapter \<Rightarrow>
          chapter # chapterEach dec dateParse chapNumOf sourceManga language clock nodeTotal (Suc i) rest)"

definition MangaReaderParser_parseChapterList ::
    "(string \<Rightarrow> string) \<Rightarrow> (string \<Rightarrow> int option) \<Rightarrow> (string \<Rightarrow> 'n) \<Rightarrow> (nat \<Rightarrow> int) \<Rightarrow>
     ChapterNode list \<Rightarrow> SourceManga \<Rightarrow> string \<Rightarrow> 'n Chapter list" where
  "MangaReaderParser_parseChapterList dec dateParse chapNumOf clock nodeArray sourceManga language =
     chapterEach dec dateParse chapNumOf sourceManga language clock (length nodeArray) 0 nodeArray"

subsection \<open>Site B: \<open>ZizHelpers\<close> and \<open>ZizParser.parseChapterList\<close>\<close>

text \<open>
  Matching with the flag \<open>i\<close> against a pattern of ASCII characters: a character of the input
  matches a letter of the pattern when it is that letter in either case (a code unit above
  127 never matches an ASCII letter).
\<close>

definition asciiLowerChar :: "char \<Rightarrow> char" where
  "asciiLowerChar c =
     (case map_of (zip ''ABCDEFGHIJKLMNOPQRSTUVWXYZ'' ''abcdefghijklmnopqrstuvwxyz'') c of
        Some l \<Rightarrow> l
      | None \<Rightarrow> c)"

definition startsWithCI :: "string \<Rightarrow> string \<Rightarrow> bool" where
  "startsWithCI s p =
     (length p \<le> length s \<and> map asciiLowerChar (take (length p) s) = map asciiLowerChar p)"

definition isDigit :: "char \<Rightarrow> bool" where
  "isDigit c = (c \<in> set ''0123456789'')"

text \<open>\<open>s.match(re)\<close> without the global flag: the pattern is tried at each position from the left.\<close>

primrec firstMatch :: "(string \<Rightarrow> 'a option) \<Rightarrow> string \<Rightarrow> 'a option" where
  "firstMatch at [] = at []"
| "firstMatch at (c # cs) = (case at (c # cs) of Some g \<Rightarrow> Some g | None \<Rightarrow> firstMatch at cs)"

text \<open>\<open>/Chapter\s+(\d+)/i\<close> at the start of \<open>s\<close>: the digits.\<close>

definition chapterNumberAt :: "string \<Rightarrow> string option" where
  "chapterNumberAt s =
     (if startsWithCI s ''chapter''
      then (let r = drop 7 s;
                ws = takeWhile isWhiteSpace r;
                ds = takeWhile isDigit (dropWhile isWhiteSpace r)
            in if ws = [] \<or> ds = [] then None else Some ds)
      else None)"

text \<open>\<open>/reader\/manga\/[^/]+\/(\d+)/i\<close> at the start of \<open>s\<close>: the digits.\<close>

definition readerChapterAt :: "string \<Rightarrow> string option" where
  "readerChapterAt s =
     (if startsWithCI s ''reader/manga/''
      then (let r = drop 13 s;
                slug = takeWhile (\<lambda>c. c \<noteq> CHR ''/'') r;
                rest = dropWhile (\<lambda>c. c \<noteq> CHR ''/'') r;
                ds = takeWhile isDigit (drop 1 rest)
            in if slug = [] \<or> rest = [] \<or> ds = [] then None else Some ds)
      else None)"

text \<open>
  \<open>parseFloat\<close> of a string of decimal digits, as a natural number. The value is that of
  the source below \<open>2^53\<close>, which chapter numbers are; from there on \<open>parseFloat\<close> rounds to
  the nearest double (and gives \<open>Infinity\<close> past about \<open>1.8e308\<close>), which this exact value does
  not follow. The properties below use the number only through the order of the chapters
  of site B, and hold for either value.
\<close>

definition digitValue :: "char \<Rightarrow> nat" where
  "digitValue c =
     (case map_of (zip ''0123456789'' [0, 1, 2, 3, 4, 5, 6, 7, 8, 9]) c of
        Some d \<Rightarrow> d
      | None \<Rightarrow> 0)"

definition decimalValue :: "string \<Rightarrow> nat" where
  "decimalValue ds = foldl (\<lambda>n c. 10 * n + digitValue c) 0 ds"

definition extractChapterNumber :: "string \<Rightarrow> string \<Rightarrow> nat \<times> string" where
  "extractChapterNumber chapterTitle chapterId =
     (case firstMatch chapterNumberAt chapterTitle of
        Some ds \<Rightarrow> (decimalValue ds, ''Chapter '' @ ds)
      | None \<Rightarrow>
          (case firstMatch readerChapterAt chapterId of
             Some ds \<Rightarrow> (decimalValue ds, ''Chapter '' @ ds)
           | None \<Rightarrow> (0, [])))"

text \<open>\<open>/(\d+\s+(?:day|hour|minute)s?\s+ago)/i\<close> at the start of \<open>s\<close>: the text matched.\<close>

definition relativeDateAt :: "string \<Rightarrow> string option" where
  "relativeDateAt s =
     (let ds = takeWhile isDigit s;
          r1 = dropWhile isDigit s;
          ws1 = takeWhile isWhiteSpace r1;
          r2 = dropWhile isWhiteSpace r1;
          unit = (if startsWithCI r2 ''day'' then Some 3
                  else if startsWithCI r2 ''hour'' then Some 4
                  else if startsWithCI r2 ''minute'' then Some 6
                  else None)
      in case unit of
           None \<Rightarrow> None
         | Some n \<Rightarrow>
             (let r3 = drop n r2;
                  plural = (if startsWithCI r3 ''s'' then 1 else 0);
                  r4 = drop plural r3;
                  ws2 = takeWhile isWhiteSpace r4;
                  r5 = dropWhile isWhiteSpace r4
              in if ds = [] \<or> ws1 = [] \<or> ws2 = [] \<or> \<not> startsWithCI r5 ''ago'' then None
                 else Some (take (length ds + length ws1 + n + plural + length ws2 + 3) s)))"

definition parseRelativeDate :: "int \<Rightarrow> (string \<Rightarrow> int option) \<Rightarrow> string \<Rightarrow> int" where
  "parseRelativeDate now dateParse dateString =
     (if dateString = [] then now
      else (case dateParse dateString of Some t \<Rightarrow> t | None \<Rightarrow> now))"

text \<open>One \<open>.chapter-item\<close>: its \<open>href\<close>, the text of its heading and of its date paragraph.\<close>

record ZizChapterNode =
  chapter_item_href :: "string option"
  chapter_h3_text :: string
  chapter_p_text :: string

text \<open>The callback of the loop; \<open>chaptersLength\<close> is \<open>chapters.length\<close> when it runs.\<close>

definition zizChapterOf ::
    "(string \<Rightarrow> string) \<Rightarrow> (string \<Rightarrow> int option) \<Rightarrow> SourceManga \<Rightarrow> string \<Rightarrow> int \<Rightarrow> nat \<Rightarrow>
     ZizChapterNode \<Rightarrow> nat Chapter option" where
  "zizChapterOf dec dateParse sourceManga language now chaptersLength obj =
     (let href = or_empty (chapter_item_href obj)
      in if href = [] \<or> startsWith href ''#'' then None
         else
           (let chapterId = ensureTrailingSlash (relativeChapterId href);
                chapterTitle = trim (chapter_h3_text obj);
                (chapNum, chapName) = extractChapterNumber chapterTitle chapterId;
                dateText = trim (chapter_p_text obj);
                chapterDate = (case firstMatch relativeDateAt dateText of
                                 Some m \<Rightarrow> m | None \<Rightarrow> []);
                mangaTime = parseRelativeDate now dateParse chapterDate
            in if chapterId = [] \<or> chapterId = ''#'' then None
               else Some \<lparr>chap_sourceManga = sourceManga, chap_chapterId = chapterId,
                          chap_langCode = language, chap_chapNum = chapNum,
                          chap_title = (if chapName \<noteq> [] then dec chapName else []),
                          chap_publishDate = mangaTime,
                          chap_sortingIndex = int chaptersLength + 1\<rparr>))"

fun zizChapterEach ::
    "(string \<Rightarrow> string) \<Rightarrow> (string \<Rightarrow> int option) \<Rightarrow> SourceManga \<Rightarrow> string \<Rightarrow> (nat \<Rightarrow> int) \<Rightarrow>
     nat \<Rightarrow> ZizChapterNode list \<Rightarrow> nat Chapter list \<Rightarrow> nat Chapter list" where
  "zizChapterEach dec dateParse sourceManga language clock i [] chapters = chapters"
| "zizChapterEach dec dateParse sourceManga language clock i (obj # rest) chapters =
     (case zizChapterOf dec dateParse sourceManga language (clock i) (length chapters) obj of
        None \<Rightarrow> zizChapterEach dec dateParse sourceManga language clock (Suc i) rest chapters
      | Some chapter \<Rightarrow>
          zizChapterEach dec dateParse sourceManga language clock (Suc i) rest
            (chapters @ [chapter]))"

text \<open>
  \<open>chapters.sort((a, b) => b.chapNum - a.chapNum)\<close>: the sort of the source language is
  stable, so this is the stable sort by falling chapter number.
\<close>

definition sortByChapNumDesc :: "nat Chapter list \<Rightarrow> nat Chapter list" where
  "sortByChapNumDesc chapters = sort_key (\<lambda>c. - int (chap_chapNum c)) chapters"

text \<open>\<open>chapters.forEach((chapter, index) => chapter.sortingIndex = chapters.length - index)\<close>.\<close>

definition reassignSortingIndex :: "'n Chapter list \<Rightarrow> 'n Chapter list" where
  "reassignSortingIndex chapters =
     map (\<lambda>(index, chapter). chapter\<lparr>chap_sortingIndex := int (length chapters) - int index\<rparr>)
       (enumerate 0 chapters)"

definition ZizParser_parseChapterList ::
    "(string \<Rightarrow> string) \<Rightarrow> (string \<Rightarrow> int option) \<Rightarrow> (nat \<Rightarrow> int) \<Rightarrow> ZizChapterNode list \<Rightarrow>
     SourceManga \<Rightarrow> string \<Rightarrow> nat Chapter list" where
  "ZizParser_parseChapterList dec dateParse clock items sourceManga language =
     reassignSortingIndex
       (sortByChapNumDesc (zizChapterEach dec dateParse sourceManga language clock 0 items []))"

text \<open>A manga record for the examples below.\<close>

definition sampleManga :: SourceManga where
  "sampleManga =
     \<lparr>manga_mangaId = ''solo-leveling'',
      manga_shareUrl = ''https://galaxyaction.net/manga/solo-leveling'',
      manga_primaryTitle = ''Solo Leveling'', manga_secondaryTitles = [],
      manga_thumbnailUrl = [], manga_author = [], manga_artist = [], manga_tagGroups = [],
      manga_synopsis = [], manga_contentRating = EVERYONE, manga_status = ''Ongoing''\<rparr>"

text \<open>
  For the properties of the publish date: a chapter with its date blanked, and the entries
  of site A whose date text is an absolute date, that is, the text for which \<open>parseDate\<close>
  returns the value of \<open>new Date(text)\<close> and not the clock. Site B has no such entries: it
  hands to \<open>new Date\<close> only a relative phrase cut out of the date text, never the text.
\<close>

definition withoutDate :: "'n Chapter \<Rightarrow> 'n Chapter" where
  "withoutDate c = c\<lparr>chap_publishDate := 0\<rparr>"

definition hasAbsoluteDate :: "(string \<Rightarrow> int option) \<Rightarrow> ChapterNode \<Rightarrow> bool" where
  "hasAbsoluteDate dateParse obj =
     (let d = trim (chapterdate_text obj)
      in d \<noteq> [] \<and> \<not> str_includes d ''ago'' \<and> \<not> str_includes d ''just now'' \<and>
         dateParse d \<noteq> None)"

section \<open>Chapter pages\<close>

subsection \<open>Site A: \<open>MangaReaderParser.extractImagesFromScript\<close>\<close>

text \<open>The double quote, the single quote and the backslash.\<close>

definition dq :: char where
  "dq = CHR 0x22"

definition sq :: char where
  "sq = CHR 0x27"

definition backslash :: char where
  "backslash = CHR 0x5C"

text \<open>
  \<open>JSON.parse\<close> belongs to the source language; it is the parameter \<open>jsonParse\<close>, with
  \<open>None\<close> where it throws. Of a parsed value the code uses only whether it is an array and
  which of its elements are strings.
\<close>

datatype json = JString string | JArray "json list" | JOther

text \<open>
  The pattern \<open>"images"\s*:\s*(\[[^\]]*\])\<close> at the start of \<open>s\<close>: the group, from the opening
  bracket to the first closing bracket.
\<close>

definition imagesArrayAt :: "string \<Rightarrow> string option" where
  "imagesArrayAt s =
     (if startsWith s ([dq] @ ''images'' @ [dq])
      then (let r1 = dropWhile isWhiteSpace (drop 8 s)
            in if startsWith r1 '':''
               then (let r2 = dropWhile isWhiteSpace (drop 1 r1)
                     in if startsWith r2 ''[''
                        then (let body = takeWhile (\<lambda>c. c \<noteq> CHR '']'') (drop 1 r2);
                                  rest = dropWhile (\<lambda>c. c \<noteq> CHR '']'') (drop 1 r2)
                              in if rest = [] then None else Some (''['' @ body @ '']''))
                        else None)
               else None)
      else None)"

text \<open>\<open>.replace(/'/g, '"')\<close>.\<close>

definition singleToDoubleQuotes :: "string \<Rightarrow> string" where
  "singleToDoubleQuotes s = map (\<lambda>c. if c = sq then dq else c) s"

text \<open>\<open>.replace(/,]/g, "]")\<close>.\<close>

fun replaceCommaBracket :: "string \<Rightarrow> string" where
  "replaceCommaBracket (c # d # cs) =
     (if c = CHR '','' \<and> d = CHR '']'' then CHR '']'' # replaceCommaBracket cs
      else c # replaceCommaBracket (d # cs))"
| "replaceCommaBracket cs = cs"

text \<open>\<open>.replace(/,\s*]/g, "]")\<close>.\<close>

function replaceCommaSpaceBracket :: "string \<Rightarrow> string" where
  "replaceCommaSpaceBracket [] = []"
| "replaceCommaSpaceBracket (c # cs) =
     (if c = CHR '','' \<and> startsWith (dropWhile isWhiteSpace cs) '']''
      then CHR '']'' # replaceCommaSpaceBracket (drop 1 (dropWhile isWhiteSpace cs))
      else c # replaceCommaSpaceBracket cs)"
  by pat_completeness auto
termination
proof (relation "measure length")
  show "wf (measure length)"
    by simp
next
  fix c :: char and cs
  have "length (dropWhile isWhiteSpace cs) \<le> length cs"
    by (rule length_dropWhile_le)
  then show "(drop 1 (dropWhile isWhiteSpace cs), c # cs) \<in> measure length"
    by simp
next
  fix c :: char and cs
  show "(cs, c # cs) \<in> measure length"
    by simp
qed

text \<open>
  The pattern \<open>"([^"\\]+)"\<close> at the start of \<open>s\<close>: the text between the quotes, and what
  follows the closing quote.
\<close>

definition quotedAt :: "string \<Rightarrow> (string \<times> string) option" where
  "quotedAt s =
     (case s of
        [] \<Rightarrow> None
      | c # cs \<Rightarrow>
          if c = dq
          then (let inner = takeWhile (\<lambda>x. x \<noteq> dq \<and> x \<noteq> backslash) cs;
                    rest = dropWhile (\<lambda>x. x \<noteq> dq \<and> x \<noteq> backslash) cs
                in if inner = [] \<or> \<not> startsWith rest [dq] then None
                   else Some (inner, drop 1 rest))
          else None)"

text \<open>
  \<open>text.match(/"([^"\\]+)"/g)\<close> followed by the removal of the quotes of each match: the
  matches from left to right, without overlap, each without its two quotes.
\<close>

function quotedStrings :: "string \<Rightarrow> string list" where
  "quotedStrings [] = []"
| "quotedStrings (c # cs) =
     (case quotedAt (c # cs) of
        Some (inner, rest) \<Rightarrow> inner # quotedStrings rest
      | None \<Rightarrow> quotedStrings cs)"
  by pat_completeness auto
termination
proof (relation "measure length")
  show "wf (measure length)"
    by simp
next
  fix c :: char and cs x2 inner rest
  assume "quotedAt (c # cs) = Some x2" "(inner, rest) = x2"
  then have "rest = drop 1 (dropWhile (\<lambda>x. x \<noteq> dq \<and> x \<noteq> backslash) cs)"
    by (auto simp: quotedAt_def Let_def split: if_splits)
  then have "length rest \<le> length cs"
    using length_dropWhile_le [of "\<lambda>x. x \<noteq> dq \<and> x \<noteq> backslash" cs] by simp
  then show "(rest, c # cs) \<in> measure length"
    by simp
next
  fix c :: char and cs
  show "(cs, c # cs) \<in> measure length"
    by simp
qed

text \<open>
  \<open>scripts\<close> is the content of each script element of the page, in document order (the empty
  string for an element without content).
\<close>

definition extractImagesFromScript :: "(string \<Rightarrow> json option) \<Rightarrow> string list \<Rightarrow> string list" where
  "extractImagesFromScript jsonParse scripts =
     (case find (\<lambda>script. str_includes script ''ts_reader.run'') scripts of
        None \<Rightarrow> []
      | Some scriptContent \<Rightarrow>
          if scriptContent = [] then []
          else
            (case firstMatch imagesArrayAt scriptContent of
               None \<Rightarrow> []
             | Some imagesMatch \<Rightarrow>
                 (let cleanArray =
                        replaceCommaSpaceBracket
                          (replaceCommaBracket (singleToDoubleQuotes imagesMatch))
                  in case jsonParse cleanArray of
                       Some imageArray \<Rightarrow>
                         (case imageArray of
                            JArray urls \<Rightarrow>
                              concat (map (\<lambda>url. case url of
                                                   JString u \<Rightarrow> if isValidImageUrl u then [u] else []
                                                 | _ \<Rightarrow> []) urls)
                          | _ \<Rightarrow> [])
                     | None \<Rightarrow> filter isValidImageUrl (quotedStrings imagesMatch))))"

text \<open>
  The text of an array of URLs as it stands in a script: \<open>jsonArrayText\<close> is the well-formed
  JSON array, every URL between double quotes; \<open>looseArrayText\<close> has each URL between single
  quotes where its flag is set, and \<open>tail\<close> between the last URL and the closing bracket.
\<close>

fun joinComma :: "string list \<Rightarrow> string" where
  "joinComma [] = []"
| "joinComma [x] = x"
| "joinComma (x # y # ys) = x @ '','' @ joinComma (y # ys)"

definition jsonArrayText :: "string list \<Rightarrow> string" where
  "jsonArrayText urls = ''['' @ joinComma (map (\<lambda>u. [dq] @ u @ [dq]) urls) @ '']''"

definition looseArrayText :: "(bool \<times> string) list \<Rightarrow> string \<Rightarrow> string" where
  "looseArrayText qurls tail =
     ''['' @ joinComma (map (\<lambda>(single, u). if single then [sq] @ u @ [sq] else [dq] @ u @ [dq]) qurls)
       @ tail @ '']''"

text \<open>
  \<open>JSON.parse\<close> on the texts that reach it in the examples below: the array of \<open>a.jpg\<close> and
  \<open>b.jpg\<close> parses; every other text passed to it there is not JSON (a string that is not
  closed, or characters after a closed string).
\<close>

definition exampleJsonParse :: "string \<Rightarrow> json option" where
  "exampleJsonParse s =
     (if s = jsonArrayText [''https://cdn.example/a.jpg'', ''https://cdn.example/b.jpg'']
      then Some (JArray [JString ''https://cdn.example/a.jpg'', JString ''https://cdn.example/b.jpg''])
      else None)"

section \<open>Properties\<close>

lemma str_split_nonempty: "str_split sep s \<noteq> []"
  by (induction s) (auto split: list.splits)

lemma first_part_split: "first_part (str_split sep s) = takeWhile (\<lambda>c. c \<noteq> sep) s"
  by (induction s) (auto simp: first_part_def split: list.splits)

lemma str_split_no_sep: "p \<in> set (str_split sep s) \<Longrightarrow> sep \<notin> set p"
  by (induction s arbitrary: p) (auto split: if_splits list.splits)

lemma str_split_subset: "p \<in> set (str_split sep s) \<Longrightarrow> set p \<subseteq> set s"
  by (induction s arbitrary: p) (fastforce split: if_splits list.splits)+

lemma str_split_single: "sep \<notin> set s \<Longrightarrow> str_split sep s = [s]"
  by (induction s) auto

lemma filter_Boolean_split_empty:
  "filter_Boolean (str_split sep s) = [] \<longleftrightarrow> set s \<subseteq> {sep}"
  by (induction s) (auto simp: filter_Boolean_def split: list.splits if_splits)

lemma last_filter_Boolean_split:
  assumes "filter_Boolean (str_split sep s) \<noteq> []"
  shows "last (filter_Boolean (str_split sep s)) \<noteq> [] \<and>
         sep \<notin> set (last (filter_Boolean (str_split sep s))) \<and>
         set (last (filter_Boolean (str_split sep s))) \<subseteq> set s"
proof -
  have "last (filter_Boolean (str_split sep s)) \<in> set (filter_Boolean (str_split sep s))"
    using assms by simp
  then have "last (filter_Boolean (str_split sep s)) \<in> set (str_split sep s)"
    and "last (filter_Boolean (str_split sep s)) \<noteq> []"
    by (auto simp: filter_Boolean_def)
  then show ?thesis
    using str_split_no_sep str_split_subset by blast
qed

lemma idCleaner_shape:
  "CHR ''?'' \<notin> set (idCleaner x) \<and>
   ((idCleaner x \<noteq> [] \<and> CHR ''/'' \<notin> set (idCleaner x)) \<or> set (idCleaner x) \<subseteq> {CHR ''/''})"
proof (cases "x = []")
  case True
  then show ?thesis by (simp add: idCleaner_def)
next
  case False
  define cu where "cu = takeWhile (\<lambda>c. c \<noteq> CHR ''?'') x"
  have q: "CHR ''?'' \<notin> set cu"
    unfolding cu_def by (auto dest: set_takeWhileD)
  show ?thesis
  proof (cases "filter_Boolean (str_split CHR ''/'' cu) = []")
    case True
    then have "idCleaner x = cu"
      using False by (simp add: idCleaner_def first_part_split cu_def Let_def)
    moreover have "set cu \<subseteq> {CHR ''/''}"
      using True by (simp add: filter_Boolean_split_empty)
    ultimately show ?thesis using q by simp
  next
    case ne: False
    then have "idCleaner x = last (filter_Boolean (str_split CHR ''/'' cu))"
      using False by (simp add: idCleaner_def first_part_split cu_def Let_def)
    then show ?thesis
      using last_filter_Boolean_split [OF ne] q by auto
  qed
qed

lemma idCleaner_segment:
  assumes "s \<noteq> []" "CHR ''/'' \<notin> set s" "CHR ''?'' \<notin> set s"
  shows "idCleaner s = s"
  using assms
  by (simp add: idCleaner_def str_split_single first_part_def filter_Boolean_def)

lemma idCleaner_slashes:
  assumes "set s \<subseteq> {CHR ''/''}"
  shows "idCleaner s = s"
proof (cases "s = []")
  case True then show ?thesis by (simp add: idCleaner_def)
next
  case False
  have "CHR ''?'' \<notin> set s" using assms by auto
  then have "first_part (str_split CHR ''?'' s) = s"
    by (simp add: str_split_single first_part_def)
  moreover have "filter_Boolean (str_split CHR ''/'' s) = []"
    using assms by (simp add: filter_Boolean_split_empty)
  ultimately show ?thesis using False by (simp add: idCleaner_def)
qed

lemma idCleaner_idem: "idCleaner (idCleaner x) = idCleaner x"
  using idCleaner_shape [of x] idCleaner_segment idCleaner_slashes by blast

lemma wellFormedUrl_iff: "wellFormedUrl x \<longleftrightarrow> (\<exists>c \<in> set (takeWhile (\<lambda>c. c \<noteq> CHR ''?'') x). c \<noteq> CHR ''/'')"
  by (simp add: wellFormedUrl_def list_ex_iff)

lemma idCleaner_wellFormed:
  assumes "wellFormedUrl x"
  shows "idCleaner x \<noteq> [] \<and> CHR ''/'' \<notin> set (idCleaner x)"
proof -
  define cu where "cu = takeWhile (\<lambda>c. c \<noteq> CHR ''?'') x"
  have "\<not> set cu \<subseteq> {CHR ''/''}" using assms by (auto simp: wellFormedUrl_iff cu_def)
  then have ne: "filter_Boolean (str_split CHR ''/'' cu) \<noteq> []"
    by (simp add: filter_Boolean_split_empty)
  have "x \<noteq> []" using assms by (auto simp: wellFormedUrl_iff)
  then have "idCleaner x = last (filter_Boolean (str_split CHR ''/'' cu))"
    using ne by (simp add: idCleaner_def first_part_split cu_def Let_def)
  then show ?thesis using last_filter_Boolean_split [OF ne] by simp
qed

lemma slugGroup_Some:
  "slugGroup r = Some g \<Longrightarrow> g \<noteq> [] \<and> CHR ''/'' \<notin> set g \<and> set g \<subseteq> set r"
  by (auto simp: slugGroup_def Let_def split: if_splits dest: set_takeWhileD)

lemma startsWith_set: "startsWith s p \<Longrightarrow> set p \<subseteq> set s"
  by (metis startsWith_def set_take_subset)

lemma mangaSlugAt_Some:
  "mangaSlugAt s = Some g \<Longrightarrow> g \<noteq> [] \<and> CHR ''/'' \<notin> set g \<and> set g \<subseteq> set s \<and> CHR ''/'' \<in> set s"
proof -
  assume a: "mangaSlugAt s = Some g"
  then consider "startsWith s ''/manga/''" "slugGroup (drop 7 s) = Some g"
    | "startsWith s ''/reader/manga/''" "slugGroup (drop 14 s) = Some g"
    by (auto simp: mangaSlugAt_def split: option.splits if_splits)
  then show ?thesis
  proof cases
    case 1
    from startsWith_set [OF 1(1)] have "CHR ''/'' \<in> set s" by simp
    moreover have "set (drop 7 s) \<subseteq> set s" by (rule set_drop_subset)
    ultimately show ?thesis using slugGroup_Some [OF 1(2)] by auto
  next
    case 2
    from startsWith_set [OF 2(1)] have "CHR ''/'' \<in> set s" by simp
    moreover have "set (drop 14 s) \<subseteq> set s" by (rule set_drop_subset)
    ultimately show ?thesis using slugGroup_Some [OF 2(2)] by auto
  qed
qed

lemma mangaSlugMatch_Some:
  "mangaSlugMatch s = Some g \<Longrightarrow> g \<noteq> [] \<and> CHR ''/'' \<notin> set g \<and> set g \<subseteq> set s \<and> CHR ''/'' \<in> set s"
proof (induction s)
  case Nil
  then show ?case by simp
next
  case (Cons c cs)
  show ?case
  proof (cases "mangaSlugAt (c # cs)")
    case None
    with Cons show ?thesis by auto
  next
    case (Some h)
    with Cons.prems have "h = g" by simp
    with Some mangaSlugAt_Some show ?thesis by blast
  qed
qed

lemma mangaSlugMatch_no_slash: "CHR ''/'' \<notin> set s \<Longrightarrow> mangaSlugMatch s = None"
  using mangaSlugMatch_Some [of s] by (cases "mangaSlugMatch s") auto

lemma set_stripTrailingSlash: "set (stripTrailingSlash s) \<subseteq> set s"
  by (auto simp: stripTrailingSlash_def dest: in_set_butlastD)

lemma stripTrailingSlash_id: "CHR ''/'' \<notin> set s \<Longrightarrow> stripTrailingSlash s = s"
  by (metis last_in_set stripTrailingSlash_def)

lemma cleanMangaId_shape:
  "CHR ''?'' \<notin> set (cleanMangaId x) \<and> CHR ''/'' \<notin> set (cleanMangaId x)"
proof (cases "x = []")
  case True
  then show ?thesis by (simp add: cleanMangaId_def)
next
  case False
  define cu where "cu = stripTrailingSlash (takeWhile (\<lambda>c. c \<noteq> CHR ''?'') x)"
  have q: "CHR ''?'' \<notin> set cu"
    unfolding cu_def using set_stripTrailingSlash by (fastforce dest: set_takeWhileD)
  show ?thesis
  proof (cases "mangaSlugMatch cu")
    case (Some g)
    then have "cleanMangaId x = g"
      using False by (simp add: cleanMangaId_def first_part_split cu_def)
    then show ?thesis using mangaSlugMatch_Some [OF Some] q by auto
  next
    case None
    show ?thesis
    proof (cases "filter_Boolean (str_split CHR ''/'' cu) = []")
      case True
      then have "cleanMangaId x = []"
        using False None by (simp add: cleanMangaId_def first_part_split cu_def)
      then show ?thesis by simp
    next
      case ne: False
      then have "cleanMangaId x = last (filter_Boolean (str_split CHR ''/'' cu))"
        using False None
        by (auto simp: cleanMangaId_def first_part_split cu_def split: list.splits)
      then show ?thesis using last_filter_Boolean_split [OF ne] q by auto
    qed
  qed
qed

lemma cleanMangaId_segment:
  assumes "CHR ''/'' \<notin> set s" "CHR ''?'' \<notin> set s"
  shows "cleanMangaId s = s"
  using assms
  by (simp add: cleanMangaId_def str_split_single first_part_def filter_Boolean_def
      stripTrailingSlash_id mangaSlugMatch_no_slash)

lemma cleanMangaId_idem: "cleanMangaId (cleanMangaId x) = cleanMangaId x"
  using cleanMangaId_shape [of x] cleanMangaId_segment by blast

lemma ZizParser_idCleaner_eq: "ZizParser_idCleaner = cleanMangaId"
  by (rule ext) (simp add: ZizParser_idCleaner_def cleanMangaId_def)

lemma endsWith_slash: "endsWith s ''/'' \<Longrightarrow> CHR ''/'' \<in> set s"
proof -
  assume "endsWith s ''/''"
  then have "drop (length s - 1) s = ''/''" by (simp add: endsWith_def)
  then have "CHR ''/'' \<in> set (drop (length s - 1) s)" by simp
  then show ?thesis by (rule in_set_dropD)
qed

lemma trim_nonempty: "trim s \<noteq> [] \<longleftrightarrow> (\<exists>c \<in> set s. \<not> isWhiteSpace c)"
proof
  assume "trim s \<noteq> []"
  then have "\<exists>c \<in> set (dropWhile isWhiteSpace s). \<not> isWhiteSpace c"
    by (simp add: trim_def dropWhile_eq_Nil_conv)
  then show "\<exists>c \<in> set s. \<not> isWhiteSpace c"
    using set_dropWhileD by fast
next
  assume a: "\<exists>c \<in> set s. \<not> isWhiteSpace c"
  then have ne: "dropWhile isWhiteSpace s \<noteq> []" by (simp add: dropWhile_eq_Nil_conv)
  then have "\<not> isWhiteSpace (hd (dropWhile isWhiteSpace s))" by (rule hd_dropWhile)
  moreover have "hd (dropWhile isWhiteSpace s) \<in> set (dropWhile isWhiteSpace s)"
    using ne by simp
  ultimately have "\<exists>c \<in> set (dropWhile isWhiteSpace s). \<not> isWhiteSpace c" by blast
  then show "trim s \<noteq> []" by (simp add: trim_def dropWhile_eq_Nil_conv)
qed

text \<open>
  C6. For every well-formed URL, both sites' id cleaners are idempotent, and their output
  has no query part (no question mark) and no slash at its end.
\<close>

theorem idCleaner_idempotent_no_query_no_trailing_slash:
  assumes "wellFormedUrl x"
  shows "idCleaner (idCleaner x) = idCleaner x \<and>
         cleanMangaId (cleanMangaId x) = cleanMangaId x \<and>
         ZizParser_idCleaner (ZizParser_idCleaner x) = ZizParser_idCleaner x \<and>
         CHR ''?'' \<notin> set (idCleaner x) \<and> \<not> endsWith (idCleaner x) ''/'' \<and>
         CHR ''?'' \<notin> set (cleanMangaId x) \<and> \<not> endsWith (cleanMangaId x) ''/'' \<and>
         CHR ''?'' \<notin> set (ZizParser_idCleaner x) \<and> \<not> endsWith (ZizParser_idCleaner x) ''/''"
proof -
  have a: "CHR ''/'' \<notin> set (idCleaner x)"
    using idCleaner_wellFormed [OF assms] by simp
  have b: "CHR ''/'' \<notin> set (cleanMangaId x)" "CHR ''?'' \<notin> set (cleanMangaId x)"
    using cleanMangaId_shape [of x] by simp_all
  have c: "CHR ''?'' \<notin> set (idCleaner x)"
    using idCleaner_shape [of x] by simp
  show ?thesis
    using a b c endsWith_slash idCleaner_idem cleanMangaId_idem
    by (auto simp: ZizParser_idCleaner_eq)
qed

theorem idCleaner_idempotent_witness:
  "wellFormedUrl ''https://galaxyaction.net/manga/solo-leveling/?ref=1'' \<and>
   idCleaner ''https://galaxyaction.net/manga/solo-leveling/?ref=1'' = ''solo-leveling'' \<and>
   idCleaner (idCleaner ''https://galaxyaction.net/manga/solo-leveling/?ref=1'') = ''solo-leveling'' \<and>
   cleanMangaId (cleanMangaId ''https://galaxyaction.net/manga/solo-leveling/?ref=1'') =
     cleanMangaId ''https://galaxyaction.net/manga/solo-leveling/?ref=1''"
proof -
  have h: "wellFormedUrl ''https://galaxyaction.net/manga/solo-leveling/?ref=1''"
    by (simp add: wellFormedUrl_def)
  have e: "idCleaner ''https://galaxyaction.net/manga/solo-leveling/?ref=1'' = ''solo-leveling''"
    by (simp add: idCleaner_def first_part_def filter_Boolean_def)
  show ?thesis
    using h e idCleaner_idempotent_no_query_no_trailing_slash [OF h] by simp
qed

text \<open>
  C8 as stated fails: a string of white space only is not empty and holds neither marker,
  and the validator rejects it.
\<close>

theorem isValidImageUrl_blank_counterexample:
  "'' '' \<noteq> [] \<and> \<not> str_includes '' '' ''readerarea.svg'' \<and>
   \<not> str_includes '' '' ''data:image/svg'' \<and> \<not> isValidImageUrl '' ''"
  by (simp add: isValidImageUrl_def startsWith_def trim_def isWhiteSpace_def)

text \<open>
  C8, amended. The page-image validator returns false when the URL contains
  \<open>readerarea.svg\<close> or \<open>data:image/svg\<close>, and returns true for every other string that has
  a character other than white space; it returns false for the empty string and for a
  string of white space only.
\<close>

theorem isValidImageUrl_iff:
  "isValidImageUrl url \<longleftrightarrow>
     (\<exists>c \<in> set url. \<not> isWhiteSpace c) \<and> \<not> str_includes url ''readerarea.svg'' \<and>
     \<not> str_includes url ''data:image/svg''"
proof -
  have "url \<noteq> [] \<and> length (trim url) > 0 \<longleftrightarrow> (\<exists>c \<in> set url. \<not> isWhiteSpace c)"
    using trim_nonempty [of url] by auto
  then show ?thesis
    unfolding isValidImageUrl_def by blast
qed

theorem isValidImageUrl_iff_witness:
  "isValidImageUrl ''https://cdn.example/ch1/001.jpg'' \<and>
   (\<exists>c \<in> set ''https://cdn.example/ch1/001.jpg''. \<not> isWhiteSpace c) \<and>
   \<not> isValidImageUrl ''https://galaxyaction.net/readerarea.svg''"
proof -
  have a: "\<exists>c \<in> set ''https://cdn.example/ch1/001.jpg''. \<not> isWhiteSpace c"
    by (simp add: isWhiteSpace_def)
  have b: "\<not> str_includes ''https://cdn.example/ch1/001.jpg'' ''readerarea.svg''"
    by (simp add: startsWith_def)
  have c: "\<not> str_includes ''https://cdn.example/ch1/001.jpg'' ''data:image/svg''"
    by (simp add: startsWith_def)
  have d: "str_includes ''https://galaxyaction.net/readerarea.svg'' ''readerarea.svg''"
    by (simp add: startsWith_def)
  show ?thesis
    using a b c d isValidImageUrl_iff [of "''https://cdn.example/ch1/001.jpg''"]
      isValidImageUrl_iff [of "''https://galaxyaction.net/readerarea.svg''"]
    by blast
qed

lemma startsWith_simps:
  "startsWith s [] = True"
  "startsWith [] (d # p) = False"
  "startsWith (c # s) (d # p) = (c = d \<and> startsWith s p)"
  by (auto simp: startsWith_def)

lemma str_split_append:
  "str_split sep (a @ sep # b) = str_split sep a @ str_split sep b"
proof (induction a)
  case Nil
  then show ?case by simp
next
  case (Cons c a)
  then show ?case
    using str_split_nonempty [of sep a] by (auto split: list.splits)
qed

lemma last_segment:
  assumes "seg \<noteq> []" "CHR ''/'' \<notin> set seg"
  shows "filter_Boolean (str_split CHR ''/'' (pre @ CHR ''/'' # seg)) \<noteq> [] \<and>
         last (filter_Boolean (str_split CHR ''/'' (pre @ CHR ''/'' # seg))) = seg"
  using assms by (simp add: str_split_append str_split_single filter_Boolean_def)

lemma first_part_no_sep: "sep \<notin> set s \<Longrightarrow> first_part (str_split sep s) = s"
  by (simp add: str_split_single first_part_def)

lemma idCleaner_last_segment:
  assumes "seg \<noteq> []" "CHR ''/'' \<notin> set seg" "CHR ''?'' \<notin> set seg" "CHR ''?'' \<notin> set pre"
  shows "idCleaner (pre @ CHR ''/'' # seg) = seg"
proof -
  have "CHR ''?'' \<notin> set (pre @ CHR ''/'' # seg)" using assms by simp
  then have "first_part (str_split CHR ''?'' (pre @ CHR ''/'' # seg)) = pre @ CHR ''/'' # seg"
    by (rule first_part_no_sep)
  then show ?thesis
    using last_segment [OF assms(1,2), of pre] by (simp add: idCleaner_def)
qed

lemma idCleaner_shareUrl:
  assumes "seg \<noteq> []" "CHR ''/'' \<notin> set seg" "CHR ''?'' \<notin> set seg"
  shows "idCleaner (shareUrlFor GalaxyAction_DOMAIN seg) = seg"
proof -
  have "CHR ''?'' \<notin> set (GalaxyAction_DOMAIN @ ''/manga'')"
    by (simp add: GalaxyAction_DOMAIN_def)
  then have "idCleaner ((GalaxyAction_DOMAIN @ ''/manga'') @ CHR ''/'' # seg) = seg"
    by (rule idCleaner_last_segment [OF assms])
  then show ?thesis
    by (simp add: shareUrlFor_def)
qed

lemma slugGroup_segment:
  assumes "seg \<noteq> []" "CHR ''/'' \<notin> set seg"
  shows "slugGroup seg = Some seg"
proof -
  have tw: "takeWhile (\<lambda>c. c \<noteq> CHR ''/'') seg = seg"
    using assms(2) by (auto simp: takeWhile_eq_all_conv)
  show ?thesis
    unfolding slugGroup_def Let_def tw using assms(1) by simp
qed

lemma mangaSlugMatch_Ziz:
  assumes "seg \<noteq> []" "CHR ''/'' \<notin> set seg"
  shows "mangaSlugMatch (Ziz_DOMAIN @ ''/manga/'' @ seg) = Some seg"
  using assms
  by (simp add: Ziz_DOMAIN_def mangaSlugAt_def startsWith_simps slugGroup_segment)

lemma stripTrailingSlash_snoc: "stripTrailingSlash (s @ ''/'') = s"
  by (simp add: stripTrailingSlash_def)

lemma cleanMangaId_shareUrl:
  assumes "seg \<noteq> []" "CHR ''/'' \<notin> set seg" "CHR ''?'' \<notin> set seg"
  shows "cleanMangaId (ZizParser_shareUrlFor Ziz_DOMAIN seg) = seg"
proof -
  let ?u = "ZizParser_shareUrlFor Ziz_DOMAIN seg"
  have u: "?u = (Ziz_DOMAIN @ ''/manga/'' @ seg) @ ''/''"
    by (simp add: ZizParser_shareUrlFor_def)
  have "CHR ''?'' \<notin> set ?u"
    using assms by (simp add: ZizParser_shareUrlFor_def Ziz_DOMAIN_def)
  then have "first_part (str_split CHR ''?'' ?u) = ?u"
    by (rule first_part_no_sep)
  then have "stripTrailingSlash (first_part (str_split CHR ''?'' ?u)) = Ziz_DOMAIN @ ''/manga/'' @ seg"
    using u stripTrailingSlash_snoc by metis
  moreover have "?u \<noteq> []" by (simp add: ZizParser_shareUrlFor_def)
  ultimately show ?thesis
    using mangaSlugMatch_Ziz [OF assms(1,2)] by (simp add: cleanMangaId_def)
qed

lemma cleanMangaId_wellFormed:
  assumes "wellFormedUrl x"
  shows "cleanMangaId x \<noteq> []"
proof -
  define t where "t = takeWhile (\<lambda>c. c \<noteq> CHR ''?'') x"
  define cu where "cu = stripTrailingSlash t"
  obtain c where c: "c \<in> set t" "c \<noteq> CHR ''/''"
    using assms by (auto simp: wellFormedUrl_iff t_def)
  have "c \<in> set cu"
  proof (cases "t \<noteq> [] \<and> last t = CHR ''/''")
    case True
    then have "t = butlast t @ [CHR ''/'']" by (metis append_butlast_last_id)
    then have "set t = set (butlast t) \<union> {CHR ''/''}" by (metis set_append list.set(1,2) Un_insert_right sup_bot.right_neutral)
    then show ?thesis using c True by (auto simp: cu_def stripTrailingSlash_def)
  next
    case False
    then show ?thesis using c by (auto simp: cu_def stripTrailingSlash_def)
  qed
  then have ns: "\<not> set cu \<subseteq> {CHR ''/''}" using c by auto
  have xne: "x \<noteq> []" using assms by (auto simp: wellFormedUrl_iff)
  show ?thesis
  proof (cases "mangaSlugMatch cu")
    case (Some g)
    then have "cleanMangaId x = g"
      using xne by (simp add: cleanMangaId_def first_part_split cu_def t_def)
    then show ?thesis using mangaSlugMatch_Some [OF Some] by simp
  next
    case None
    have ne: "filter_Boolean (str_split CHR ''/'' cu) \<noteq> []"
      using ns by (simp add: filter_Boolean_split_empty)
    then have "cleanMangaId x = last (filter_Boolean (str_split CHR ''/'' cu))"
      using xne None
      by (auto simp: cleanMangaId_def first_part_split cu_def t_def split: list.splits)
    then show ?thesis using last_filter_Boolean_split [OF ne] by simp
  qed
qed

lemma map_filter_set: "y \<in> set (List.map_filter f xs) \<longleftrightarrow> (\<exists>x \<in> set xs. f x = Some y)"
  by (induction xs) (auto simp: List.map_filter_simps split: option.splits)

lemma idCleaner_roundtrip:
  assumes "wellFormedUrl h"
  shows "idCleaner (shareUrlFor GalaxyAction_DOMAIN (idCleaner h)) = idCleaner h"
  using idCleaner_wellFormed [OF assms] idCleaner_shape [of h] idCleaner_shareUrl by blast

lemma cleanMangaId_roundtrip:
  assumes "wellFormedUrl h"
  shows "cleanMangaId (ZizParser_shareUrlFor Ziz_DOMAIN (cleanMangaId h)) = cleanMangaId h"
  using cleanMangaId_wellFormed [OF assms] cleanMangaId_shape [of h] cleanMangaId_shareUrl by blast

lemma searchItem_mangaId:
  "searchItem dec enc n = Some i \<Longrightarrow> item_mangaId i = idCleaner (or_empty (a_href n))"
  by (auto simp: searchItem_def Let_def split: if_splits)

lemma zizSearchItem_mangaId:
  "zizSearchItem dec n = Some i \<Longrightarrow> item_mangaId i = cleanMangaId (or_empty (link_href n))"
  by (auto simp: zizSearchItem_def Let_def split: if_splits)

text \<open>
  C7 as stated fails on site A: a search entry whose link is \<open>/\<close> yields the id \<open>/\<close>, and
  cleaning the share URL built from it gives \<open>manga\<close>.
\<close>

theorem shareUrl_roundtrip_counterexample:
  "map item_mangaId
     (MangaReaderParser_parseSearchResults (\<lambda>s. s) (\<lambda>s. s)
        [\<lparr>a_href = Some ''/'', tt_text = ''Home'', limit_img_src = None, epxs_text = ''''\<rparr>])
     = [''/''] \<and>
   idCleaner (shareUrlFor GalaxyAction_DOMAIN ''/'') = ''manga'' \<and>
   idCleaner (shareUrlFor GalaxyAction_DOMAIN ''/'') \<noteq> ''/''"
  by (simp add: MangaReaderParser_parseSearchResults_def List.map_filter_simps searchItem_def
      or_empty_def trim_def isWhiteSpace_def idCleaner_def first_part_def filter_Boolean_def
      shareUrlFor_def GalaxyAction_DOMAIN_def)

text \<open>
  C7, amended. For every id that the extractors produce from a link that is well-formed
  (it has a character other than a slash before its query part), cleaning the share URL
  built from that id recovers the id, on both sites: the share URL is the domain, then
  \<open>/manga/\<close>, then the id, with a slash at the end on site B.
\<close>

theorem shareUrl_roundtrip:
  assumes "\<forall>n \<in> set nodes. wellFormedUrl (or_empty (a_href n))"
    and "\<forall>n \<in> set links. wellFormedUrl (or_empty (link_href n))"
  shows "(\<forall>i \<in> set (MangaReaderParser_parseSearchResults dec enc nodes).
            idCleaner (shareUrlFor GalaxyAction_DOMAIN (item_mangaId i)) = item_mangaId i) \<and>
         (\<forall>i \<in> set (ZizParser_parseSearchResults dec noResults links).
            cleanMangaId (ZizParser_shareUrlFor Ziz_DOMAIN (item_mangaId i)) = item_mangaId i \<and>
            ZizParser_idCleaner (ZizParser_shareUrlFor Ziz_DOMAIN (item_mangaId i)) = item_mangaId i)"
proof -
  have a: "idCleaner (shareUrlFor GalaxyAction_DOMAIN (item_mangaId i)) = item_mangaId i"
    if "i \<in> set (MangaReaderParser_parseSearchResults dec enc nodes)" for i
  proof -
    from that obtain n where n: "n \<in> set nodes" "searchItem dec enc n = Some i"
      by (auto simp: MangaReaderParser_parseSearchResults_def map_filter_set)
    then show ?thesis
      using assms(1) idCleaner_roundtrip searchItem_mangaId by metis
  qed
  have b: "cleanMangaId (ZizParser_shareUrlFor Ziz_DOMAIN (item_mangaId i)) = item_mangaId i"
    if "i \<in> set (ZizParser_parseSearchResults dec noResults links)" for i
  proof -
    from that obtain n where n: "n \<in> set links" "zizSearchItem dec n = Some i"
      by (auto simp: ZizParser_parseSearchResults_def map_filter_set split: if_splits)
    then show ?thesis
      using assms(2) cleanMangaId_roundtrip zizSearchItem_mangaId by metis
  qed
  show ?thesis
    using a b by (simp add: ZizParser_idCleaner_eq)
qed

theorem shareUrl_roundtrip_witness:
  "wellFormedUrl ''https://galaxyaction.net/manga/solo-leveling/'' \<and>
   wellFormedUrl ''/manga/martial-peak/?page=2'' \<and>
   map item_mangaId
     (MangaReaderParser_parseSearchResults (\<lambda>s. s) (\<lambda>s. s)
        [\<lparr>a_href = Some ''https://galaxyaction.net/manga/solo-leveling/'',
          tt_text = '' Solo Leveling '', limit_img_src = None, epxs_text = ''Chapter 3''\<rparr>])
     = [''solo-leveling''] \<and>
   idCleaner (shareUrlFor GalaxyAction_DOMAIN ''solo-leveling'') = ''solo-leveling'' \<and>
   map item_mangaId
     (ZizParser_parseSearchResults (\<lambda>s. s) 0
        [\<lparr>link_href = Some ''/manga/martial-peak/?page=2'', link_title_text = ''Martial Peak'',
          link_img_src = None\<rparr>])
     = [''martial-peak''] \<and>
   cleanMangaId (ZizParser_shareUrlFor Ziz_DOMAIN ''martial-peak'') = ''martial-peak''"
proof -
  let ?nodes = "[\<lparr>a_href = Some ''https://galaxyaction.net/manga/solo-leveling/'',
                  tt_text = '' Solo Leveling '', limit_img_src = None, epxs_text = ''Chapter 3''\<rparr>]"
  let ?links = "[\<lparr>link_href = Some ''/manga/martial-peak/?page=2'', link_title_text = ''Martial Peak'',
                  link_img_src = None\<rparr>]"
  have h1: "\<forall>n \<in> set ?nodes. wellFormedUrl (or_empty (a_href n))"
    by (simp add: wellFormedUrl_def or_empty_def)
  have h2: "\<forall>n \<in> set ?links. wellFormedUrl (or_empty (link_href n))"
    by (simp add: wellFormedUrl_def or_empty_def)
  have e1: "map item_mangaId (MangaReaderParser_parseSearchResults (\<lambda>s. s) (\<lambda>s. s) ?nodes)
              = [''solo-leveling'']"
    by (simp add: MangaReaderParser_parseSearchResults_def List.map_filter_simps searchItem_def
        or_empty_def trim_def isWhiteSpace_def idCleaner_def first_part_def filter_Boolean_def)
  have e2: "map item_mangaId (ZizParser_parseSearchResults (\<lambda>s. s) 0 ?links) = [''martial-peak'']"
    by (simp add: ZizParser_parseSearchResults_def List.map_filter_simps zizSearchItem_def
        or_empty_def trim_def isWhiteSpace_def cleanMangaId_def first_part_def filter_Boolean_def
        stripTrailingSlash_def mangaSlugAt_def startsWith_simps slugGroup_def buildFullUrl_def)
  from e1 obtain i where i: "MangaReaderParser_parseSearchResults (\<lambda>s. s) (\<lambda>s. s) ?nodes = [i]"
    "item_mangaId i = ''solo-leveling''"
    by auto
  from e2 obtain j where j: "ZizParser_parseSearchResults (\<lambda>s. s) 0 ?links = [j]"
    "item_mangaId j = ''martial-peak''"
    by auto
  have "idCleaner (shareUrlFor GalaxyAction_DOMAIN (item_mangaId i)) = item_mangaId i"
    and "cleanMangaId (ZizParser_shareUrlFor Ziz_DOMAIN (item_mangaId j)) = item_mangaId j"
    using shareUrl_roundtrip [OF h1 h2, of "\<lambda>s. s" "\<lambda>s. s" 0] i(1) j(1) by simp_all
  then show ?thesis
    using h1 h2 e1 e2 i(2) j(2) by (simp add: or_empty_def)
qed

lemma contentRatingOf_cases:
  "(contentRatingOf ks = ADULT \<longleftrightarrow> (\<exists>k \<in> set ks. k \<in> {''adult'', ''18+'', ''nsfw''})) \<and>
   (contentRatingOf ks = MATURE \<longleftrightarrow>
      \<not> (\<exists>k \<in> set ks. k \<in> {''adult'', ''18+'', ''nsfw''}) \<and>
      (\<exists>k \<in> set ks. k \<in> {''mature'', ''ecchi''})) \<and>
   (contentRatingOf ks = EVERYONE \<longleftrightarrow>
      \<not> (\<exists>k \<in> set ks. k \<in> {''adult'', ''18+'', ''nsfw''}) \<and>
      \<not> (\<exists>k \<in> set ks. k \<in> {''mature'', ''ecchi''}))"
proof -
  have a: "list_ex (\<lambda>g. g \<in> set [''adult'', ''18+'', ''nsfw'']) ks \<longleftrightarrow>
           (\<exists>k \<in> set ks. k \<in> {''adult'', ''18+'', ''nsfw''})"
    by (simp add: list_ex_iff)
  have m: "list_ex (\<lambda>g. g \<in> set [''mature'', ''ecchi'']) ks \<longleftrightarrow>
           (\<exists>k \<in> set ks. k \<in> {''mature'', ''ecchi''})"
    by (simp add: list_ex_iff)
  show ?thesis
    unfolding contentRatingOf_def a m by simp
qed

lemma determineContentRating_cases:
  "(determineContentRating ks = ADULT \<longleftrightarrow>
      (\<exists>k \<in> set ks. toLowerCase k \<in> {''harem'', ''har'' @ [CHR 0xE9] @ ''m''})) \<and>
   (determineContentRating ks = EVERYONE \<longleftrightarrow>
      \<not> (\<exists>k \<in> set ks. toLowerCase k \<in> {''harem'', ''har'' @ [CHR 0xE9] @ ''m''})) \<and>
   determineContentRating ks \<noteq> MATURE"
proof -
  have a: "list_ex (\<lambda>g. list_ex (\<lambda>adultGenre. adultGenre = g) CONTENT_RATING_GENRES_ADULT)
             (map toLowerCase ks) \<longleftrightarrow>
           (\<exists>k \<in> set ks. toLowerCase k \<in> {''harem'', ''har'' @ [CHR 0xE9] @ ''m''})"
    by (auto simp: list_ex_iff CONTENT_RATING_GENRES_ADULT_def)
  show ?thesis
    unfolding determineContentRating_def Let_def a by simp
qed

text \<open>
  C1 as stated fails: no fixed pair of keyword sets serves both parsers. For the single
  extracted keyword \<open>mature\<close> site A returns MATURE and site B returns EVERYONE.
\<close>

theorem contentRating_counterexample:
  "\<not> (\<exists>adult mature. \<forall>ks.
        (contentRatingOf ks = MATURE \<longleftrightarrow>
           \<not> (\<exists>k \<in> set ks. k \<in> adult) \<and> (\<exists>k \<in> set ks. k \<in> mature)) \<and>
        (determineContentRating ks = MATURE \<longleftrightarrow>
           \<not> (\<exists>k \<in> set ks. k \<in> adult) \<and> (\<exists>k \<in> set ks. k \<in> mature)))"
proof
  assume "\<exists>adult mature. \<forall>ks.
        (contentRatingOf ks = MATURE \<longleftrightarrow>
           \<not> (\<exists>k \<in> set ks. k \<in> adult) \<and> (\<exists>k \<in> set ks. k \<in> mature)) \<and>
        (determineContentRating ks = MATURE \<longleftrightarrow>
           \<not> (\<exists>k \<in> set ks. k \<in> adult) \<and> (\<exists>k \<in> set ks. k \<in> mature))"
  then obtain adult mature where h: "\<And>ks.
        (contentRatingOf ks = MATURE \<longleftrightarrow>
           \<not> (\<exists>k \<in> set ks. k \<in> adult) \<and> (\<exists>k \<in> set ks. k \<in> mature)) \<and>
        (determineContentRating ks = MATURE \<longleftrightarrow>
           \<not> (\<exists>k \<in> set ks. k \<in> adult) \<and> (\<exists>k \<in> set ks. k \<in> mature))"
    by blast
  have "contentRatingOf [''mature''] = MATURE"
    by (simp add: contentRatingOf_def)
  then have "determineContentRating [''mature''] = MATURE"
    using h [of "[''mature'']"] by blast
  then show False
    using determineContentRating_cases [of "[''mature'']"] by blast
qed

text \<open>
  C1, amended. The content rating of \<open>parseMangaDetails\<close> is a function of the extracted
  genre keywords alone, with one keyword table per site. Site A: ADULT iff some keyword is
  one of \<open>adult\<close>, \<open>18+\<close>, \<open>nsfw\<close>; MATURE iff none is and some keyword is one of \<open>mature\<close>,
  \<open>ecchi\<close>; EVERYONE otherwise. Site B: ADULT iff some keyword, in lower case, is \<open>harem\<close>
  or the same word with U+00E9 for its e; EVERYONE otherwise; site B has no mature table
  and never returns MATURE.
\<close>

theorem contentRating_from_genre_keywords:
  "manga_contentRating (MangaReaderParser_parseMangaDetails dec page mangaId domain) =
     contentRatingOf (genreKeywordsOf (mgen_links page)) \<and>
   (contentRatingOf ks = ADULT \<longleftrightarrow> (\<exists>k \<in> set ks. k \<in> {''adult'', ''18+'', ''nsfw''})) \<and>
   (contentRatingOf ks = MATURE \<longleftrightarrow>
      \<not> (\<exists>k \<in> set ks. k \<in> {''adult'', ''18+'', ''nsfw''}) \<and>
      (\<exists>k \<in> set ks. k \<in> {''mature'', ''ecchi''})) \<and>
   (contentRatingOf ks = EVERYONE \<longleftrightarrow>
      \<not> (\<exists>k \<in> set ks. k \<in> {''adult'', ''18+'', ''nsfw''}) \<and>
      \<not> (\<exists>k \<in> set ks. k \<in> {''mature'', ''ecchi''})) \<and>
   manga_contentRating (ZizParser_parseMangaDetails dec zpage mangaId domain) =
     determineContentRating (map fst (List.map_filter zizGenreOf (genre_spans zpage))) \<and>
   (determineContentRating ks = ADULT \<longleftrightarrow>
      (\<exists>k \<in> set ks. toLowerCase k \<in> {''harem'', ''har'' @ [CHR 0xE9] @ ''m''})) \<and>
   (determineContentRating ks = EVERYONE \<longleftrightarrow>
      \<not> (\<exists>k \<in> set ks. toLowerCase k \<in> {''harem'', ''har'' @ [CHR 0xE9] @ ''m''})) \<and>
   determineContentRating ks \<noteq> MATURE"
proof -
  have a: "manga_contentRating (MangaReaderParser_parseMangaDetails dec page mangaId domain) =
     contentRatingOf (genreKeywordsOf (mgen_links page))"
    by (simp add: MangaReaderParser_parseMangaDetails_def Let_def)
  have b: "manga_contentRating (ZizParser_parseMangaDetails dec zpage mangaId domain) =
     determineContentRating (map fst (List.map_filter zizGenreOf (genre_spans zpage)))"
    by (simp add: ZizParser_parseMangaDetails_def Let_def)
  show ?thesis
    using a b contentRatingOf_cases [of ks] determineContentRating_cases [of ks] by blast
qed

theorem contentRating_from_genre_keywords_witness:
  "manga_contentRating
     (MangaReaderParser_parseMangaDetails (\<lambda>s. s)
        \<lparr>entry_title_text = ''Solo'', author_link_text = [], artist_link_text = [],
         description_text = ''An adult story, not safe for work'', thumb_img_src = None,
         status_i_text = ''Ongoing'',
         mgen_links = [\<lparr>genre_text = ''Action'', genre_href = Some ''/genres/action/''\<rparr>,
                       \<lparr>genre_text = '' Ecchi '', genre_href = Some ''/genres/ecchi/''\<rparr>]\<rparr>
        ''solo'' GalaxyAction_DOMAIN) = MATURE \<and>
   (\<exists>k \<in> set [''action'', ''ecchi'']. k \<in> {''mature'', ''ecchi''}) \<and>
   manga_contentRating
     (ZizParser_parseMangaDetails (\<lambda>s. s)
        \<lparr>h1_text = ''Peak'', ziz_author_link_text = [], ziz_artist_link_text = [],
         prose_text = [], cover_img_src = None, status_p_text = ''In Release'',
         genre_spans = [\<lparr>genre_text = ''Har'' @ [CHR 0xC9] @ ''M'', genre_href = None\<rparr>]\<rparr>
        ''peak'' Ziz_DOMAIN) = ADULT"
proof -
  let ?page = "\<lparr>entry_title_text = ''Solo'', author_link_text = [], artist_link_text = [],
         description_text = ''An adult story, not safe for work'', thumb_img_src = None,
         status_i_text = ''Ongoing'',
         mgen_links = [\<lparr>genre_text = ''Action'', genre_href = Some ''/genres/action/''\<rparr>,
                       \<lparr>genre_text = '' Ecchi '', genre_href = Some ''/genres/ecchi/''\<rparr>]\<rparr>"
  let ?zpage = "\<lparr>h1_text = ''Peak'', ziz_author_link_text = [], ziz_artist_link_text = [],
         prose_text = [], cover_img_src = None, status_p_text = ''In Release'',
         genre_spans = [\<lparr>genre_text = ''Har'' @ [CHR 0xC9] @ ''M'', genre_href = None\<rparr>]\<rparr>"
  have k: "genreKeywordsOf (mgen_links ?page) = [''action'', ''ecchi'']"
    by (simp add: genreKeywordsOf_def List.map_filter_simps genreOf_def trim_def isWhiteSpace_def
        or_empty_def idCleaner_def first_part_def filter_Boolean_def toLowerCase_def lowerChar_def
        upperLetters_def lowerLetters_def)
  have z: "map fst (List.map_filter zizGenreOf (genre_spans ?zpage)) = [''har'' @ [CHR 0xE9] @ ''m'']"
    by (simp add: List.map_filter_simps zizGenreOf_def trim_def isWhiteSpace_def
        toLowerCase_def lowerChar_def upperLetters_def lowerLetters_def)
  have l: "toLowerCase (''har'' @ [CHR 0xE9] @ ''m'') = ''har'' @ [CHR 0xE9] @ ''m''"
    by (simp add: toLowerCase_def lowerChar_def upperLetters_def lowerLetters_def)
  have m: "\<exists>k \<in> set [''action'', ''ecchi'']. k \<in> {''mature'', ''ecchi''}"
    by simp
  have n: "\<not> (\<exists>k \<in> set [''action'', ''ecchi'']. k \<in> {''adult'', ''18+'', ''nsfw''})"
    by simp
  have "contentRatingOf [''action'', ''ecchi''] = MATURE"
    using contentRating_from_genre_keywords [of _ _ _ _ "[''action'', ''ecchi'']"] m n by blast
  moreover have "determineContentRating [''har'' @ [CHR 0xE9] @ ''m''] = ADULT"
    using contentRating_from_genre_keywords [of _ _ _ _ "[''har'' @ [CHR 0xE9] @ ''m'']"] l by simp
  ultimately show ?thesis
    using contentRating_from_genre_keywords [of "\<lambda>s. s" ?page "''solo''" GalaxyAction_DOMAIN _ ?zpage]
      contentRating_from_genre_keywords [of "\<lambda>s. s" ?page "''peak''" Ziz_DOMAIN _ ?zpage] k z m
    by simp
qed

text \<open>
  C4 as stated fails. On site A the text \<open>in release\<close>, which the table lists under Ongoing,
  becomes \<open>In release\<close>; on site B a text in none of the buckets is returned as it is, not
  title-cased.
\<close>

theorem status_counterexample:
  "toLowerCase ''in release'' \<in> set STATUS_MAPPING_ONGOING \<and>
   statusOf ''in release'' = ''In release'' \<and>
   statusOf ''in release'' \<noteq> ''Ongoing'' \<and>
   toLowerCase ''axed'' \<notin> set (STATUS_MAPPING_ONGOING @ STATUS_MAPPING_COMPLETED @
                                 STATUS_MAPPING_HIATUS @ STATUS_MAPPING_CANCELLED) \<and>
   normalizeStatus ''axed'' = ''axed'' \<and>
   normalizeStatus ''axed'' \<noteq> ''Axed''"
  by (simp add: statusOf_def normalizeStatus_def STATUS_MAPPING_ONGOING_def
      STATUS_MAPPING_COMPLETED_def STATUS_MAPPING_HIATUS_def STATUS_MAPPING_CANCELLED_def
      toLowerCase_def lowerChar_def toUpperCase_def upperChar_def upperLetters_def
      lowerLetters_def)

text \<open>
  C4, amended. The status of the details page is computed per site from the trimmed status
  text, compared in lower case. Site A: an empty text gives \<open>Ongoing\<close>; the Completed bucket
  (\<open>completed\<close>, \<open>finished\<close>) gives \<open>Completed\<close>, the Hiatus bucket (\<open>hiatus\<close>, \<open>on hold\<close>) gives
  \<open>Hiatus\<close>, the Cancelled bucket (\<open>cancelled\<close>, \<open>dropped\<close>) gives \<open>Cancelled\<close>; any other
  non-empty text is passed through with its first character in upper case and the rest
  unchanged. Site B: an empty text and the Ongoing bucket (\<open>in release\<close>, \<open>ongoing\<close>,
  \<open>publishing\<close>) give \<open>Ongoing\<close>; a text in none of the four buckets is passed through
  unchanged.
\<close>

theorem status_normalisation:
  "manga_status (MangaReaderParser_parseMangaDetails dec page mangaId domain) =
     statusOf (trim (status_i_text page)) \<and>
   statusOf [] = ''Ongoing'' \<and>
   (toLowerCase s \<in> set STATUS_MAPPING_COMPLETED \<longrightarrow> statusOf s = ''Completed'') \<and>
   (toLowerCase s \<in> set STATUS_MAPPING_HIATUS \<longrightarrow> statusOf s = ''Hiatus'') \<and>
   (toLowerCase s \<in> set STATUS_MAPPING_CANCELLED \<longrightarrow> statusOf s = ''Cancelled'') \<and>
   (s \<noteq> [] \<and> toLowerCase s \<notin> set (STATUS_MAPPING_COMPLETED @ STATUS_MAPPING_HIATUS @
                                         STATUS_MAPPING_CANCELLED) \<longrightarrow>
      statusOf s = toUpperCase (take 1 s) @ drop 1 s) \<and>
   manga_status (ZizParser_parseMangaDetails dec zpage mangaId domain) =
     normalizeStatus (trim (status_p_text zpage)) \<and>
   normalizeStatus [] = ''Ongoing'' \<and>
   (toLowerCase s \<in> set STATUS_MAPPING_ONGOING \<longrightarrow> normalizeStatus s = ''Ongoing'') \<and>
   (s \<noteq> [] \<and> toLowerCase s \<notin> set (STATUS_MAPPING_ONGOING @ STATUS_MAPPING_COMPLETED @
                                         STATUS_MAPPING_HIATUS @ STATUS_MAPPING_CANCELLED) \<longrightarrow>
      normalizeStatus s = s)"
proof -
  have a: "manga_status (MangaReaderParser_parseMangaDetails dec page mangaId domain) =
     statusOf (trim (status_i_text page))"
    by (simp add: MangaReaderParser_parseMangaDetails_def Let_def)
  have b: "manga_status (ZizParser_parseMangaDetails dec zpage mangaId domain) =
     normalizeStatus (trim (status_p_text zpage))"
    by (simp add: ZizParser_parseMangaDetails_def Let_def)
  have ne: "toLowerCase s \<noteq> [] \<longleftrightarrow> s \<noteq> []"
    by (simp add: toLowerCase_def)
  have c: "statusOf [] = ''Ongoing''" "normalizeStatus [] = ''Ongoing''"
    by (simp_all add: statusOf_def normalizeStatus_def)
  have d: "toLowerCase s \<in> set STATUS_MAPPING_COMPLETED \<longrightarrow> statusOf s = ''Completed''"
    using ne by (auto simp: statusOf_def STATUS_MAPPING_COMPLETED_def)
  have e: "toLowerCase s \<in> set STATUS_MAPPING_HIATUS \<longrightarrow> statusOf s = ''Hiatus''"
    using ne by (auto simp: statusOf_def STATUS_MAPPING_HIATUS_def)
  have f: "toLowerCase s \<in> set STATUS_MAPPING_CANCELLED \<longrightarrow> statusOf s = ''Cancelled''"
    using ne by (auto simp: statusOf_def STATUS_MAPPING_CANCELLED_def)
  have g: "s \<noteq> [] \<and> toLowerCase s \<notin> set (STATUS_MAPPING_COMPLETED @ STATUS_MAPPING_HIATUS @
                                         STATUS_MAPPING_CANCELLED) \<longrightarrow>
      statusOf s = toUpperCase (take 1 s) @ drop 1 s"
    by (auto simp: statusOf_def STATUS_MAPPING_COMPLETED_def STATUS_MAPPING_HIATUS_def
        STATUS_MAPPING_CANCELLED_def)
  have h: "toLowerCase s \<in> set STATUS_MAPPING_ONGOING \<longrightarrow> normalizeStatus s = ''Ongoing''"
    by (auto simp: normalizeStatus_def list_ex_iff)
  have i: "s \<noteq> [] \<and> toLowerCase s \<notin> set (STATUS_MAPPING_ONGOING @ STATUS_MAPPING_COMPLETED @
                                         STATUS_MAPPING_HIATUS @ STATUS_MAPPING_CANCELLED) \<longrightarrow>
      normalizeStatus s = s"
    by (auto simp: normalizeStatus_def list_ex_iff)
  show ?thesis
    using a b c d e f g h i by blast
qed

theorem status_normalisation_witness:
  "toLowerCase ''On Hold'' \<in> set STATUS_MAPPING_HIATUS \<and> statusOf ''On Hold'' = ''Hiatus'' \<and>
   toLowerCase ''In Release'' \<in> set STATUS_MAPPING_ONGOING \<and>
   normalizeStatus ''In Release'' = ''Ongoing'' \<and>
   toLowerCase ''season end'' \<notin> set (STATUS_MAPPING_ONGOING @ STATUS_MAPPING_COMPLETED @
                                 STATUS_MAPPING_HIATUS @ STATUS_MAPPING_CANCELLED) \<and>
   statusOf ''season end'' = ''Season end'' \<and>
   normalizeStatus ''season end'' = ''season end''"
proof -
  have a: "toLowerCase ''On Hold'' \<in> set STATUS_MAPPING_HIATUS"
    by (simp add: STATUS_MAPPING_HIATUS_def toLowerCase_def lowerChar_def upperLetters_def
        lowerLetters_def)
  have b: "toLowerCase ''In Release'' \<in> set STATUS_MAPPING_ONGOING"
    by (simp add: STATUS_MAPPING_ONGOING_def toLowerCase_def lowerChar_def upperLetters_def
        lowerLetters_def)
  have c: "toLowerCase ''season end'' \<notin> set (STATUS_MAPPING_ONGOING @ STATUS_MAPPING_COMPLETED @
                                 STATUS_MAPPING_HIATUS @ STATUS_MAPPING_CANCELLED)"
    by (simp add: STATUS_MAPPING_ONGOING_def STATUS_MAPPING_COMPLETED_def
        STATUS_MAPPING_HIATUS_def STATUS_MAPPING_CANCELLED_def toLowerCase_def lowerChar_def
        upperLetters_def lowerLetters_def)
  have d: "toUpperCase (take 1 ''season end'') @ drop 1 ''season end'' = ''Season end''"
    by (simp add: toUpperCase_def upperChar_def upperLetters_def lowerLetters_def)
  show ?thesis
    using a b c d status_normalisation [of _ _ _ _ "''On Hold''"]
      status_normalisation [of _ _ _ _ "''In Release''"]
      status_normalisation [of _ _ _ _ "''season end''"]
    by simp
qed

lemma weeklyEach_eq:
  "weeklyEach i lis items = items @ List.map_filter weeklyItem (take (12 - i) lis)"
proof (induction i lis items rule: weeklyEach.induct)
  case (1 i items)
  then show ?case by simp
next
  case (2 i li rest items)
  show ?case
  proof (cases "i \<ge> 12")
    case True
    then show ?thesis by simp
  next
    case False
    then have e: "12 - i = Suc (12 - Suc i)"
      by arith
    have t: "take (12 - i) (li # rest) = li # take (12 - Suc i) rest"
      by (subst e) simp
    show ?thesis
      using False 2 by (cases "weeklyItem li") (simp_all add: t)
  qed
qed

lemma length_map_filter_le: "length (List.map_filter f xs) \<le> length xs"
  by (induction xs) (auto split: option.splits)

text \<open>
  C10. On site A the items of the section \<open>weekly_manga\<close> are at most 12: the iteration
  stops at document index 12, so the result is the valid entries among the first 12
  elements of the weekly list, in document order, and the elements after them have no effect.
\<close>

theorem weekly_manga_at_most_12:
  "length (getDiscoverSectionItems_weekly_manga lis) \<le> 12 \<and>
   getDiscoverSectionItems_weekly_manga lis = List.map_filter weeklyItem (take 12 lis) \<and>
   getDiscoverSectionItems_weekly_manga lis = getDiscoverSectionItems_weekly_manga (take 12 lis)"
proof -
  have a: "getDiscoverSectionItems_weekly_manga xs = List.map_filter weeklyItem (take 12 xs)" for xs
    by (simp add: getDiscoverSectionItems_weekly_manga_def weeklyEach_eq)
  have "length (List.map_filter weeklyItem (take 12 lis)) \<le> length (take 12 lis)"
    by (rule length_map_filter_le)
  then have b: "length (getDiscoverSectionItems_weekly_manga lis) \<le> 12"
    by (simp add: a)
  show ?thesis using a b by simp
qed

theorem weekly_manga_at_most_12_witness:
  "map disc_mangaId
     (getDiscoverSectionItems_weekly_manga
        [\<lparr>series_href = Some ''https://galaxyaction.net/manga/one/'', series_img_src = None,
          leftseries_title_text = ''One'', leftseries_span_text = ''Genres:  Action''\<rparr>,
         \<lparr>series_href = None, series_img_src = None,
          leftseries_title_text = ''No link'', leftseries_span_text = []\<rparr>,
         \<lparr>series_href = Some ''https://galaxyaction.net/manga/two/'', series_img_src = None,
          leftseries_title_text = ''Two'', leftseries_span_text = []\<rparr>]) = [''one'', ''two''] \<and>
   length
     (getDiscoverSectionItems_weekly_manga
        [\<lparr>series_href = Some ''https://galaxyaction.net/manga/one/'', series_img_src = None,
          leftseries_title_text = ''One'', leftseries_span_text = ''Genres:  Action''\<rparr>,
         \<lparr>series_href = None, series_img_src = None,
          leftseries_title_text = ''No link'', leftseries_span_text = []\<rparr>,
         \<lparr>series_href = Some ''https://galaxyaction.net/manga/two/'', series_img_src = None,
          leftseries_title_text = ''Two'', leftseries_span_text = []\<rparr>]) \<le> 12"
proof -
  let ?lis = "[\<lparr>series_href = Some ''https://galaxyaction.net/manga/one/'', series_img_src = None,
          leftseries_title_text = ''One'', leftseries_span_text = ''Genres:  Action''\<rparr>,
         \<lparr>series_href = None, series_img_src = None,
          leftseries_title_text = ''No link'', leftseries_span_text = []\<rparr>,
         \<lparr>series_href = Some ''https://galaxyaction.net/manga/two/'', series_img_src = None,
          leftseries_title_text = ''Two'', leftseries_span_text = []\<rparr>]"
  note w = weekly_manga_at_most_12 [of ?lis]
  have l: "length (getDiscoverSectionItems_weekly_manga ?lis) \<le> 12"
    by (rule w [THEN conjunct1])
  have e: "getDiscoverSectionItems_weekly_manga ?lis = List.map_filter weeklyItem (take 12 ?lis)"
    by (rule w [THEN conjunct2, THEN conjunct1])
  have m: "map disc_mangaId (List.map_filter weeklyItem (take 12 ?lis)) = [''one'', ''two'']"
    by (simp add: weeklyItem_def or_empty_def trim_def isWhiteSpace_def idCleaner_def
        first_part_def filter_Boolean_def)
  have "map disc_mangaId (getDiscoverSectionItems_weekly_manga ?lis) = [''one'', ''two'']"
    by (simp only: e m)
  then show ?thesis
    using l by (rule conjI)
qed

lemma countdown: "map (\<lambda>k. int n - int k) [0..<n] = rev (map int [1..<Suc n])"
proof (rule nth_equalityI)
  show "length (map (\<lambda>k. int n - int k) [0..<n]) = length (rev (map int [1..<Suc n]))"
    by simp
next
  fix i assume "i < length (map (\<lambda>k. int n - int k) [0..<n])"
  then have i: "i < n" by simp
  then have "rev (map int [1..<Suc n]) ! i = map int [1..<Suc n] ! (n - Suc i)"
    by (simp add: rev_nth del: upt_Suc)
  also have "\<dots> = int (1 + (n - Suc i))"
    using i by (simp del: upt_Suc)
  finally show "map (\<lambda>k. int n - int k) [0..<n] ! i = rev (map int [1..<Suc n]) ! i"
    using i by simp
qed

lemma sortingIndex_reassign:
  "map chap_sortingIndex (reassignSortingIndex cs) = rev (map int [1..<Suc (length cs)])"
proof -
  have e: "map fst (enumerate 0 cs) = [0..<length cs]"
    by (simp add: map_fst_enumerate)
  have "map chap_sortingIndex (reassignSortingIndex cs) =
        map (\<lambda>k. int (length cs) - int k) (map fst (enumerate 0 cs))"
    by (simp add: reassignSortingIndex_def case_prod_beta comp_def del: map_fst_enumerate)
  then show ?thesis
    by (simp only: e countdown)
qed

lemma length_reassign: "length (reassignSortingIndex cs) = length cs"
  by (simp add: reassignSortingIndex_def)

lemma chapterOf_sortingIndex:
  "chapterOf dec dp cn sm lang now nodeTotal i obj = Some c \<Longrightarrow>
   chap_sortingIndex c = int nodeTotal - int i"
  by (auto simp: chapterOf_def Let_def split: if_splits)

lemma chapterEach_bounds:
  "x \<in> set (map chap_sortingIndex (chapterEach dec dp cn sm lang clock nodeTotal i nodes)) \<Longrightarrow>
   x \<le> int nodeTotal - int i \<and> int nodeTotal - int i - int (length nodes) < x"
proof (induction nodes arbitrary: i)
  case Nil
  then show ?case by simp
next
  case (Cons obj rest)
  show ?case
  proof (cases "chapterOf dec dp cn sm lang (clock i) nodeTotal i obj")
    case None
    with Cons.prems have "x \<in> set (map chap_sortingIndex
        (chapterEach dec dp cn sm lang clock nodeTotal (Suc i) rest))"
      by simp
    from Cons.IH [OF this] show ?thesis by simp
  next
    case (Some c)
    with Cons.prems consider "x = chap_sortingIndex c"
      | "x \<in> set (map chap_sortingIndex (chapterEach dec dp cn sm lang clock nodeTotal (Suc i) rest))"
      by auto
    then show ?thesis
    proof cases
      case 1
      then show ?thesis using chapterOf_sortingIndex [OF Some] by simp
    next
      case 2
      from Cons.IH [OF this] show ?thesis by simp
    qed
  qed
qed

lemma chapterEach_decreasing:
  "sorted_wrt (>) (map chap_sortingIndex (chapterEach dec dp cn sm lang clock nodeTotal i nodes))"
proof (induction nodes arbitrary: i)
  case Nil
  then show ?case by simp
next
  case (Cons obj rest)
  show ?case
  proof (cases "chapterOf dec dp cn sm lang (clock i) nodeTotal i obj")
    case None
    then show ?thesis using Cons.IH [of "Suc i"] by simp
  next
    case (Some c)
    have "\<forall>x \<in> set (map chap_sortingIndex (chapterEach dec dp cn sm lang clock nodeTotal (Suc i) rest)).
            x < chap_sortingIndex c"
      using chapterEach_bounds [of _ dec dp cn sm lang clock nodeTotal "Suc i" rest]
        chapterOf_sortingIndex [OF Some] by fastforce
    then show ?thesis using Some Cons.IH [of "Suc i"] by simp
  qed
qed

lemma length_chapterEach_le:
  "length (chapterEach dec dp cn sm lang clock nodeTotal i nodes) \<le> length nodes"
  by (induction nodes arbitrary: i) (auto split: option.splits intro: le_SucI)

lemma chapterEach_full:
  "length (chapterEach dec dp cn sm lang clock nodeTotal i nodes) = length nodes \<Longrightarrow>
   map chap_sortingIndex (chapterEach dec dp cn sm lang clock nodeTotal i nodes) =
     map (\<lambda>k. int nodeTotal - int k) [i..<i + length nodes]"
proof (induction nodes arbitrary: i)
  case Nil
  then show ?case by simp
next
  case (Cons obj rest)
  show ?case
  proof (cases "chapterOf dec dp cn sm lang (clock i) nodeTotal i obj")
    case None
    then have "length (chapterEach dec dp cn sm lang clock nodeTotal (Suc i) rest) = Suc (length rest)"
      using Cons.prems by simp
    then show ?thesis
      using length_chapterEach_le [of dec dp cn sm lang clock nodeTotal "Suc i" rest] by simp
  next
    case (Some c)
    then have "length (chapterEach dec dp cn sm lang clock nodeTotal (Suc i) rest) = length rest"
      using Cons.prems by simp
    from Cons.IH [OF this]
    have ih: "map chap_sortingIndex (chapterEach dec dp cn sm lang clock nodeTotal (Suc i) rest) =
              map (\<lambda>k. int nodeTotal - int k) [Suc i..<Suc i + length rest]" .
    have u: "[i..<i + length (obj # rest)] = i # [Suc i..<Suc i + length rest]"
      by (simp add: upt_conv_Cons del: upt_Suc)
    show ?thesis
      unfolding u using Some ih chapterOf_sortingIndex [OF Some] by (simp del: upt_Suc)
  qed
qed

lemma pathAfterHost_Some:
  "pathAfterHost href = Some p \<Longrightarrow> p \<noteq> [] \<and> hd p = CHR ''/''"
proof -
  assume a: "pathAfterHost href = Some p"
  then obtain r where p: "p = dropWhile (\<lambda>c. c \<noteq> CHR ''/'') r" "p \<noteq> []"
    by (auto simp: pathAfterHost_def Let_def split: option.splits if_splits)
  then have "\<not> (hd p \<noteq> CHR ''/'')"
    using hd_dropWhile [of "\<lambda>c. c \<noteq> CHR ''/''" r] by simp
  then show ?thesis using p by simp
qed

lemma relativeChapterId_ok:
  assumes "href \<noteq> []" "\<not> startsWith href ''#''"
  shows "relativeChapterId href \<noteq> [] \<and> relativeChapterId href \<noteq> ''#''"
proof (cases "startsWith href ''http'' \<and> pathAfterHost href \<noteq> None")
  case True
  then obtain p where p: "pathAfterHost href = Some p" by auto
  then have "relativeChapterId href = p" using True by (simp add: relativeChapterId_def)
  moreover have "p \<noteq> [] \<and> hd p = CHR ''/''" using p by (rule pathAfterHost_Some)
  ultimately show ?thesis by auto
next
  case False
  then have "relativeChapterId href = href"
    by (auto simp: relativeChapterId_def split: option.splits)
  then show ?thesis using assms by (auto simp: startsWith_def)
qed

lemma chapterOf_None_iff:
  "chapterOf dec dp cn sm lang now nodeTotal i obj = None \<longleftrightarrow>
     (or_empty (chapter_a_href obj) = [] \<or> startsWith (or_empty (chapter_a_href obj)) ''#'' \<or>
      str_includes (or_empty (chapter_a_href obj)) ''{{'' \<or>
      str_includes (or_empty (chapter_a_href obj)) ''}}'')"
  using relativeChapterId_ok [of "or_empty (chapter_a_href obj)"]
  by (auto simp: chapterOf_def Let_def)

lemma chapterEach_sortingIndex:
  "map chap_sortingIndex (chapterEach dec dp cn sm lang clock nodeTotal i nodes) =
   map (\<lambda>(k, n). int nodeTotal - int k)
     (filter (\<lambda>(k, n). \<not> (or_empty (chapter_a_href n) = [] \<or>
                            startsWith (or_empty (chapter_a_href n)) ''#'' \<or>
                            str_includes (or_empty (chapter_a_href n)) ''{{'' \<or>
                            str_includes (or_empty (chapter_a_href n)) ''}}''))
        (enumerate i nodes))"
proof (induction nodes arbitrary: i)
  case Nil
  then show ?case by simp
next
  case (Cons obj rest)
  show ?case
  proof (cases "chapterOf dec dp cn sm lang (clock i) nodeTotal i obj")
    case None
    then show ?thesis
      using Cons.IH [of "Suc i"] chapterOf_None_iff [of dec dp cn sm lang "clock i" nodeTotal i obj]
      by simp
  next
    case (Some c)
    then have "\<not> (or_empty (chapter_a_href obj) = [] \<or>
                  startsWith (or_empty (chapter_a_href obj)) ''#'' \<or>
                  str_includes (or_empty (chapter_a_href obj)) ''{{'' \<or>
                  str_includes (or_empty (chapter_a_href obj)) ''}}'')"
      using chapterOf_None_iff [of dec dp cn sm lang "clock i" nodeTotal i obj] by simp
    then show ?thesis
      using Some Cons.IH [of "Suc i"] chapterOf_sortingIndex [OF Some] by simp
  qed
qed

lemma sorted_wrt_greater_distinct: "sorted_wrt (>) (xs :: int list) \<Longrightarrow> distinct xs"
  by (induction xs) auto

lemma distinct_countdown: "distinct (rev (map int [1..<Suc n]))"
  by (simp add: distinct_map del: upt_Suc)

text \<open>
  C2 as stated fails on site A: the index is the element's position counted from the end
  of the whole listing, so a dropped entry leaves a gap. Three entries, the second with the
  link \<open>#\<close>, give the indices 3 and 1, not 2 and 1.
\<close>

theorem sortingIndex_counterexample:
  "map chap_sortingIndex
     (MangaReaderParser_parseChapterList (\<lambda>s. s) (\<lambda>s. None) (\<lambda>s. 0 :: nat) (\<lambda>i. 0)
        [\<lparr>chapter_a_href = Some ''/solo-chapter-3/'', chapternum_text = ''Chapter 3'',
          chapterdate_text = []\<rparr>,
         \<lparr>chapter_a_href = Some ''#'', chapternum_text = ''Chapter 2'', chapterdate_text = []\<rparr>,
         \<lparr>chapter_a_href = Some ''/solo-chapter-1/'', chapternum_text = ''Chapter 1'',
          chapterdate_text = []\<rparr>]
        sampleManga ''en'') = [3, 1] \<and>
   rev (map int [1..<Suc 2]) = [2, 1]"
proof -
  have "rev (map int [1..<Suc 2]) = [2, 1]"
    by code_simp
  then show ?thesis
    by (simp add: MangaReaderParser_parseChapterList_def chapterOf_def or_empty_def
        startsWith_simps relativeChapterId_def trim_def parseDate_def del: upt_Suc)
qed

text \<open>
  C2, amended. In the list returned by \<open>parseChapterList\<close> the values of \<open>sortingIndex\<close> are
  unique and strictly falling, on both sites. On site B they are exactly count, ..., 1 for
  the count of chapters returned, whatever was dropped. On site A each is the size of the
  whole listing minus the document position of its entry: the list of the values is the
  list of \<open>size - k\<close> over the positions \<open>k\<close> (from 0, in document order) of the entries that
  are kept, those whose link is not empty, does not start with \<open>#\<close> and contains neither \<open>{{\<close>
  nor \<open>}}\<close>. So each value lies between 1 and that size, and the values are count, ..., 1
  when no entry was dropped.
\<close>

theorem sortingIndex_unique:
  "sorted_wrt (>) (map chap_sortingIndex
      (MangaReaderParser_parseChapterList dec dateParse chapNumOf clock nodeArray sourceManga language)) \<and>
   distinct (map chap_sortingIndex
      (MangaReaderParser_parseChapterList dec dateParse chapNumOf clock nodeArray sourceManga language)) \<and>
   (\<forall>x \<in> set (map chap_sortingIndex
      (MangaReaderParser_parseChapterList dec dateParse chapNumOf clock nodeArray sourceManga language)).
      1 \<le> x \<and> x \<le> int (length nodeArray)) \<and>
   (length (MangaReaderParser_parseChapterList dec dateParse chapNumOf clock nodeArray sourceManga language)
      = length nodeArray \<longrightarrow>
    map chap_sortingIndex
      (MangaReaderParser_parseChapterList dec dateParse chapNumOf clock nodeArray sourceManga language) =
    rev (map int [1..<Suc (length
      (MangaReaderParser_parseChapterList dec dateParse chapNumOf clock nodeArray sourceManga language))])) \<and>
   map chap_sortingIndex
      (MangaReaderParser_parseChapterList dec dateParse chapNumOf clock nodeArray sourceManga language) =
     map (\<lambda>(k, n). int (length nodeArray) - int k)
       (filter (\<lambda>(k, n). \<not> (or_empty (chapter_a_href n) = [] \<or>
                              startsWith (or_empty (chapter_a_href n)) ''#'' \<or>
                              str_includes (or_empty (chapter_a_href n)) ''{{'' \<or>
                              str_includes (or_empty (chapter_a_href n)) ''}}''))
          (enumerate 0 nodeArray)) \<and>
   map chap_sortingIndex (ZizParser_parseChapterList dec dateParse clock items sourceManga language) =
     rev (map int [1..<Suc (length
       (ZizParser_parseChapterList dec dateParse clock items sourceManga language))]) \<and>
   sorted_wrt (>) (map chap_sortingIndex
      (ZizParser_parseChapterList dec dateParse clock items sourceManga language)) \<and>
   distinct (map chap_sortingIndex
      (ZizParser_parseChapterList dec dateParse clock items sourceManga language))"
proof -
  let ?A = "MangaReaderParser_parseChapterList dec dateParse chapNumOf clock nodeArray sourceManga language"
  let ?B = "ZizParser_parseChapterList dec dateParse clock items sourceManga language"
  have a1: "sorted_wrt (>) (map chap_sortingIndex ?A)"
    unfolding MangaReaderParser_parseChapterList_def by (rule chapterEach_decreasing)
  then have a2: "distinct (map chap_sortingIndex ?A)"
    by (rule sorted_wrt_greater_distinct)
  have a3: "\<forall>x \<in> set (map chap_sortingIndex ?A). 1 \<le> x \<and> x \<le> int (length nodeArray)"
    unfolding MangaReaderParser_parseChapterList_def
    using chapterEach_bounds [of _ dec dateParse chapNumOf sourceManga language clock
        "length nodeArray" 0 nodeArray]
    by fastforce
  have a4: "map chap_sortingIndex ?A = rev (map int [1..<Suc (length ?A)])"
    if "length ?A = length nodeArray"
  proof -
    have "map chap_sortingIndex ?A =
          map (\<lambda>k. int (length nodeArray) - int k) [0..<0 + length nodeArray]"
      using that unfolding MangaReaderParser_parseChapterList_def by (rule chapterEach_full)
    then show ?thesis
      using that by (simp only: countdown add_0)
  qed
  have a5: "map chap_sortingIndex ?A =
     map (\<lambda>(k, n). int (length nodeArray) - int k)
       (filter (\<lambda>(k, n). \<not> (or_empty (chapter_a_href n) = [] \<or>
                              startsWith (or_empty (chapter_a_href n)) ''#'' \<or>
                              str_includes (or_empty (chapter_a_href n)) ''{{'' \<or>
                              str_includes (or_empty (chapter_a_href n)) ''}}''))
          (enumerate 0 nodeArray))"
    unfolding MangaReaderParser_parseChapterList_def by (rule chapterEach_sortingIndex)
  have b1: "map chap_sortingIndex ?B = rev (map int [1..<Suc (length ?B)])"
    unfolding ZizParser_parseChapterList_def
    by (simp only: sortingIndex_reassign length_reassign)
  have b2: "distinct (map chap_sortingIndex ?B)"
    by (simp only: b1 distinct_countdown)
  have "sorted_wrt (<) (map int [1..<Suc (length ?B)])"
    by (simp add: sorted_wrt_map del: upt_Suc)
  then have b3: "sorted_wrt (>) (map chap_sortingIndex ?B)"
    by (simp only: b1 sorted_wrt_rev)
  show ?thesis
    using a1 a2 a3 a4 a5 b1 b2 b3 by blast
qed

theorem sortingIndex_unique_witness:
  "length (MangaReaderParser_parseChapterList (\<lambda>s. s) (\<lambda>s. None) (\<lambda>s. 0 :: nat) (\<lambda>i. 0)
        [\<lparr>chapter_a_href = Some ''/solo-chapter-3/'', chapternum_text = ''Chapter 3'',
          chapterdate_text = []\<rparr>,
         \<lparr>chapter_a_href = Some ''/solo-chapter-2/'', chapternum_text = ''Chapter 2'',
          chapterdate_text = []\<rparr>,
         \<lparr>chapter_a_href = Some ''/solo-chapter-1/'', chapternum_text = ''Chapter 1'',
          chapterdate_text = []\<rparr>]
        sampleManga ''en'') = 3 \<and>
   map chap_sortingIndex
     (MangaReaderParser_parseChapterList (\<lambda>s. s) (\<lambda>s. None) (\<lambda>s. 0 :: nat) (\<lambda>i. 0)
        [\<lparr>chapter_a_href = Some ''/solo-chapter-3/'', chapternum_text = ''Chapter 3'',
          chapterdate_text = []\<rparr>,
         \<lparr>chapter_a_href = Some ''/solo-chapter-2/'', chapternum_text = ''Chapter 2'',
          chapterdate_text = []\<rparr>,
         \<lparr>chapter_a_href = Some ''/solo-chapter-1/'', chapternum_text = ''Chapter 1'',
          chapterdate_text = []\<rparr>]
        sampleManga ''en'') = [3, 2, 1] \<and>
   map chap_sortingIndex
     (MangaReaderParser_parseChapterList (\<lambda>s. s) (\<lambda>s. None) (\<lambda>s. 0 :: nat) (\<lambda>i. 0)
        [\<lparr>chapter_a_href = Some ''/solo-chapter-3/'', chapternum_text = ''Chapter 3'',
          chapterdate_text = []\<rparr>,
         \<lparr>chapter_a_href = Some ''{{link}}'', chapternum_text = ''Chapter 2'',
          chapterdate_text = []\<rparr>,
         \<lparr>chapter_a_href = Some ''/solo-chapter-1/'', chapternum_text = ''Chapter 1'',
          chapterdate_text = []\<rparr>]
        sampleManga ''en'') = [3, 1] \<and>
   map chap_chapNum
     (ZizParser_parseChapterList (\<lambda>s. s) (\<lambda>s. None) (\<lambda>i. 0)
        [\<lparr>chapter_item_href = Some ''/reader/manga/peak/1/'', chapter_h3_text = ''Chapter 1'',
          chapter_p_text = ''3 days ago''\<rparr>,
         \<lparr>chapter_item_href = Some ''/reader/manga/peak/5/'', chapter_h3_text = ''Chapter 5'',
          chapter_p_text = ''1 hour ago''\<rparr>,
         \<lparr>chapter_item_href = Some ''/reader/manga/peak/3/'', chapter_h3_text = ''Chapter 3'',
          chapter_p_text = ''2 days ago''\<rparr>]
        sampleManga ''en'') = [5, 3, 1] \<and>
   map chap_sortingIndex
     (ZizParser_parseChapterList (\<lambda>s. s) (\<lambda>s. None) (\<lambda>i. 0)
        [\<lparr>chapter_item_href = Some ''/reader/manga/peak/1/'', chapter_h3_text = ''Chapter 1'',
          chapter_p_text = ''3 days ago''\<rparr>,
         \<lparr>chapter_item_href = Some ''/reader/manga/peak/5/'', chapter_h3_text = ''Chapter 5'',
          chapter_p_text = ''1 hour ago''\<rparr>,
         \<lparr>chapter_item_href = Some ''/reader/manga/peak/3/'', chapter_h3_text = ''Chapter 3'',
          chapter_p_text = ''2 days ago''\<rparr>]
        sampleManga ''en'') = [3, 2, 1]"
proof -
  let ?nodes = "[\<lparr>chapter_a_href = Some ''/solo-chapter-3/'', chapternum_text = ''Chapter 3'',
          chapterdate_text = []\<rparr>,
         \<lparr>chapter_a_href = Some ''/solo-chapter-2/'', chapternum_text = ''Chapter 2'',
          chapterdate_text = []\<rparr>,
         \<lparr>chapter_a_href = Some ''/solo-chapter-1/'', chapternum_text = ''Chapter 1'',
          chapterdate_text = []\<rparr>]"
  let ?items = "[\<lparr>chapter_item_href = Some ''/reader/manga/peak/1/'', chapter_h3_text = ''Chapter 1'',
          chapter_p_text = ''3 days ago''\<rparr>,
         \<lparr>chapter_item_href = Some ''/reader/manga/peak/5/'', chapter_h3_text = ''Chapter 5'',
          chapter_p_text = ''1 hour ago''\<rparr>,
         \<lparr>chapter_item_href = Some ''/reader/manga/peak/3/'', chapter_h3_text = ''Chapter 3'',
          chapter_p_text = ''2 days ago''\<rparr>]"
  let ?gapped = "[\<lparr>chapter_a_href = Some ''/solo-chapter-3/'', chapternum_text = ''Chapter 3'',
          chapterdate_text = []\<rparr>,
         \<lparr>chapter_a_href = Some ''{{link}}'', chapternum_text = ''Chapter 2'',
          chapterdate_text = []\<rparr>,
         \<lparr>chapter_a_href = Some ''/solo-chapter-1/'', chapternum_text = ''Chapter 1'',
          chapterdate_text = []\<rparr>]"
  let ?G = "MangaReaderParser_parseChapterList (\<lambda>s. s) (\<lambda>s. None) (\<lambda>s. 0 :: nat) (\<lambda>i. 0)
              ?gapped sampleManga ''en''"
  let ?A = "MangaReaderParser_parseChapterList (\<lambda>s. s) (\<lambda>s. None) (\<lambda>s. 0 :: nat) (\<lambda>i. 0)
              ?nodes sampleManga ''en''"
  let ?B = "ZizParser_parseChapterList (\<lambda>s. s) (\<lambda>s. None) (\<lambda>i. 0) ?items sampleManga ''en''"
  note w = sortingIndex_unique [of "\<lambda>s. s" "\<lambda>s. None" "\<lambda>s. 0 :: nat" "\<lambda>i. 0" ?nodes sampleManga
      "''en''" ?items]
  note g = sortingIndex_unique [of "\<lambda>s. s" "\<lambda>s. None" "\<lambda>s. 0 :: nat" "\<lambda>i. 0" ?gapped sampleManga
      "''en''" "[]"]
  have kept: "map (\<lambda>(k, n). int (length ?gapped) - int k)
       (filter (\<lambda>(k, n). \<not> (or_empty (chapter_a_href n) = [] \<or>
                              startsWith (or_empty (chapter_a_href n)) ''#'' \<or>
                              str_includes (or_empty (chapter_a_href n)) ''{{'' \<or>
                              str_includes (or_empty (chapter_a_href n)) ''}}''))
          (enumerate 0 ?gapped)) = [3, 1]"
    by code_simp
  have "map chap_sortingIndex ?G =
     map (\<lambda>(k, n). int (length ?gapped) - int k)
       (filter (\<lambda>(k, n). \<not> (or_empty (chapter_a_href n) = [] \<or>
                              startsWith (or_empty (chapter_a_href n)) ''#'' \<or>
                              str_includes (or_empty (chapter_a_href n)) ''{{'' \<or>
                              str_includes (or_empty (chapter_a_href n)) ''}}''))
          (enumerate 0 ?gapped))"
    using g by blast
  then have sg: "map chap_sortingIndex ?G = [3, 1]"
    by (simp only: kept)
  have la: "length ?A = 3"
    by (simp add: MangaReaderParser_parseChapterList_def chapterOf_def or_empty_def
        startsWith_simps relativeChapterId_def trim_def parseDate_def)
  have nb: "map chap_chapNum ?B = [5, 3, 1]"
    by code_simp
  then have lb: "length ?B = 3"
    using length_map [of chap_chapNum ?B] by simp
  have r: "rev (map int [1..<Suc 3]) = [3, 2, 1]"
    by code_simp
  have "length ?A = length ?nodes"
    using la by simp
  then have "map chap_sortingIndex ?A = rev (map int [1..<Suc (length ?A)])"
    using w by blast
  then have sa: "map chap_sortingIndex ?A = [3, 2, 1]"
    by (simp only: la r)
  have "map chap_sortingIndex ?B = rev (map int [1..<Suc (length ?B)])"
    using w by blast
  then have sb: "map chap_sortingIndex ?B = [3, 2, 1]"
    by (simp only: lb r)
  show ?thesis
    using la sa sg nb sb by blast
qed

lemma chapterOf_chapterId:
  "chapterOf dec dp cn sm lang now nodeTotal i obj = Some c \<Longrightarrow>
   chap_chapterId c = relativeChapterId (or_empty (chapter_a_href obj))"
  by (auto simp: chapterOf_def Let_def split: if_splits)

lemma chapterEach_chapterIds:
  "map chap_chapterId (chapterEach dec dp cn sm lang clock nodeTotal i nodes) =
   map (\<lambda>n. relativeChapterId (or_empty (chapter_a_href n)))
     (filter (\<lambda>n. \<not> (or_empty (chapter_a_href n) = [] \<or>
                       startsWith (or_empty (chapter_a_href n)) ''#'' \<or>
                       str_includes (or_empty (chapter_a_href n)) ''{{'' \<or>
                       str_includes (or_empty (chapter_a_href n)) ''}}'')) nodes)"
proof (induction nodes arbitrary: i)
  case Nil
  then show ?case by simp
next
  case (Cons obj rest)
  show ?case
  proof (cases "chapterOf dec dp cn sm lang (clock i) nodeTotal i obj")
    case None
    then show ?thesis
      using Cons.IH [of "Suc i"] chapterOf_None_iff [of dec dp cn sm lang "clock i" nodeTotal i obj]
      by simp
  next
    case (Some c)
    then have "\<not> (or_empty (chapter_a_href obj) = [] \<or>
                  startsWith (or_empty (chapter_a_href obj)) ''#'' \<or>
                  str_includes (or_empty (chapter_a_href obj)) ''{{'' \<or>
                  str_includes (or_empty (chapter_a_href obj)) ''}}'')"
      using chapterOf_None_iff [of dec dp cn sm lang "clock i" nodeTotal i obj] by simp
    then show ?thesis
      using Some Cons.IH [of "Suc i"] chapterOf_chapterId [OF Some] by simp
  qed
qed

lemma ensureTrailingSlash_ok:
  "ensureTrailingSlash u \<noteq> [] \<and> ensureTrailingSlash u \<noteq> ''#''"
proof (cases "endsWith u ''/''")
  case True
  then have "CHR ''/'' \<in> set u" by (rule endsWith_slash)
  then show ?thesis using True by (auto simp: ensureTrailingSlash_def)
next
  case False
  then show ?thesis by (auto simp: ensureTrailingSlash_def append_eq_Cons_conv)
qed

lemma zizChapterOf_None_iff:
  "zizChapterOf dec dp sm lang now cl obj = None \<longleftrightarrow>
     (or_empty (chapter_item_href obj) = [] \<or> startsWith (or_empty (chapter_item_href obj)) ''#'')"
  using ensureTrailingSlash_ok [of "relativeChapterId (or_empty (chapter_item_href obj))"]
  by (auto simp: zizChapterOf_def Let_def split: prod.splits)

lemma zizChapterOf_chapterId:
  "zizChapterOf dec dp sm lang now cl obj = Some c \<Longrightarrow>
   chap_chapterId c = ensureTrailingSlash (relativeChapterId (or_empty (chapter_item_href obj)))"
  by (auto simp: zizChapterOf_def Let_def split: if_splits prod.splits)

lemma zizChapterEach_chapterIds:
  "map chap_chapterId (zizChapterEach dec dp sm lang clock i nodes chapters) =
   map chap_chapterId chapters @
   map (\<lambda>n. ensureTrailingSlash (relativeChapterId (or_empty (chapter_item_href n))))
     (filter (\<lambda>n. \<not> (or_empty (chapter_item_href n) = [] \<or>
                       startsWith (or_empty (chapter_item_href n)) ''#'')) nodes)"
proof (induction nodes arbitrary: i chapters)
  case Nil
  then show ?case by simp
next
  case (Cons obj rest)
  show ?case
  proof (cases "zizChapterOf dec dp sm lang (clock i) (length chapters) obj")
    case None
    then show ?thesis
      using Cons.IH [of "Suc i" chapters]
        zizChapterOf_None_iff [of dec dp sm lang "clock i" "length chapters" obj]
      by simp
  next
    case (Some c)
    then have "\<not> (or_empty (chapter_item_href obj) = [] \<or>
                  startsWith (or_empty (chapter_item_href obj)) ''#'')"
      using zizChapterOf_None_iff [of dec dp sm lang "clock i" "length chapters" obj] by simp
    then show ?thesis
      using Some Cons.IH [of "Suc i" "chapters @ [c]"] zizChapterOf_chapterId [OF Some] by simp
  qed
qed

lemma reassign_chapterIds:
  "map chap_chapterId (reassignSortingIndex cs) = map chap_chapterId cs"
proof -
  have "map chap_chapterId (reassignSortingIndex cs) = map (chap_chapterId \<circ> snd) (enumerate 0 cs)"
    by (simp add: reassignSortingIndex_def case_prod_beta comp_def)
  also have "\<dots> = map chap_chapterId (map snd (enumerate 0 cs))"
    by (simp del: map_snd_enumerate)
  finally show ?thesis by simp
qed

lemma ZizParser_chapterIds:
  "mset (map chap_chapterId (ZizParser_parseChapterList dec dp clock items sm lang)) =
   mset (map (\<lambda>n. ensureTrailingSlash (relativeChapterId (or_empty (chapter_item_href n))))
     (filter (\<lambda>n. \<not> (or_empty (chapter_item_href n) = [] \<or>
                       startsWith (or_empty (chapter_item_href n)) ''#'')) items))"
proof -
  have "mset (map chap_chapterId (ZizParser_parseChapterList dec dp clock items sm lang)) =
        mset (map chap_chapterId (sortByChapNumDesc (zizChapterEach dec dp sm lang clock 0 items [])))"
    by (simp only: ZizParser_parseChapterList_def reassign_chapterIds)
  also have "\<dots> = mset (map chap_chapterId (zizChapterEach dec dp sm lang clock 0 items []))"
    by (simp add: sortByChapNumDesc_def)
  finally show ?thesis
    by (simp only: zizChapterEach_chapterIds list.map append_Nil)
qed

text \<open>
  C3 as stated fails in both directions. Site A also drops a link that only starts with
  \<open>#\<close>, such as \<open>#top\<close>, which is not empty, not \<open>#\<close> alone and has no placeholder. Site B
  has no placeholder test and keeps a link that contains \<open>{{\<close> and \<open>}}\<close>.
\<close>

theorem invalid_href_counterexample:
  "MangaReaderParser_parseChapterList (\<lambda>s. s) (\<lambda>s. None) (\<lambda>s. 0 :: nat) (\<lambda>i. 0)
     [\<lparr>chapter_a_href = Some ''#top'', chapternum_text = ''Chapter 1'', chapterdate_text = []\<rparr>]
     sampleManga ''en'' = [] \<and>
   \<not> str_includes ''#top'' ''{{'' \<and> \<not> str_includes ''#top'' ''}}'' \<and>
   str_includes ''/reader/manga/peak/{{n}}/'' ''{{'' \<and>
   map chap_chapterId
     (ZizParser_parseChapterList (\<lambda>s. s) (\<lambda>s. None) (\<lambda>i. 0)
        [\<lparr>chapter_item_href = Some ''/reader/manga/peak/{{n}}/'', chapter_h3_text = ''Chapter'',
          chapter_p_text = []\<rparr>]
        sampleManga ''en'') = [''/reader/manga/peak/{{n}}/'']"
proof -
  have a: "MangaReaderParser_parseChapterList (\<lambda>s. s) (\<lambda>s. None) (\<lambda>s. 0 :: nat) (\<lambda>i. 0)
     [\<lparr>chapter_a_href = Some ''#top'', chapternum_text = ''Chapter 1'', chapterdate_text = []\<rparr>]
     sampleManga ''en'' = []"
    by (simp add: MangaReaderParser_parseChapterList_def chapterOf_def or_empty_def
        startsWith_simps)
  have b: "\<not> str_includes ''#top'' ''{{'' \<and> \<not> str_includes ''#top'' ''}}''"
    by (simp add: startsWith_simps)
  have c: "str_includes ''/reader/manga/peak/{{n}}/'' ''{{''"
    by (simp add: startsWith_simps)
  have d: "map chap_chapterId
     (ZizParser_parseChapterList (\<lambda>s. s) (\<lambda>s. None) (\<lambda>i. 0)
        [\<lparr>chapter_item_href = Some ''/reader/manga/peak/{{n}}/'', chapter_h3_text = ''Chapter'',
          chapter_p_text = []\<rparr>]
        sampleManga ''en'') = [''/reader/manga/peak/{{n}}/'']"
    by code_simp
  show ?thesis
    using a b c d by blast
qed

text \<open>
  C3, amended. \<open>parseChapterList\<close> always returns a list. On site A it drops exactly the
  entries whose link is empty, starts with \<open>#\<close>, or contains \<open>{{\<close> or \<open>}}\<close>, and keeps all
  others in document order. On site B it drops exactly the entries whose link is empty or
  starts with \<open>#\<close> and keeps all others (placeholders included), in the order of the sort.
  So the length of the output is the number of entries that pass the site's test: five
  entries with one bad one give four.
\<close>

theorem invalid_href_dropped:
  "map chap_chapterId
     (MangaReaderParser_parseChapterList dec dateParse chapNumOf clock nodeArray sourceManga language) =
   map (\<lambda>n. relativeChapterId (or_empty (chapter_a_href n)))
     (filter (\<lambda>n. \<not> (or_empty (chapter_a_href n) = [] \<or>
                       startsWith (or_empty (chapter_a_href n)) ''#'' \<or>
                       str_includes (or_empty (chapter_a_href n)) ''{{'' \<or>
                       str_includes (or_empty (chapter_a_href n)) ''}}'')) nodeArray) \<and>
   length
     (MangaReaderParser_parseChapterList dec dateParse chapNumOf clock nodeArray sourceManga language) =
   length
     (filter (\<lambda>n. \<not> (or_empty (chapter_a_href n) = [] \<or>
                       startsWith (or_empty (chapter_a_href n)) ''#'' \<or>
                       str_includes (or_empty (chapter_a_href n)) ''{{'' \<or>
                       str_includes (or_empty (chapter_a_href n)) ''}}'')) nodeArray) \<and>
   mset (map chap_chapterId
     (ZizParser_parseChapterList dec dateParse clock items sourceManga language)) =
   mset (map (\<lambda>n. ensureTrailingSlash (relativeChapterId (or_empty (chapter_item_href n))))
     (filter (\<lambda>n. \<not> (or_empty (chapter_item_href n) = [] \<or>
                       startsWith (or_empty (chapter_item_href n)) ''#'')) items)) \<and>
   length (ZizParser_parseChapterList dec dateParse clock items sourceManga language) =
   length
     (filter (\<lambda>n. \<not> (or_empty (chapter_item_href n) = [] \<or>
                       startsWith (or_empty (chapter_item_href n)) ''#'')) items)"
proof -
  let ?A = "MangaReaderParser_parseChapterList dec dateParse chapNumOf clock nodeArray sourceManga language"
  let ?B = "ZizParser_parseChapterList dec dateParse clock items sourceManga language"
  let ?fa = "filter (\<lambda>n. \<not> (or_empty (chapter_a_href n) = [] \<or>
                       startsWith (or_empty (chapter_a_href n)) ''#'' \<or>
                       str_includes (or_empty (chapter_a_href n)) ''{{'' \<or>
                       str_includes (or_empty (chapter_a_href n)) ''}}'')) nodeArray"
  let ?fb = "filter (\<lambda>n. \<not> (or_empty (chapter_item_href n) = [] \<or>
                       startsWith (or_empty (chapter_item_href n)) ''#'')) items"
  have a: "map chap_chapterId ?A = map (\<lambda>n. relativeChapterId (or_empty (chapter_a_href n))) ?fa"
    unfolding MangaReaderParser_parseChapterList_def by (rule chapterEach_chapterIds)
  have "length (map chap_chapterId ?A) = length ?fa"
    by (simp only: a length_map)
  then have la: "length ?A = length ?fa"
    by (simp only: length_map)
  have b: "mset (map chap_chapterId ?B) =
           mset (map (\<lambda>n. ensureTrailingSlash (relativeChapterId (or_empty (chapter_item_href n)))) ?fb)"
    by (rule ZizParser_chapterIds)
  have "size (mset (map chap_chapterId ?B)) = length ?fb"
    by (simp only: b size_mset length_map)
  then have lb: "length ?B = length ?fb"
    by (simp only: size_mset length_map)
  show ?thesis
    using a la b lb by blast
qed

theorem invalid_href_dropped_witness:
  "length
     (filter (\<lambda>n. \<not> (or_empty (chapter_a_href n) = [] \<or>
                       startsWith (or_empty (chapter_a_href n)) ''#'' \<or>
                       str_includes (or_empty (chapter_a_href n)) ''{{'' \<or>
                       str_includes (or_empty (chapter_a_href n)) ''}}''))
        [\<lparr>chapter_a_href = Some ''/c5/'', chapternum_text = [], chapterdate_text = []\<rparr>,
         \<lparr>chapter_a_href = Some ''/c4/'', chapternum_text = [], chapterdate_text = []\<rparr>,
         \<lparr>chapter_a_href = Some ''{{link}}'', chapternum_text = [], chapterdate_text = []\<rparr>,
         \<lparr>chapter_a_href = Some ''/c2/'', chapternum_text = [], chapterdate_text = []\<rparr>,
         \<lparr>chapter_a_href = Some ''/c1/'', chapternum_text = [], chapterdate_text = []\<rparr>]) = 4 \<and>
   length
     (MangaReaderParser_parseChapterList (\<lambda>s. s) (\<lambda>s. None) (\<lambda>s. 0 :: nat) (\<lambda>i. 0)
        [\<lparr>chapter_a_href = Some ''/c5/'', chapternum_text = [], chapterdate_text = []\<rparr>,
         \<lparr>chapter_a_href = Some ''/c4/'', chapternum_text = [], chapterdate_text = []\<rparr>,
         \<lparr>chapter_a_href = Some ''{{link}}'', chapternum_text = [], chapterdate_text = []\<rparr>,
         \<lparr>chapter_a_href = Some ''/c2/'', chapternum_text = [], chapterdate_text = []\<rparr>,
         \<lparr>chapter_a_href = Some ''/c1/'', chapternum_text = [], chapterdate_text = []\<rparr>]
        sampleManga ''en'') = 4 \<and>
   length
     (ZizParser_parseChapterList (\<lambda>s. s) (\<lambda>s. None) (\<lambda>i. 0)
        [\<lparr>chapter_item_href = Some ''/c5/'', chapter_h3_text = [], chapter_p_text = []\<rparr>,
         \<lparr>chapter_item_href = Some ''/c4/'', chapter_h3_text = [], chapter_p_text = []\<rparr>,
         \<lparr>chapter_item_href = None, chapter_h3_text = [], chapter_p_text = []\<rparr>,
         \<lparr>chapter_item_href = Some ''/c2/'', chapter_h3_text = [], chapter_p_text = []\<rparr>,
         \<lparr>chapter_item_href = Some ''/c1/'', chapter_h3_text = [], chapter_p_text = []\<rparr>]
        sampleManga ''en'') = 4"
proof -
  let ?nodes = "[\<lparr>chapter_a_href = Some ''/c5/'', chapternum_text = [], chapterdate_text = []\<rparr>,
         \<lparr>chapter_a_href = Some ''/c4/'', chapternum_text = [], chapterdate_text = []\<rparr>,
         \<lparr>chapter_a_href = Some ''{{link}}'', chapternum_text = [], chapterdate_text = []\<rparr>,
         \<lparr>chapter_a_href = Some ''/c2/'', chapternum_text = [], chapterdate_text = []\<rparr>,
         \<lparr>chapter_a_href = Some ''/c1/'', chapternum_text = [], chapterdate_text = []\<rparr>]"
  let ?items = "[\<lparr>chapter_item_href = Some ''/c5/'', chapter_h3_text = [], chapter_p_text = []\<rparr>,
         \<lparr>chapter_item_href = Some ''/c4/'', chapter_h3_text = [], chapter_p_text = []\<rparr>,
         \<lparr>chapter_item_href = None, chapter_h3_text = [], chapter_p_text = []\<rparr>,
         \<lparr>chapter_item_href = Some ''/c2/'', chapter_h3_text = [], chapter_p_text = []\<rparr>,
         \<lparr>chapter_item_href = Some ''/c1/'', chapter_h3_text = [], chapter_p_text = []\<rparr>]"
  note w = invalid_href_dropped [of "\<lambda>s. s" "\<lambda>s. None" "\<lambda>s. 0 :: nat" "\<lambda>i. 0" ?nodes sampleManga
      "''en''" ?items]
  have fa: "length
     (filter (\<lambda>n. \<not> (or_empty (chapter_a_href n) = [] \<or>
                       startsWith (or_empty (chapter_a_href n)) ''#'' \<or>
                       str_includes (or_empty (chapter_a_href n)) ''{{'' \<or>
                       str_includes (or_empty (chapter_a_href n)) ''}}'')) ?nodes) = 4"
    by (simp add: or_empty_def startsWith_simps)
  have fb: "length
     (filter (\<lambda>n. \<not> (or_empty (chapter_item_href n) = [] \<or>
                       startsWith (or_empty (chapter_item_href n)) ''#'')) ?items) = 4"
    by (simp add: or_empty_def startsWith_simps)
  have la: "length (MangaReaderParser_parseChapterList (\<lambda>s. s) (\<lambda>s. None) (\<lambda>s. 0 :: nat) (\<lambda>i. 0)
              ?nodes sampleManga ''en'') = 4"
    using w fa by (simp only:)
  have lb: "length (ZizParser_parseChapterList (\<lambda>s. s) (\<lambda>s. None) (\<lambda>i. 0) ?items
              sampleManga ''en'') = 4"
    using w fb by (simp only:)
  show ?thesis
    using fa la lb by blast
qed

lemma last_dropWhile: "dropWhile P xs \<noteq> [] \<Longrightarrow> last (dropWhile P xs) = last xs"
  by (induction xs) (auto split: if_splits)

lemma dropWhile_id: "xs = [] \<or> \<not> P (hd xs) \<Longrightarrow> dropWhile P xs = xs"
  by (cases xs) auto

lemma trim_idem: "trim (trim s) = trim s"
proof (cases "trim s = []")
  case True
  have "trim [] = []" by (simp add: trim_def)
  then show ?thesis by (simp only: True)
next
  case False
  define a where "a = dropWhile isWhiteSpace s"
  define b where "b = dropWhile isWhiteSpace (rev a)"
  have t: "trim s = rev b" by (simp add: trim_def a_def b_def)
  have bne: "b \<noteq> []" using False t by simp
  then have ane: "a \<noteq> []" by (auto simp: b_def)
  have hb: "\<not> isWhiteSpace (hd b)"
    using bne unfolding b_def by (rule hd_dropWhile)
  have ha: "\<not> isWhiteSpace (hd a)"
    using ane unfolding a_def by (rule hd_dropWhile)
  have "last b = last (rev a)"
    using bne unfolding b_def by (rule last_dropWhile)
  then have "last b = hd a" using ane by (simp add: last_rev)
  then have "hd (rev b) = hd a" using bne by (simp add: hd_rev)
  then have 1: "dropWhile isWhiteSpace (rev b) = rev b"
    using ha by (intro dropWhile_id) simp
  have 2: "dropWhile isWhiteSpace b = b"
    using hb by (intro dropWhile_id) simp
  show ?thesis
    unfolding t by (simp add: trim_def 1 2)
qed

lemma parseDate_absolute:
  assumes "hasAbsoluteDate dateParse obj"
  shows "parseDate a dateParse (trim (chapterdate_text obj)) =
         parseDate b dateParse (trim (chapterdate_text obj))"
  using assms
  by (auto simp: hasAbsoluteDate_def parseDate_def Let_def trim_idem split: option.splits)

lemma chapterOf_withoutDate:
  "map_option withoutDate (chapterOf dec dp cn sm lang a nodeTotal i obj) =
   map_option withoutDate (chapterOf dec dp cn sm lang b nodeTotal i obj)"
  by (simp add: chapterOf_def Let_def withoutDate_def)

lemma chapterOf_absolute:
  assumes "hasAbsoluteDate dp obj"
  shows "chapterOf dec dp cn sm lang a nodeTotal i obj = chapterOf dec dp cn sm lang b nodeTotal i obj"
  using parseDate_absolute [OF assms, of a b]
  by (simp add: chapterOf_def Let_def)

lemma chapterEach_withoutDate:
  "map withoutDate (chapterEach dec dp cn sm lang clock1 nodeTotal i nodes) =
   map withoutDate (chapterEach dec dp cn sm lang clock2 nodeTotal i nodes)"
proof (induction nodes arbitrary: i)
  case Nil
  then show ?case by simp
next
  case (Cons obj rest)
  show ?case
    using Cons.IH [of "Suc i"]
      chapterOf_withoutDate [of dec dp cn sm lang "clock1 i" nodeTotal i obj "clock2 i"]
    by (cases "chapterOf dec dp cn sm lang (clock1 i) nodeTotal i obj";
        cases "chapterOf dec dp cn sm lang (clock2 i) nodeTotal i obj") simp_all
qed

lemma chapterEach_absolute:
  "\<forall>n \<in> set nodes. hasAbsoluteDate dp n \<Longrightarrow>
   chapterEach dec dp cn sm lang clock1 nodeTotal i nodes =
   chapterEach dec dp cn sm lang clock2 nodeTotal i nodes"
proof (induction nodes arbitrary: i)
  case Nil
  then show ?case by simp
next
  case (Cons obj rest)
  then have "hasAbsoluteDate dp obj" by simp
  from chapterOf_absolute [OF this, of dec cn sm lang "clock1 i" nodeTotal i "clock2 i"]
  show ?case
    using Cons by (simp split: option.splits)
qed

lemma relativeDateAt_nonempty: "relativeDateAt s = Some m \<Longrightarrow> m \<noteq> []"
proof -
  assume a: "relativeDateAt s = Some m"
  then have "takeWhile isDigit s \<noteq> []"
    by (auto simp: relativeDateAt_def Let_def split: option.splits if_splits)
  then have "s \<noteq> []" by auto
  moreover obtain k where "m = take k s" "k \<ge> 3"
    using a by (auto simp: relativeDateAt_def Let_def split: option.splits if_splits)
  ultimately show ?thesis by auto
qed

lemma firstMatch_Some: "firstMatch at s = Some m \<Longrightarrow> \<exists>t. at t = Some m"
  by (induction s) (auto split: option.splits)

lemma zizChapterOf_withoutDate:
  "map_option withoutDate (zizChapterOf dec dp sm lang a cl obj) =
   map_option withoutDate (zizChapterOf dec dp sm lang b cl obj)"
  by (simp add: zizChapterOf_def Let_def withoutDate_def split: prod.splits)

lemma zizChapterEach_withoutDate:
  "map withoutDate acc1 = map withoutDate acc2 \<Longrightarrow>
   map withoutDate (zizChapterEach dec dp sm lang clock1 i nodes acc1) =
   map withoutDate (zizChapterEach dec dp sm lang clock2 i nodes acc2)"
proof (induction nodes arbitrary: i acc1 acc2)
  case Nil
  then show ?case by simp
next
  case (Cons obj rest)
  have l: "length acc1 = length acc2"
    using Cons.prems by (metis length_map)
  show ?case
  proof (cases "zizChapterOf dec dp sm lang (clock1 i) (length acc1) obj")
    case None
    then have "zizChapterOf dec dp sm lang (clock2 i) (length acc2) obj = None"
      using zizChapterOf_withoutDate [of dec dp sm lang "clock1 i" "length acc1" obj "clock2 i"] l
      by simp
    with None show ?thesis using Cons.IH [OF Cons.prems] by simp
  next
    case (Some c)
    then obtain d where d: "zizChapterOf dec dp sm lang (clock2 i) (length acc2) obj = Some d"
      "withoutDate c = withoutDate d"
      using zizChapterOf_withoutDate [of dec dp sm lang "clock1 i" "length acc1" obj "clock2 i"] l
      by (cases "zizChapterOf dec dp sm lang (clock2 i) (length acc2) obj") auto
    have "map withoutDate (acc1 @ [c]) = map withoutDate (acc2 @ [d])"
      using Cons.prems d(2) by simp
    from Cons.IH [OF this] show ?thesis using Some d(1) by simp
  qed
qed

lemma insort_key_map:
  assumes "\<And>x. f (g x) = f x"
  shows "insort_key f (g x) (map g xs) = map g (insort_key f x xs)"
  using assms by (induction xs) auto

lemma sort_key_map_invariant:
  assumes "\<And>x. f (g x) = f x"
  shows "sort_key f (map g xs) = map g (sort_key f xs)"
  using assms by (induction xs) (simp_all add: insort_key_map)

lemma sortByChapNumDesc_withoutDate:
  "sortByChapNumDesc (map withoutDate cs) = map withoutDate (sortByChapNumDesc cs)"
  unfolding sortByChapNumDesc_def
  by (rule sort_key_map_invariant) (simp add: withoutDate_def)

lemma map_enumerate_map:
  "map (\<lambda>(i, c). h i c) (enumerate n (map g cs)) = map (\<lambda>(i, c). h i (g c)) (enumerate n cs)"
  by (induction cs arbitrary: n) auto

lemma reassign_withoutDate:
  "reassignSortingIndex (map withoutDate cs) = map withoutDate (reassignSortingIndex cs)"
  by (simp add: reassignSortingIndex_def map_enumerate_map withoutDate_def case_prod_beta)

lemma zizChapterOf_publishDate:
  assumes "zizChapterOf dec dp sm lang now cl obj = Some c"
  shows "chap_publishDate c =
         (case firstMatch relativeDateAt (trim (chapter_p_text obj)) of
            None \<Rightarrow> now
          | Some m \<Rightarrow> (case dp m of None \<Rightarrow> now | Some t \<Rightarrow> t))"
proof -
  have "parseRelativeDate now dp
          (case firstMatch relativeDateAt (trim (chapter_p_text obj)) of Some m \<Rightarrow> m | None \<Rightarrow> []) =
        (case firstMatch relativeDateAt (trim (chapter_p_text obj)) of
            None \<Rightarrow> now
          | Some m \<Rightarrow> (case dp m of None \<Rightarrow> now | Some t \<Rightarrow> t))"
    by (auto simp: parseRelativeDate_def split: option.splits
        dest!: firstMatch_Some relativeDateAt_nonempty)
  then show ?thesis
    using assms by (auto simp: zizChapterOf_def Let_def split: if_splits prod.splits)
qed

lemma zizChapterEach_dated:
  "map (\<lambda>c. (chap_chapterId c, chap_publishDate c))
     (zizChapterEach dec dp sm lang clock i nodes chapters) =
   map (\<lambda>c. (chap_chapterId c, chap_publishDate c)) chapters @
   map (\<lambda>(k, n). (ensureTrailingSlash (relativeChapterId (or_empty (chapter_item_href n))),
                   (case firstMatch relativeDateAt (trim (chapter_p_text n)) of
                      None \<Rightarrow> clock k
                    | Some m \<Rightarrow> (case dp m of None \<Rightarrow> clock k | Some t \<Rightarrow> t))))
     (filter (\<lambda>(k, n). \<not> (or_empty (chapter_item_href n) = [] \<or>
                            startsWith (or_empty (chapter_item_href n)) ''#''))
        (enumerate i nodes))"
proof (induction nodes arbitrary: i chapters)
  case Nil
  then show ?case by simp
next
  case (Cons obj rest)
  show ?case
  proof (cases "zizChapterOf dec dp sm lang (clock i) (length chapters) obj")
    case None
    then show ?thesis
      using Cons.IH [of "Suc i" chapters]
        zizChapterOf_None_iff [of dec dp sm lang "clock i" "length chapters" obj]
      by simp
  next
    case (Some c)
    then have "\<not> (or_empty (chapter_item_href obj) = [] \<or>
                  startsWith (or_empty (chapter_item_href obj)) ''#'')"
      using zizChapterOf_None_iff [of dec dp sm lang "clock i" "length chapters" obj] by simp
    then show ?thesis
      using Some Cons.IH [of "Suc i" "chapters @ [c]"]
        zizChapterOf_publishDate [OF Some] zizChapterOf_chapterId [OF Some] by simp
  qed
qed

lemma reassign_dated:
  "map (\<lambda>c. (chap_chapterId c, chap_publishDate c)) (reassignSortingIndex cs) =
   map (\<lambda>c. (chap_chapterId c, chap_publishDate c)) cs"
proof -
  have "map (\<lambda>c. (chap_chapterId c, chap_publishDate c)) (reassignSortingIndex cs) =
        map ((\<lambda>c. (chap_chapterId c, chap_publishDate c)) \<circ> snd) (enumerate 0 cs)"
    by (simp add: reassignSortingIndex_def case_prod_beta comp_def)
  also have "\<dots> = map (\<lambda>c. (chap_chapterId c, chap_publishDate c)) (map snd (enumerate 0 cs))"
    by (simp del: map_snd_enumerate)
  finally show ?thesis by simp
qed

lemma ZizParser_dated:
  "mset (map (\<lambda>c. (chap_chapterId c, chap_publishDate c))
          (ZizParser_parseChapterList dec dp clock items sm lang)) =
   mset (map (\<lambda>(k, n). (ensureTrailingSlash (relativeChapterId (or_empty (chapter_item_href n))),
                   (case firstMatch relativeDateAt (trim (chapter_p_text n)) of
                      None \<Rightarrow> clock k
                    | Some m \<Rightarrow> (case dp m of None \<Rightarrow> clock k | Some t \<Rightarrow> t))))
     (filter (\<lambda>(k, n). \<not> (or_empty (chapter_item_href n) = [] \<or>
                            startsWith (or_empty (chapter_item_href n)) ''#''))
        (enumerate 0 items)))"
proof -
  have "mset (map (\<lambda>c. (chap_chapterId c, chap_publishDate c))
          (ZizParser_parseChapterList dec dp clock items sm lang)) =
        mset (map (\<lambda>c. (chap_chapterId c, chap_publishDate c))
          (sortByChapNumDesc (zizChapterEach dec dp sm lang clock 0 items [])))"
    by (simp only: ZizParser_parseChapterList_def reassign_dated)
  also have "\<dots> = mset (map (\<lambda>c. (chap_chapterId c, chap_publishDate c))
          (zizChapterEach dec dp sm lang clock 0 items []))"
    by (simp add: sortByChapNumDesc_def)
  finally show ?thesis
    by (simp only: zizChapterEach_dated list.map append_Nil)
qed

text \<open>
  C5 as stated fails for \<open>parseChapterList\<close>: the publish date of an entry whose date text is
  empty, relative or unparseable is the clock reading, so two runs on the same document and
  context at different times differ.
\<close>

theorem determinism_counterexample:
  "map chap_publishDate
     (MangaReaderParser_parseChapterList (\<lambda>s. s) (\<lambda>s. None) (\<lambda>s. 0 :: nat) (\<lambda>i. 1000)
        [\<lparr>chapter_a_href = Some ''/solo-chapter-1/'', chapternum_text = ''Chapter 1'',
          chapterdate_text = ''2 days ago''\<rparr>]
        sampleManga ''en'') = [1000] \<and>
   map chap_publishDate
     (MangaReaderParser_parseChapterList (\<lambda>s. s) (\<lambda>s. None) (\<lambda>s. 0 :: nat) (\<lambda>i. 2000)
        [\<lparr>chapter_a_href = Some ''/solo-chapter-1/'', chapternum_text = ''Chapter 1'',
          chapterdate_text = ''2 days ago''\<rparr>]
        sampleManga ''en'') = [2000] \<and>
   map chap_publishDate
     (ZizParser_parseChapterList (\<lambda>s. s) (\<lambda>s. None) (\<lambda>i. 1000)
        [\<lparr>chapter_item_href = Some ''/reader/manga/peak/1/'', chapter_h3_text = ''Chapter 1'',
          chapter_p_text = ''2 days ago''\<rparr>]
        sampleManga ''en'') = [1000] \<and>
   map chap_publishDate
     (ZizParser_parseChapterList (\<lambda>s. s) (\<lambda>s. None) (\<lambda>i. 2000)
        [\<lparr>chapter_item_href = Some ''/reader/manga/peak/1/'', chapter_h3_text = ''Chapter 1'',
          chapter_p_text = ''2 days ago''\<rparr>]
        sampleManga ''en'') = [2000]"
  by code_simp

text \<open>
  C5, amended. The result of \<open>parseChapterList\<close> is determined by the document, the context,
  the date parser of the host (\<open>new Date(text)\<close>, which depends on the host's implementation
  and time zone; one and the same function \<open>dateParse\<close> in both runs below) and the clock
  readings taken while it runs, not by the document and the context alone. On both sites
  every field other than \<open>publishDate\<close> is the same whatever the clock shows. On site A, when
  the date text of every entry is an absolute date (not empty, without \<open>ago\<close> and \<open>just now\<close>,
  and accepted by the date parser), two runs give identical outputs, \<open>publishDate\<close> included.
  On site B the date text itself never reaches the date parser, only a relative phrase
  (digits, \<open>day\<close>, \<open>hour\<close> or \<open>minute\<close>, \<open>ago\<close>) found in it: the \<open>publishDate\<close> of a returned
  chapter is the clock reading taken at its entry, unless the text contains such a phrase
  and the date parser accepts the phrase, and then it is the value parsed from the phrase.
  So an absolute date on site B, and every entry when the date parser rejects such phrases,
  has the clock reading for its \<open>publishDate\<close>.
\<close>

theorem parseChapterList_clock:
  "map withoutDate
     (MangaReaderParser_parseChapterList dec dateParse chapNumOf clock1 nodeArray sourceManga language) =
   map withoutDate
     (MangaReaderParser_parseChapterList dec dateParse chapNumOf clock2 nodeArray sourceManga language) \<and>
   map withoutDate (ZizParser_parseChapterList dec dateParse clock1 items sourceManga language) =
   map withoutDate (ZizParser_parseChapterList dec dateParse clock2 items sourceManga language) \<and>
   ((\<forall>n \<in> set nodeArray. hasAbsoluteDate dateParse n) \<longrightarrow>
      MangaReaderParser_parseChapterList dec dateParse chapNumOf clock1 nodeArray sourceManga language =
      MangaReaderParser_parseChapterList dec dateParse chapNumOf clock2 nodeArray sourceManga language) \<and>
   mset (map (\<lambda>c. (chap_chapterId c, chap_publishDate c))
          (ZizParser_parseChapterList dec dateParse clock1 items sourceManga language)) =
   mset (map (\<lambda>(k, n). (ensureTrailingSlash (relativeChapterId (or_empty (chapter_item_href n))),
                   (case firstMatch relativeDateAt (trim (chapter_p_text n)) of
                      None \<Rightarrow> clock1 k
                    | Some m \<Rightarrow> (case dateParse m of None \<Rightarrow> clock1 k | Some t \<Rightarrow> t))))
     (filter (\<lambda>(k, n). \<not> (or_empty (chapter_item_href n) = [] \<or>
                            startsWith (or_empty (chapter_item_href n)) ''#''))
        (enumerate 0 items)))"
proof -
  have a: "map withoutDate
     (MangaReaderParser_parseChapterList dec dateParse chapNumOf clock1 nodeArray sourceManga language) =
   map withoutDate
     (MangaReaderParser_parseChapterList dec dateParse chapNumOf clock2 nodeArray sourceManga language)"
    unfolding MangaReaderParser_parseChapterList_def by (rule chapterEach_withoutDate)
  have "map withoutDate (zizChapterEach dec dateParse sourceManga language clock1 0 items []) =
        map withoutDate (zizChapterEach dec dateParse sourceManga language clock2 0 items [])"
    by (rule zizChapterEach_withoutDate) simp
  then have b: "map withoutDate (ZizParser_parseChapterList dec dateParse clock1 items sourceManga language) =
   map withoutDate (ZizParser_parseChapterList dec dateParse clock2 items sourceManga language)"
    unfolding ZizParser_parseChapterList_def
    by (simp only: reassign_withoutDate [symmetric] sortByChapNumDesc_withoutDate [symmetric])
  have c: "MangaReaderParser_parseChapterList dec dateParse chapNumOf clock1 nodeArray sourceManga language =
      MangaReaderParser_parseChapterList dec dateParse chapNumOf clock2 nodeArray sourceManga language"
    if "\<forall>n \<in> set nodeArray. hasAbsoluteDate dateParse n"
    unfolding MangaReaderParser_parseChapterList_def using that by (rule chapterEach_absolute)
  have d: "mset (map (\<lambda>c. (chap_chapterId c, chap_publishDate c))
          (ZizParser_parseChapterList dec dateParse clock1 items sourceManga language)) =
   mset (map (\<lambda>(k, n). (ensureTrailingSlash (relativeChapterId (or_empty (chapter_item_href n))),
                   (case firstMatch relativeDateAt (trim (chapter_p_text n)) of
                      None \<Rightarrow> clock1 k
                    | Some m \<Rightarrow> (case dateParse m of None \<Rightarrow> clock1 k | Some t \<Rightarrow> t))))
     (filter (\<lambda>(k, n). \<not> (or_empty (chapter_item_href n) = [] \<or>
                            startsWith (or_empty (chapter_item_href n)) ''#''))
        (enumerate 0 items)))"
    by (rule ZizParser_dated)
  show ?thesis
    using a b c d by blast
qed

theorem parseChapterList_clock_witness:
  "hasAbsoluteDate (\<lambda>s. if s = ''May 1, 2024'' then Some 1714521600000 else None)
     \<lparr>chapter_a_href = Some ''/solo-chapter-1/'', chapternum_text = ''Chapter 1'',
      chapterdate_text = '' May 1, 2024 ''\<rparr> \<and>
   MangaReaderParser_parseChapterList (\<lambda>s. s)
     (\<lambda>s. if s = ''May 1, 2024'' then Some 1714521600000 else None) (\<lambda>s. 0 :: nat) (\<lambda>i. 1000)
     [\<lparr>chapter_a_href = Some ''/solo-chapter-1/'', chapternum_text = ''Chapter 1'',
       chapterdate_text = '' May 1, 2024 ''\<rparr>]
     sampleManga ''en'' =
   MangaReaderParser_parseChapterList (\<lambda>s. s)
     (\<lambda>s. if s = ''May 1, 2024'' then Some 1714521600000 else None) (\<lambda>s. 0 :: nat) (\<lambda>i. 2000)
     [\<lparr>chapter_a_href = Some ''/solo-chapter-1/'', chapternum_text = ''Chapter 1'',
       chapterdate_text = '' May 1, 2024 ''\<rparr>]
     sampleManga ''en'' \<and>
   firstMatch relativeDateAt (trim ''May 1, 2024'') = None \<and>
   mset (map (\<lambda>c. (chap_chapterId c, chap_publishDate c))
     (ZizParser_parseChapterList (\<lambda>s. s)
        (\<lambda>s. if s = ''May 1, 2024'' then Some 1714521600000 else None) (\<lambda>i. 1000 + int i)
        [\<lparr>chapter_item_href = Some ''/reader/manga/peak/1/'', chapter_h3_text = ''Chapter 1'',
          chapter_p_text = ''May 1, 2024''\<rparr>,
         \<lparr>chapter_item_href = Some ''#'', chapter_h3_text = ''Chapter 2'',
          chapter_p_text = ''May 2, 2024''\<rparr>,
         \<lparr>chapter_item_href = Some ''/reader/manga/peak/3/'', chapter_h3_text = ''Chapter 3'',
          chapter_p_text = ''2 days ago''\<rparr>]
        sampleManga ''en'')) =
   mset [(''/reader/manga/peak/1/'', 1000), (''/reader/manga/peak/3/'', 1002)]"
proof -
  let ?dp = "\<lambda>s. if s = ''May 1, 2024'' then Some (1714521600000 :: int) else None"
  let ?nodes = "[\<lparr>chapter_a_href = Some ''/solo-chapter-1/'', chapternum_text = ''Chapter 1'',
                  chapterdate_text = '' May 1, 2024 ''\<rparr>]"
  let ?items = "[\<lparr>chapter_item_href = Some ''/reader/manga/peak/1/'', chapter_h3_text = ''Chapter 1'',
          chapter_p_text = ''May 1, 2024''\<rparr>,
         \<lparr>chapter_item_href = Some ''#'', chapter_h3_text = ''Chapter 2'',
          chapter_p_text = ''May 2, 2024''\<rparr>,
         \<lparr>chapter_item_href = Some ''/reader/manga/peak/3/'', chapter_h3_text = ''Chapter 3'',
          chapter_p_text = ''2 days ago''\<rparr>]"
  have h1: "\<forall>n \<in> set ?nodes. hasAbsoluteDate ?dp n"
    by (simp add: hasAbsoluteDate_def trim_def isWhiteSpace_def startsWith_simps)
  have g1: "hasAbsoluteDate ?dp
     \<lparr>chapter_a_href = Some ''/solo-chapter-1/'', chapternum_text = ''Chapter 1'',
      chapterdate_text = '' May 1, 2024 ''\<rparr>"
    using h1 by simp
  have m: "firstMatch relativeDateAt (trim ''May 1, 2024'') = None"
    by code_simp
  have dated: "map (\<lambda>(k, n). (ensureTrailingSlash (relativeChapterId (or_empty (chapter_item_href n))),
                   (case firstMatch relativeDateAt (trim (chapter_p_text n)) of
                      None \<Rightarrow> 1000 + int k
                    | Some m \<Rightarrow> (case ?dp m of None \<Rightarrow> 1000 + int k | Some t \<Rightarrow> t))))
     (filter (\<lambda>(k, n). \<not> (or_empty (chapter_item_href n) = [] \<or>
                            startsWith (or_empty (chapter_item_href n)) ''#''))
        (enumerate 0 ?items)) =
     [(''/reader/manga/peak/1/'', 1000), (''/reader/manga/peak/3/'', 1002)]"
    by code_simp
  note a = parseChapterList_clock [of "\<lambda>s. s" ?dp "\<lambda>s. 0 :: nat" "\<lambda>i. 1000" ?nodes sampleManga
      "''en''" "\<lambda>i. 2000" "[]"]
  note b = parseChapterList_clock [of "\<lambda>s. s" ?dp "\<lambda>s. 0 :: nat" "\<lambda>i. 1000 + int i" "[]" sampleManga
      "''en''" "\<lambda>i. 0" ?items]
  have e: "MangaReaderParser_parseChapterList (\<lambda>s. s) ?dp (\<lambda>s. 0 :: nat) (\<lambda>i. 1000) ?nodes
             sampleManga ''en'' =
           MangaReaderParser_parseChapterList (\<lambda>s. s) ?dp (\<lambda>s. 0 :: nat) (\<lambda>i. 2000) ?nodes
             sampleManga ''en''"
    using h1 a by blast
  have "mset (map (\<lambda>c. (chap_chapterId c, chap_publishDate c))
          (ZizParser_parseChapterList (\<lambda>s. s) ?dp (\<lambda>i. 1000 + int i) ?items sampleManga ''en'')) =
        mset (map (\<lambda>(k, n). (ensureTrailingSlash (relativeChapterId (or_empty (chapter_item_href n))),
                   (case firstMatch relativeDateAt (trim (chapter_p_text n)) of
                      None \<Rightarrow> 1000 + int k
                    | Some m \<Rightarrow> (case ?dp m of None \<Rightarrow> 1000 + int k | Some t \<Rightarrow> t))))
     (filter (\<lambda>(k, n). \<not> (or_empty (chapter_item_href n) = [] \<or>
                            startsWith (or_empty (chapter_item_href n)) ''#''))
        (enumerate 0 ?items)))"
    using b by blast
  then have f: "mset (map (\<lambda>c. (chap_chapterId c, chap_publishDate c))
          (ZizParser_parseChapterList (\<lambda>s. s) ?dp (\<lambda>i. 1000 + int i) ?items sampleManga ''en'')) =
        mset [(''/reader/manga/peak/1/'', 1000), (''/reader/manga/peak/3/'', 1002)]"
    by (simp only: dated)
  show ?thesis
    using g1 e m f by blast
qed

lemma str_includes_Nil: "str_includes s []"
  by (cases s) (simp_all add: startsWith_def)

lemma startsWith_append: "startsWith s p \<Longrightarrow> startsWith (s @ x) p"
proof -
  assume a: "startsWith s p"
  then have "length (take (length p) s) = length p"
    by (simp add: startsWith_def)
  then have "length p \<le> length s"
    by simp
  then show ?thesis using a by (simp add: startsWith_def)
qed

lemma str_includes_append: "str_includes s p \<Longrightarrow> str_includes (s @ x) p"
proof (induction s)
  case Nil
  then show ?case by (simp add: str_includes_Nil)
next
  case (Cons c s)
  then show ?case
    using startsWith_append [of "c # s" p x] by auto
qed

lemma find_first:
  assumes "\<forall>s \<in> set before. \<not> P s" "P x"
  shows "find P (before @ [x] @ after) = Some x"
  using assms by (induction before) auto

lemma startsWith_long:
  assumes "length p \<le> length s"
  shows "startsWith (s @ x) p = startsWith s p"
  using assms by (simp add: startsWith_def)

lemma imagesArrayAt_key:
  assumes "CHR '']'' \<notin> set body"
  shows "imagesArrayAt ([dq] @ ''images'' @ [dq] @ '':'' @ ''['' @ body @ '']'' @ post) =
         Some (''['' @ body @ '']'')"
proof -
  have nb: "\<And>x. x \<in> set body \<Longrightarrow> x \<noteq> CHR '']''"
    using assms by auto
  have t: "takeWhile (\<lambda>c. c \<noteq> CHR '']'') (body @ CHR '']'' # post) = body"
    by (simp add: takeWhile_append2 nb)
  have d: "dropWhile (\<lambda>c. c \<noteq> CHR '']'') (body @ CHR '']'' # post) = CHR '']'' # post"
    by (simp add: dropWhile_append2 nb)
  show ?thesis
    by (simp add: imagesArrayAt_def startsWith_simps dq_def isWhiteSpace_def t d)
qed

lemma dropWhile_ws_not_bracket:
  assumes "b \<noteq> []" "\<not> isWhiteSpace (last b)" "CHR '']'' \<notin> set b"
  shows "\<not> startsWith (dropWhile isWhiteSpace (b @ t)) '']''"
proof -
  have l: "last b \<in> set b" using assms(1) by simp
  then have d: "dropWhile isWhiteSpace (b @ t) = dropWhile isWhiteSpace b @ t"
    using assms(2) by (rule dropWhile_append1)
  have ne: "dropWhile isWhiteSpace b \<noteq> []"
    using l assms(2) by (auto simp: dropWhile_eq_Nil_conv)
  then have "hd (dropWhile isWhiteSpace b) \<in> set b"
    by (meson hd_in_set set_dropWhileD)
  then have "hd (dropWhile isWhiteSpace b) \<noteq> CHR '']''"
    using assms(3) by auto
  then show ?thesis
    using ne by (cases "dropWhile isWhiteSpace b") (auto simp: d startsWith_simps)
qed

lemma firstMatch_skip:
  assumes "\<not> str_includes (pre @ [dq] @ ''images'') ([dq] @ ''images'' @ [dq])"
  shows "firstMatch imagesArrayAt (pre @ [dq] @ ''images'' @ [dq] @ rest) =
         firstMatch imagesArrayAt ([dq] @ ''images'' @ [dq] @ rest)"
  using assms
proof (induction pre)
  case Nil
  then show ?case by simp
next
  case (Cons c pre)
  let ?k = "[dq] @ ''images'' @ [dq]"
  from Cons.prems have ns: "\<not> startsWith ((c # pre) @ [dq] @ ''images'') ?k"
    and rec: "\<not> str_includes (pre @ [dq] @ ''images'') ?k"
    by simp_all
  have "length ?k \<le> length ((c # pre) @ [dq] @ ''images'')"
    by simp
  then have "startsWith (((c # pre) @ [dq] @ ''images'') @ ([dq] @ rest)) ?k =
             startsWith ((c # pre) @ [dq] @ ''images'') ?k"
    by (rule startsWith_long)
  then have "\<not> startsWith ((c # pre) @ [dq] @ ''images'' @ [dq] @ rest) ?k"
    using ns by simp
  then have "imagesArrayAt ((c # pre) @ [dq] @ ''images'' @ [dq] @ rest) = None"
    by (simp add: imagesArrayAt_def)
  then show ?case
    using Cons.IH [OF rec] by simp
qed

lemma firstMatch_images:
  assumes "\<not> str_includes (pre @ [dq] @ ''images'') ([dq] @ ''images'' @ [dq])"
    and "CHR '']'' \<notin> set body"
  shows "firstMatch imagesArrayAt (pre @ [dq] @ ''images'' @ [dq] @ '':'' @ ''['' @ body @ '']'' @ post) =
         Some (''['' @ body @ '']'')"
proof -
  have "firstMatch imagesArrayAt ([dq] @ ''images'' @ [dq] @ '':'' @ ''['' @ body @ '']'' @ post) =
        Some (''['' @ body @ '']'')"
    using imagesArrayAt_key [OF assms(2), of post] by simp
  then show ?thesis
    using firstMatch_skip [OF assms(1), of "'':'' @ ''['' @ body @ '']'' @ post"] by simp
qed

lemma replaceCommaBracket_end:
  "CHR '']'' \<notin> set b \<Longrightarrow>
   replaceCommaBracket (b @ '']'') =
     (if b \<noteq> [] \<and> last b = CHR '','' then butlast b @ '']'' else b @ '']'')"
  by (induction b rule: replaceCommaBracket.induct) (auto split: if_splits)

lemma replaceCommaSpaceBracket_plain:
  "b \<noteq> [] \<Longrightarrow> \<not> isWhiteSpace (last b) \<Longrightarrow> last b \<noteq> CHR '','' \<Longrightarrow> CHR '']'' \<notin> set b \<Longrightarrow>
   replaceCommaSpaceBracket (b @ '']'') = b @ '']''"
proof (induction b)
  case Nil
  then show ?case by simp
next
  case (Cons c b)
  show ?case
  proof (cases "b = []")
    case True
    then show ?thesis using Cons.prems by (simp add: startsWith_simps)
  next
    case False
    then have p: "\<not> isWhiteSpace (last b)" "last b \<noteq> CHR '',''" "CHR '']'' \<notin> set b"
      using Cons.prems by simp_all
    have "\<not> startsWith (dropWhile isWhiteSpace (b @ '']'')) '']''"
      using False p(1) p(3) by (rule dropWhile_ws_not_bracket)
    then show ?thesis
      using Cons.IH [OF False p] by simp
  qed
qed

lemma replaceCommaSpaceBracket_trailing:
  "b \<noteq> [] \<Longrightarrow> \<not> isWhiteSpace (last b) \<Longrightarrow> last b \<noteq> CHR '','' \<Longrightarrow> CHR '']'' \<notin> set b \<Longrightarrow>
   \<forall>c \<in> set ws. isWhiteSpace c \<Longrightarrow>
   replaceCommaSpaceBracket (b @ '','' @ ws @ '']'') = b @ '']''"
proof (induction b)
  case Nil
  then show ?case by simp
next
  case (Cons c b)
  have w: "dropWhile isWhiteSpace (ws @ '']'') = '']''"
    using Cons.prems(5) by (simp add: dropWhile_append2 isWhiteSpace_def)
  show ?case
  proof (cases "b = []")
    case True
    then show ?thesis using Cons.prems w by (simp add: startsWith_simps)
  next
    case False
    then have p: "\<not> isWhiteSpace (last b)" "last b \<noteq> CHR '',''" "CHR '']'' \<notin> set b"
      using Cons.prems by simp_all
    have "\<not> startsWith (dropWhile isWhiteSpace (b @ '','' @ ws @ '']'')) '']''"
      using False p(1) p(3) by (rule dropWhile_ws_not_bracket)
    then show ?thesis
      using Cons.IH [OF False p Cons.prems(5)] by simp
  qed
qed

lemma joinComma_map:
  "f CHR '','' = CHR '','' \<Longrightarrow> map f (joinComma xs) = joinComma (map (map f) xs)"
  by (induction xs rule: joinComma.induct) simp_all

lemma set_joinComma: "set (joinComma xs) \<subseteq> (\<Union>x \<in> set xs. set x) \<union> {CHR '',''}"
  by (induction xs rule: joinComma.induct) auto

lemma last_joinComma:
  "xs \<noteq> [] \<Longrightarrow> \<forall>x \<in> set xs. x \<noteq> [] \<and> last x = c \<Longrightarrow>
   joinComma xs \<noteq> [] \<and> last (joinComma xs) = c"
  by (induction xs rule: joinComma.induct) auto

lemma singleToDoubleQuotes_element:
  assumes "sq \<notin> set u"
  shows "singleToDoubleQuotes (if single then [sq] @ u @ [sq] else [dq] @ u @ [dq]) = [dq] @ u @ [dq]"
proof -
  have "map (\<lambda>c. if c = sq then dq else c) u = u"
    using assms by (induction u) auto
  then show ?thesis by (simp add: singleToDoubleQuotes_def)
qed

lemma singleToDoubleQuotes_elements:
  assumes "\<forall>(single, u) \<in> set qurls. sq \<notin> set u"
  shows "map singleToDoubleQuotes
           (map (\<lambda>(single, u). if single then [sq] @ u @ [sq] else [dq] @ u @ [dq]) qurls) =
         map (\<lambda>u. [dq] @ u @ [dq]) (map snd qurls)"
  using assms
proof (induction qurls)
  case Nil
  then show ?case by simp
next
  case (Cons a qurls)
  obtain single u where a: "a = (single, u)" by (cases a)
  then have "sq \<notin> set u" using Cons.prems by simp
  from singleToDoubleQuotes_element [OF this, of single]
  show ?case
    using Cons a by simp
qed

lemma singleToDoubleQuotes_loose:
  assumes "\<forall>(single, u) \<in> set qurls. sq \<notin> set u" "sq \<notin> set tail"
  shows "singleToDoubleQuotes (looseArrayText qurls tail) =
         (''['' @ joinComma (map (\<lambda>u. [dq] @ u @ [dq]) (map snd qurls))) @ tail @ '']''"
proof -
  have c: "(\<lambda>c. if c = sq then dq else c) CHR '','' = CHR '',''"
    by (simp add: sq_def)
  have t: "map (\<lambda>c. if c = sq then dq else c) tail = tail"
    using assms(2) by (induction tail) auto
  have "map (\<lambda>c. if c = sq then dq else c)
          (joinComma (map (\<lambda>(single, u). if single then [sq] @ u @ [sq] else [dq] @ u @ [dq]) qurls)) =
        joinComma (map singleToDoubleQuotes
          (map (\<lambda>(single, u). if single then [sq] @ u @ [sq] else [dq] @ u @ [dq]) qurls))"
    using joinComma_map [of "\<lambda>c. if c = sq then dq else c", OF c]
    unfolding singleToDoubleQuotes_def [abs_def] by blast
  also have "\<dots> = joinComma (map (\<lambda>u. [dq] @ u @ [dq]) (map snd qurls))"
    by (simp only: singleToDoubleQuotes_elements [OF assms(1)])
  finally show ?thesis
    using t by (simp add: looseArrayText_def singleToDoubleQuotes_def sq_def)
qed

lemma array_head_props:
  assumes "\<forall>u \<in> set urls. CHR '']'' \<notin> set u"
  shows "CHR '']'' \<notin> set (''['' @ joinComma (map (\<lambda>u. [dq] @ u @ [dq]) urls)) \<and>
         \<not> isWhiteSpace (last (''['' @ joinComma (map (\<lambda>u. [dq] @ u @ [dq]) urls))) \<and>
         last (''['' @ joinComma (map (\<lambda>u. [dq] @ u @ [dq]) urls)) \<noteq> CHR '',''"
proof -
  let ?j = "joinComma (map (\<lambda>u. [dq] @ u @ [dq]) urls)"
  have "set ?j \<subseteq> (\<Union>x \<in> set (map (\<lambda>u. [dq] @ u @ [dq]) urls). set x) \<union> {CHR '',''}"
    by (rule set_joinComma)
  then have a: "CHR '']'' \<notin> set ?j"
    using assms by (fastforce simp: dq_def split: if_splits)
  have b: "\<not> isWhiteSpace (last (''['' @ ?j)) \<and> last (''['' @ ?j) \<noteq> CHR '',''"
  proof (cases "urls = []")
    case True
    then show ?thesis by (simp add: isWhiteSpace_def)
  next
    case False
    then have "map (\<lambda>u. [dq] @ u @ [dq]) urls \<noteq> []" by simp
    moreover have "\<forall>x \<in> set (map (\<lambda>u. [dq] @ u @ [dq]) urls). x \<noteq> [] \<and> last x = dq"
      by auto
    ultimately have "?j \<noteq> [] \<and> last ?j = dq"
      by (rule last_joinComma)
    then show ?thesis by (simp add: dq_def isWhiteSpace_def)
  qed
  show ?thesis using a b by simp
qed

lemma ws_chars: "isWhiteSpace c \<Longrightarrow> c \<noteq> sq \<and> c \<noteq> CHR '']'' \<and> c \<noteq> CHR '',''"
  by (auto simp: isWhiteSpace_def sq_def)

lemma clean_loose_array:
  assumes "\<forall>(single, u) \<in> set qurls. sq \<notin> set u \<and> CHR '']'' \<notin> set u"
    and "tail = [] \<or> (\<exists>ws. tail = '','' @ ws \<and> (\<forall>c \<in> set ws. isWhiteSpace c))"
  shows "replaceCommaSpaceBracket (replaceCommaBracket
           (singleToDoubleQuotes (looseArrayText qurls tail))) = jsonArrayText (map snd qurls)"
proof -
  let ?b = "''['' @ joinComma (map (\<lambda>u. [dq] @ u @ [dq]) (map snd qurls))"
  have u1: "\<forall>(single, u) \<in> set qurls. sq \<notin> set u"
    using assms(1) by auto
  have u2: "\<forall>u \<in> set (map snd qurls). CHR '']'' \<notin> set u"
    using assms(1) by auto
  note hp = array_head_props [OF u2]
  have bne: "?b \<noteq> []" by simp
  have nb: "CHR '']'' \<notin> set ?b" using hp by blast
  have nw: "\<not> isWhiteSpace (last ?b)" using hp by blast
  have nc: "last ?b \<noteq> CHR '',''" using hp by blast
  have w: "jsonArrayText (map snd qurls) = ?b @ '']''"
    by (simp add: jsonArrayText_def)
  from assms(2) show ?thesis
  proof
    assume t: "tail = []"
    then have "singleToDoubleQuotes (looseArrayText qurls tail) = ?b @ '']''"
      using singleToDoubleQuotes_loose [OF u1, of tail] by simp
    moreover have "replaceCommaBracket (?b @ '']'') = ?b @ '']''"
      using replaceCommaBracket_end [OF nb] nc by simp
    moreover have "replaceCommaSpaceBracket (?b @ '']'') = ?b @ '']''"
      using bne nw nc nb by (rule replaceCommaSpaceBracket_plain)
    ultimately show ?thesis by (simp only: w)
  next
    assume "\<exists>ws. tail = '','' @ ws \<and> (\<forall>c \<in> set ws. isWhiteSpace c)"
    then obtain ws where t: "tail = '','' @ ws" and ws: "\<forall>c \<in> set ws. isWhiteSpace c"
      by blast
    have "sq \<notin> set ws"
      using ws ws_chars by blast
    then have "sq \<notin> set tail"
      using t by (simp add: sq_def)
    then have q: "singleToDoubleQuotes (looseArrayText qurls tail) = ?b @ '','' @ ws @ '']''"
      using singleToDoubleQuotes_loose [OF u1, of tail] t by simp
    have r2a: "replaceCommaSpaceBracket (?b @ '']'') = ?b @ '']''"
      using bne nw nc nb by (rule replaceCommaSpaceBracket_plain)
    have r2b: "replaceCommaSpaceBracket (?b @ '','' @ ws @ '']'') = ?b @ '']''"
      using bne nw nc nb ws by (rule replaceCommaSpaceBracket_trailing)
    show ?thesis
    proof (cases "ws = []")
      case True
      have "CHR '']'' \<notin> set (?b @ '','')" using nb by simp
      from replaceCommaBracket_end [OF this]
      have "replaceCommaBracket ((?b @ '','') @ '']'') = ?b @ '']''"
        by simp
      then have "replaceCommaBracket (?b @ '','' @ ws @ '']'') = ?b @ '']''"
        using True by simp
      then show ?thesis by (simp only: q r2a w)
    next
      case False
      have "CHR '']'' \<notin> set ws"
        using ws ws_chars by blast
      then have n: "CHR '']'' \<notin> set (?b @ '','' @ ws)"
        using nb by simp
      have "last (?b @ '','' @ ws) = last ws" using False by simp
      moreover have "isWhiteSpace (last ws)" using False ws by simp
      ultimately have "last (?b @ '','' @ ws) \<noteq> CHR '',''"
        using ws_chars by metis
      with replaceCommaBracket_end [OF n]
      have "replaceCommaBracket ((?b @ '','' @ ws) @ '']'') = (?b @ '','' @ ws) @ '']''"
        by simp
      then have "replaceCommaBracket (?b @ '','' @ ws @ '']'') = ?b @ '','' @ ws @ '']''"
        by simp
      then show ?thesis by (simp only: q r2b w)
    qed
  qed
qed

lemma jsonArrayText_as_loose:
  "jsonArrayText urls = looseArrayText (map (Pair False) urls) []"
  by (simp add: jsonArrayText_def looseArrayText_def comp_def)

lemma clean_json_array:
  assumes "\<forall>u \<in> set urls. sq \<notin> set u \<and> CHR '']'' \<notin> set u"
  shows "replaceCommaSpaceBracket (replaceCommaBracket (singleToDoubleQuotes (jsonArrayText urls))) =
         jsonArrayText urls"
proof -
  have "\<forall>(single, u) \<in> set (map (Pair False) urls). sq \<notin> set u \<and> CHR '']'' \<notin> set u"
    using assms by auto
  from clean_loose_array [OF this, of "[]"] show ?thesis
    by (simp add: jsonArrayText_as_loose comp_def)
qed

lemma loose_array_shape:
  assumes "\<forall>(single, u) \<in> set qurls. sq \<notin> set u \<and> CHR '']'' \<notin> set u"
    and "tail = [] \<or> (\<exists>ws. tail = '','' @ ws \<and> (\<forall>c \<in> set ws. isWhiteSpace c))"
  shows "\<exists>body. looseArrayText qurls tail = ''['' @ body @ '']'' \<and> CHR '']'' \<notin> set body"
proof -
  let ?j = "joinComma (map (\<lambda>(single, u). if single then [sq] @ u @ [sq] else [dq] @ u @ [dq]) qurls)"
  have "set ?j \<subseteq> (\<Union>x \<in> set (map (\<lambda>(single, u). if single then [sq] @ u @ [sq]
            else [dq] @ u @ [dq]) qurls). set x) \<union> {CHR '',''}"
    by (rule set_joinComma)
  then have a: "CHR '']'' \<notin> set ?j"
    using assms(1) by (fastforce simp: dq_def sq_def split: if_splits)
  have "CHR '']'' \<notin> set ws" if "\<forall>c \<in> set ws. isWhiteSpace c" for ws
    using that ws_chars by blast
  then have b: "CHR '']'' \<notin> set tail"
    using assms(2) by auto
  have "looseArrayText qurls tail = ''['' @ (?j @ tail) @ '']''"
    by (simp add: looseArrayText_def)
  moreover have "CHR '']'' \<notin> set (?j @ tail)"
    using a b by simp
  ultimately show ?thesis by blast
qed

lemma extractImagesFromScript_parsed:
  assumes "find (\<lambda>script. str_includes script ''ts_reader.run'') scripts = Some s"
    and "s \<noteq> []"
    and "firstMatch imagesArrayAt s = Some arr"
    and "replaceCommaSpaceBracket (replaceCommaBracket (singleToDoubleQuotes arr)) = w"
    and "jsonParse w = Some v"
  shows "extractImagesFromScript jsonParse scripts =
         (case v of
            JArray urls \<Rightarrow>
              concat (map (\<lambda>url. case url of
                                   JString u \<Rightarrow> if isValidImageUrl u then [u] else []
                                 | _ \<Rightarrow> []) urls)
          | _ \<Rightarrow> [])"
  by (simp add: extractImagesFromScript_def assms)

lemma firstMatch_images_array:
  assumes "\<not> str_includes (pre @ [dq] @ ''images'') ([dq] @ ''images'' @ [dq])"
    and "arr = ''['' @ body @ '']''"
    and "CHR '']'' \<notin> set body"
  shows "firstMatch imagesArrayAt (pre @ [dq] @ ''images'' @ [dq] @ '':'' @ arr @ post) = Some arr"
  using firstMatch_images [OF assms(1,3), of post] by (simp add: assms(2))

text \<open>
  C9 as stated fails for URLs that contain a closing bracket or a single quote. With
  \<open>b]c.jpg\<close> the pattern stops at the bracket inside the URL, the text is not JSON, and
  the fallback finds the first URL in the well-formed array and nothing in the array with
  single quotes. With \<open>b's.jpg\<close> the replacement of single quotes breaks the well-formed
  array too, and the fallback finds both URLs there but only the double-quoted one in the
  array whose first URL has single quotes.
\<close>

theorem extractImagesFromScript_counterexample:
  "extractImagesFromScript exampleJsonParse
     [''ts_reader.run({'' @ [dq] @ ''images'' @ [dq] @ '':'' @
        jsonArrayText [''https://cdn.example/a.jpg'', ''https://cdn.example/b]c.jpg''] @ ''});'']
     = [''https://cdn.example/a.jpg''] \<and>
   extractImagesFromScript exampleJsonParse
     [''ts_reader.run({'' @ [dq] @ ''images'' @ [dq] @ '':'' @
        looseArrayText [(True, ''https://cdn.example/a.jpg''),
                        (True, ''https://cdn.example/b]c.jpg'')] [] @ ''});'']
     = [] \<and>
   extractImagesFromScript exampleJsonParse
     [''ts_reader.run({'' @ [dq] @ ''images'' @ [dq] @ '':'' @
        jsonArrayText [''https://cdn.example/a.jpg'', ''https://cdn.example/b'' @ [sq] @ ''s.jpg''] @
        ''});'']
     = [''https://cdn.example/a.jpg'', ''https://cdn.example/b'' @ [sq] @ ''s.jpg''] \<and>
   extractImagesFromScript exampleJsonParse
     [''ts_reader.run({'' @ [dq] @ ''images'' @ [dq] @ '':'' @
        looseArrayText [(True, ''https://cdn.example/a.jpg''),
                        (False, ''https://cdn.example/b'' @ [sq] @ ''s.jpg'')] [] @ ''});'']
     = [''https://cdn.example/b'' @ [sq] @ ''s.jpg'']"
  by code_simp

text \<open>
  C9, amended. Take a script that holds the reader marker and then, as its first
  \<open>"images"\<close> key, an array of URLs that is malformed only by single quotes around some or
  all URLs and by a comma, with or without white space, before the closing bracket. If no
  URL contains a single quote or a closing bracket, and \<open>JSON.parse\<close> accepts the well-formed
  array of the same URLs, then \<open>extractImagesFromScript\<close> returns for it what it returns for
  the script with that well-formed array in its place.
\<close>

theorem extractImagesFromScript_loose_array:
  assumes "\<forall>(single, u) \<in> set qurls. sq \<notin> set u \<and> CHR '']'' \<notin> set u"
    and "tail = [] \<or> (\<exists>ws. tail = '','' @ ws \<and> (\<forall>c \<in> set ws. isWhiteSpace c))"
    and "str_includes pre ''ts_reader.run''"
    and "\<not> str_includes (pre @ [dq] @ ''images'') ([dq] @ ''images'' @ [dq])"
    and "\<forall>s \<in> set scripts1. \<not> str_includes s ''ts_reader.run''"
    and "jsonParse (jsonArrayText (map snd qurls)) \<noteq> None"
  shows "extractImagesFromScript jsonParse
           (scripts1 @ [pre @ [dq] @ ''images'' @ [dq] @ '':'' @ looseArrayText qurls tail @ post]
              @ scripts2) =
         extractImagesFromScript jsonParse
           (scripts1 @ [pre @ [dq] @ ''images'' @ [dq] @ '':'' @ jsonArrayText (map snd qurls) @ post]
              @ scripts2)"
proof -
  let ?M = "looseArrayText qurls tail"
  let ?W = "jsonArrayText (map snd qurls)"
  let ?sM = "pre @ [dq] @ ''images'' @ [dq] @ '':'' @ ?M @ post"
  let ?sW = "pre @ [dq] @ ''images'' @ [dq] @ '':'' @ ?W @ post"
  let ?marked = "\<lambda>script. str_includes script ''ts_reader.run''"
  obtain v where v: "jsonParse ?W = Some v"
    using assms(6) by auto
  have iM: "?marked ?sM"
    by (rule str_includes_append [OF assms(3)])
  have iW: "?marked ?sW"
    by (rule str_includes_append [OF assms(3)])
  have fM: "find ?marked (scripts1 @ [?sM] @ scripts2) = Some ?sM"
    by (rule find_first [of scripts1 ?marked ?sM scripts2, OF assms(5) iM])
  have fW: "find ?marked (scripts1 @ [?sW] @ scripts2) = Some ?sW"
    by (rule find_first [of scripts1 ?marked ?sW scripts2, OF assms(5) iW])
  have neM: "?sM \<noteq> []" and neW: "?sW \<noteq> []"
    by simp_all
  obtain bodyM where bM: "?M = ''['' @ bodyM @ '']''" "CHR '']'' \<notin> set bodyM"
    using loose_array_shape [OF assms(1,2)] by blast
  have uW: "\<forall>(single, u) \<in> set (map (Pair False) (map snd qurls)). sq \<notin> set u \<and> CHR '']'' \<notin> set u"
    using assms(1) by auto
  have "\<exists>body. ?W = ''['' @ body @ '']'' \<and> CHR '']'' \<notin> set body"
    using loose_array_shape [OF uW, of "[]"] by (simp only: jsonArrayText_as_loose [symmetric]) blast
  then obtain bodyW where bW: "?W = ''['' @ bodyW @ '']''" "CHR '']'' \<notin> set bodyW"
    by blast
  have mM: "firstMatch imagesArrayAt ?sM = Some ?M"
    using assms(4) bM by (rule firstMatch_images_array)
  have mW: "firstMatch imagesArrayAt ?sW = Some ?W"
    using assms(4) bW by (rule firstMatch_images_array)
  have cM: "replaceCommaSpaceBracket (replaceCommaBracket (singleToDoubleQuotes ?M)) = ?W"
    using assms(1,2) by (rule clean_loose_array)
  have "\<forall>u \<in> set (map snd qurls). sq \<notin> set u \<and> CHR '']'' \<notin> set u"
    using assms(1) by auto
  then have cW: "replaceCommaSpaceBracket (replaceCommaBracket (singleToDoubleQuotes ?W)) = ?W"
    by (rule clean_json_array)
  have "extractImagesFromScript jsonParse (scripts1 @ [?sM] @ scripts2) =
        extractImagesFromScript jsonParse (scripts1 @ [?sW] @ scripts2)"
    by (simp only: extractImagesFromScript_parsed [where jsonParse = jsonParse, OF fM neM mM cM v]
        extractImagesFromScript_parsed [where jsonParse = jsonParse, OF fW neW mW cW v])
  then show ?thesis .
qed

theorem extractImagesFromScript_loose_array_witness:
  "extractImagesFromScript exampleJsonParse
     ([''var x = 1;''] @
      [''ts_reader.run({'' @ [dq] @ ''images'' @ [dq] @ '':'' @
         looseArrayText [(True, ''https://cdn.example/a.jpg''),
                         (False, ''https://cdn.example/b.jpg'')] '', '' @ ''});''] @ []) =
     [''https://cdn.example/a.jpg'', ''https://cdn.example/b.jpg''] \<and>
   extractImagesFromScript exampleJsonParse
     ([''var x = 1;''] @
      [''ts_reader.run({'' @ [dq] @ ''images'' @ [dq] @ '':'' @
         jsonArrayText [''https://cdn.example/a.jpg'', ''https://cdn.example/b.jpg''] @
         ''});''] @ []) =
     [''https://cdn.example/a.jpg'', ''https://cdn.example/b.jpg'']"
proof -
  let ?qurls = "[(True, ''https://cdn.example/a.jpg''), (False, ''https://cdn.example/b.jpg'')]"
  have h1: "\<forall>(single, u) \<in> set ?qurls. sq \<notin> set u \<and> CHR '']'' \<notin> set u"
    by (simp add: sq_def)
  have h2: "'', '' = [] \<or> (\<exists>ws. '', '' = '','' @ ws \<and> (\<forall>c \<in> set ws. isWhiteSpace c))"
    by (simp add: isWhiteSpace_def)
  have h3: "str_includes ''ts_reader.run({'' ''ts_reader.run''"
    by (simp add: startsWith_simps)
  have h4: "\<not> str_includes (''ts_reader.run({'' @ [dq] @ ''images'') ([dq] @ ''images'' @ [dq])"
    by (simp add: startsWith_simps dq_def)
  have h5: "\<forall>s \<in> set [''var x = 1;'']. \<not> str_includes s ''ts_reader.run''"
    by (simp add: startsWith_simps)
  have h6: "exampleJsonParse (jsonArrayText (map snd ?qurls)) \<noteq> None"
    by (simp add: exampleJsonParse_def)
  have m: "map snd ?qurls = [''https://cdn.example/a.jpg'', ''https://cdn.example/b.jpg'']"
    by simp
  have e: "extractImagesFromScript exampleJsonParse
     ([''var x = 1;''] @
      [''ts_reader.run({'' @ [dq] @ ''images'' @ [dq] @ '':'' @
         jsonArrayText [''https://cdn.example/a.jpg'', ''https://cdn.example/b.jpg''] @
         ''});''] @ []) =
     [''https://cdn.example/a.jpg'', ''https://cdn.example/b.jpg'']"
    by code_simp
  note w = extractImagesFromScript_loose_array [where jsonParse = exampleJsonParse
      and post = "''});''" and ?scripts2.0 = "[]", OF h1 h2 h3 h4 h5 h6]
  show ?thesis
    using w e unfolding m by (simp only: simp_thms)
qed

end
